theory Spec2Isabelle
  imports Main "HOL-Library.Word"
begin

unbundle bit_operations_syntax

section \<open>Common constants\<close>

text \<open>
  Error numbers of the kernel (positive values; the code returns them negated) and the
  size of the interface name buffer, \<open>char name[IFNAMSIZ]\<close>.
\<close>

definition ENOMEM :: int where "ENOMEM = 12"
definition ENODEV :: int where "ENODEV = 19"
definition EINVAL :: int where "EINVAL = 22"
definition EMSGSIZE :: int where "EMSGSIZE = 90"
definition EOPNOTSUPP :: int where "EOPNOTSUPP = 95"

definition IFNAMSIZ :: nat where "IFNAMSIZ = 16"

type_synonym u8 = "8 word"
type_synonym u32 = "32 word"

section \<open>Device resolver: \<open>ethnl_dev_get\<close> (netlink.c)\<close>

text \<open>
  A network device as far as the resolver looks at it: its interface index, its name,
  whether \<open>netif_device_present\<close> holds, and its reference count (\<open>dev_hold\<close> and
  \<open>dev_put\<close>). The registry of a network namespace is the list of its devices; a device
  pointer is a position in that list.
\<close>

record net_device =
  ifindex :: int
  name :: string
  present :: bool
  refcnt :: int

type_synonym net = "net_device list"

text \<open>
  \<open>strncmp\<close> on C strings (a \<open>string\<close> here is the characters before the terminating
  NUL): at most \<open>n\<close> characters are compared, the terminator included.
\<close>

fun strncmp :: "string \<Rightarrow> string \<Rightarrow> nat \<Rightarrow> int" where
  "strncmp a b 0 = 0"
| "strncmp [] [] (Suc n) = 0"
| "strncmp [] (c # cs) (Suc n) = - 1"
| "strncmp (c # cs) [] (Suc n) = 1"
| "strncmp (c # cs) (d # ds) (Suc n) =
     (if c = d then strncmp cs ds n
      else if (of_char c :: nat) < of_char d then - 1 else 1)"

fun find_dev :: "(net_device \<Rightarrow> bool) \<Rightarrow> net \<Rightarrow> nat option" where
  "find_dev P [] = None"
| "find_dev P (d # ds) =
     (if P d then Some 0 else map_option Suc (find_dev P ds))"

definition dev_hold :: "net \<Rightarrow> nat \<Rightarrow> net" where
  "dev_hold nt p = nt[p := (nt ! p)\<lparr>refcnt := refcnt (nt ! p) + 1\<rparr>]"

definition dev_put :: "net \<Rightarrow> nat \<Rightarrow> net" where
  "dev_put nt p = nt[p := (nt ! p)\<lparr>refcnt := refcnt (nt ! p) - 1\<rparr>]"

text \<open>
  The registry lookups take a reference on the device they return.
\<close>

definition dev_get_by_index :: "net \<Rightarrow> int \<Rightarrow> nat option \<times> net" where
  "dev_get_by_index nt i =
     (case find_dev (\<lambda>d. ifindex d = i) nt of
        None \<Rightarrow> (None, nt)
      | Some p \<Rightarrow> (Some p, dev_hold nt p))"

definition dev_get_by_name :: "net \<Rightarrow> string \<Rightarrow> nat option \<times> net" where
  "dev_get_by_name nt nm =
     (case find_dev (\<lambda>d. name d = nm) nt of
        None \<Rightarrow> (None, nt)
      | Some p \<Rightarrow> (Some p, dev_hold nt p))"

definition netif_device_present :: "net_device \<Rightarrow> bool" where
  "netif_device_present d = present d"

text \<open>
  The attribute table \<open>tb\<close> that \<open>nla_parse_nested\<close> fills from the identification
  nest under \<open>dev_policy\<close>. The parser itself belongs to the netlink library; it is a
  parameter \<open>parse\<close> of the resolver, returning its status and the table.
\<close>

record dev_tb =
  tb_DEV_INDEX :: "u32 option"
  tb_DEV_NAME :: "string option"

text \<open>
  The result of the resolver: \<open>ERR_PTR(err)\<close> with the message left in the extended
  ack, or the device pointer; and the registry after the call.
\<close>

type_synonym dev_result = "(int \<times> string) + nat"

definition ethnl_dev_get ::
  "('n \<Rightarrow> int \<times> dev_tb) \<Rightarrow> net \<Rightarrow> 'n option \<Rightarrow> dev_result \<times> net" where
  "ethnl_dev_get parse nt nest =
     (case nest of
        None \<Rightarrow> (Inl (- EINVAL, ''device identification missing''), nt)
      | Some n \<Rightarrow>
         (case parse n of (ret, tb) \<Rightarrow>
            if ret < 0 then (Inl (ret, []), nt)
            else
              (case tb_DEV_INDEX tb of
                 Some i \<Rightarrow>
                   (case dev_get_by_index nt (sint i) of
                      (None, nt1) \<Rightarrow> (Inl (- ENODEV, ''no device matches ifindex''), nt1)
                    | (Some dev, nt1) \<Rightarrow>
                        (case tb_DEV_NAME tb of
                           Some nl_name \<Rightarrow>
                             if strncmp (name (nt1 ! dev)) nl_name IFNAMSIZ \<noteq> 0
                             then (Inl (- ENODEV, ''ifindex and name do not match''),
                                   dev_put nt1 dev)
                             else (Inr dev, nt1)
                         | None \<Rightarrow> (Inr dev, nt1)))
               | None \<Rightarrow>
                   (case tb_DEV_NAME tb of
                      Some nl_name \<Rightarrow>
                        (case dev_get_by_name nt nl_name of
                           (None, nt1) \<Rightarrow> (Inl (- ENODEV, ''no device matches name''), nt1)
                         | (Some dev, nt1) \<Rightarrow>
                             if \<not> netif_device_present (nt1 ! dev)
                             then (Inl (- ENODEV, ''device not present''), dev_put nt1 dev)
                             else (Inr dev, nt1))
                    | None \<Rightarrow>
                        (Inl (- EINVAL, ''neither ifindex nor name specified''), nt)))))"

section \<open>Attribute types\<close>

text \<open>
  The attribute type enumerations of the protocol, one per nest level, under the names
  the sources use. \<open>attrtype\<close> tags an attribute with the enumeration it belongs to.
\<close>

datatype dev_attr = ETHTOOL_A_DEV_INDEX | ETHTOOL_A_DEV_NAME

datatype settings_attr =
    ETHTOOL_A_SETTINGS_DEV | ETHTOOL_A_SETTINGS_INFOMASK | ETHTOOL_A_SETTINGS_COMPACT
  | ETHTOOL_A_SETTINGS_LINK_INFO | ETHTOOL_A_SETTINGS_LINK_MODES
  | ETHTOOL_A_SETTINGS_LINK_STATE | ETHTOOL_A_SETTINGS_WOL

datatype linkinfo_attr =
    ETHTOOL_A_LINKINFO_PORT | ETHTOOL_A_LINKINFO_PHYADDR | ETHTOOL_A_LINKINFO_TP_MDIX
  | ETHTOOL_A_LINKINFO_TP_MDIX_CTRL | ETHTOOL_A_LINKINFO_TRANSCEIVER

datatype linkmodes_attr =
    ETHTOOL_A_LINKMODES_AUTONEG | ETHTOOL_A_LINKMODES_OURS | ETHTOOL_A_LINKMODES_PEER
  | ETHTOOL_A_LINKMODES_SPEED | ETHTOOL_A_LINKMODES_DUPLEX

datatype linkstate_attr = ETHTOOL_A_LINKSTATE_LINK

datatype wol_attr = ETHTOOL_A_WOL_MODES | ETHTOOL_A_WOL_SOPASS

datatype params_attr =
    ETHTOOL_A_PARAMS_DEV | ETHTOOL_A_PARAMS_INFOMASK | ETHTOOL_A_PARAMS_COMPACT
  | ETHTOOL_A_PARAMS_COALESCE | ETHTOOL_A_PARAMS_RING
  | ETHTOOL_A_PARAMS_PAUSE | ETHTOOL_A_PARAMS_CHANNELS

datatype coalesce_attr =
    ETHTOOL_A_COALESCE_RX_USECS | ETHTOOL_A_COALESCE_RX_MAXFRM
  | ETHTOOL_A_COALESCE_RX_USECS_IRQ | ETHTOOL_A_COALESCE_RX_MAXFRM_IRQ
  | ETHTOOL_A_COALESCE_RX_USECS_LOW | ETHTOOL_A_COALESCE_RX_MAXFRM_LOW
  | ETHTOOL_A_COALESCE_RX_USECS_HIGH | ETHTOOL_A_COALESCE_RX_MAXFRM_HIGH
  | ETHTOOL_A_COALESCE_TX_USECS | ETHTOOL_A_COALESCE_TX_MAXFRM
  | ETHTOOL_A_COALESCE_TX_USECS_IRQ | ETHTOOL_A_COALESCE_TX_MAXFRM_IRQ
  | ETHTOOL_A_COALESCE_TX_USECS_LOW | ETHTOOL_A_COALESCE_TX_MAXFRM_LOW
  | ETHTOOL_A_COALESCE_TX_USECS_HIGH | ETHTOOL_A_COALESCE_TX_MAXFRM_HIGH
  | ETHTOOL_A_COALESCE_PKT_RATE_LOW | ETHTOOL_A_COALESCE_PKT_RATE_HIGH
  | ETHTOOL_A_COALESCE_RX_USE_ADAPTIVE | ETHTOOL_A_COALESCE_TX_USE_ADAPTIVE
  | ETHTOOL_A_COALESCE_RATE_SAMPLE_INTERVAL | ETHTOOL_A_COALESCE_STATS_BLOCK_USECS

datatype ring_attr =
    ETHTOOL_A_RING_RX_MAX_PENDING | ETHTOOL_A_RING_RX_MINI_MAX_PENDING
  | ETHTOOL_A_RING_RX_JUMBO_MAX_PENDING | ETHTOOL_A_RING_TX_MAX_PENDING
  | ETHTOOL_A_RING_RX_PENDING | ETHTOOL_A_RING_RX_MINI_PENDING
  | ETHTOOL_A_RING_RX_JUMBO_PENDING | ETHTOOL_A_RING_TX_PENDING

datatype pause_attr = ETHTOOL_A_PAUSE_AUTONEG | ETHTOOL_A_PAUSE_RX | ETHTOOL_A_PAUSE_TX

datatype channels_attr =
    ETHTOOL_A_CHANNELS_MAX_RX | ETHTOOL_A_CHANNELS_MAX_TX | ETHTOOL_A_CHANNELS_MAX_OTHER
  | ETHTOOL_A_CHANNELS_MAX_COMBINED | ETHTOOL_A_CHANNELS_RX_COUNT
  | ETHTOOL_A_CHANNELS_TX_COUNT | ETHTOOL_A_CHANNELS_OTHER_COUNT
  | ETHTOOL_A_CHANNELS_COMBINED_COUNT

datatype attrtype =
    A_DEV dev_attr | A_SETTINGS settings_attr | A_LINKINFO linkinfo_attr
  | A_LINKMODES linkmodes_attr | A_LINKSTATE linkstate_attr | A_WOL wol_attr
  | A_PARAMS params_attr | A_COALESCE coalesce_attr | A_RING ring_attr
  | A_PAUSE pause_attr | A_CHANNELS channels_attr

section \<open>Message buffers and the attribute writers\<close>

text \<open>
  A message buffer (\<open>struct sk_buff\<close>) is the sequence of things written to it and its
  capacity in bytes. Each \<open>item\<close> is one write: a netlink plus generic netlink message
  header, the header of a nest, or a whole attribute. The writers of the netlink library
  fail with \<open>-EMSGSIZE\<close>, writing nothing, when the tail room is smaller than the
  padded size of what they write; cancelling a nest or a message trims the buffer back
  to where it started; ending one only fills in a length field of its header.
  \<open>BitsetNest\<close> stands for a whole bitset attribute written by \<open>ethnl_put_bitset32\<close>,
  of the given encoded length.
\<close>

datatype item =
    GenlHdr nat
  | NestStart attrtype
  | AttrU8 attrtype u8
  | AttrU32 attrtype u32
  | AttrString attrtype string
  | AttrBitfield32 attrtype u32 u32
  | AttrBinary attrtype "u8 list"
  | BitsetNest attrtype nat

record sk_buff =
  items :: "item list"
  cap :: nat

definition NLA_HDRLEN :: nat where "NLA_HDRLEN = 4"
definition NLMSG_HDRLEN :: nat where "NLMSG_HDRLEN = 16"
definition GENL_HDRLEN :: nat where "GENL_HDRLEN = 4"

definition NLA_ALIGN :: "nat \<Rightarrow> nat" where
  "NLA_ALIGN len = ((len + 3) div 4) * 4"

definition nla_total_size :: "nat \<Rightarrow> nat" where
  "nla_total_size payload = NLA_ALIGN (NLA_HDRLEN + payload)"

fun item_size :: "item \<Rightarrow> nat" where
  "item_size (GenlHdr cmd) = NLMSG_HDRLEN + GENL_HDRLEN"
| "item_size (NestStart t) = nla_total_size 0"
| "item_size (AttrU8 t v) = nla_total_size 1"
| "item_size (AttrU32 t v) = nla_total_size 4"
| "item_size (AttrString t s) = nla_total_size (length s + 1)"
| "item_size (AttrBitfield32 t v m) = nla_total_size 8"
| "item_size (AttrBinary t bs) = nla_total_size (length bs)"
| "item_size (BitsetNest t n) = n"

definition skb_len :: "sk_buff \<Rightarrow> nat" where
  "skb_len skb = sum_list (map item_size (items skb))"

definition skb_tailroom :: "sk_buff \<Rightarrow> nat" where
  "skb_tailroom skb = cap skb - skb_len skb"

definition skb_put_item :: "sk_buff \<Rightarrow> item \<Rightarrow> int \<times> sk_buff" where
  "skb_put_item skb it =
     (if skb_tailroom skb < item_size it then (- EMSGSIZE, skb)
      else (0, skb\<lparr>items := items skb @ [it]\<rparr>))"

definition skb_trim :: "sk_buff \<Rightarrow> nat \<Rightarrow> sk_buff" where
  "skb_trim skb mark = skb\<lparr>items := take mark (items skb)\<rparr>"

definition nla_put_u8 :: "sk_buff \<Rightarrow> attrtype \<Rightarrow> u8 \<Rightarrow> int \<times> sk_buff" where
  "nla_put_u8 skb t v = skb_put_item skb (AttrU8 t v)"

definition nla_put_u32 :: "sk_buff \<Rightarrow> attrtype \<Rightarrow> u32 \<Rightarrow> int \<times> sk_buff" where
  "nla_put_u32 skb t v = skb_put_item skb (AttrU32 t v)"

definition nla_put_string :: "sk_buff \<Rightarrow> attrtype \<Rightarrow> string \<Rightarrow> int \<times> sk_buff" where
  "nla_put_string skb t s = skb_put_item skb (AttrString t s)"

definition nla_put_bitfield32 ::
  "sk_buff \<Rightarrow> attrtype \<Rightarrow> u32 \<Rightarrow> u32 \<Rightarrow> int \<times> sk_buff" where
  "nla_put_bitfield32 skb t v m = skb_put_item skb (AttrBitfield32 t v m)"

text \<open>\<open>nla_put\<close> copies \<open>attrlen\<close> bytes of the data.\<close>

definition nla_put :: "sk_buff \<Rightarrow> attrtype \<Rightarrow> nat \<Rightarrow> u8 list \<Rightarrow> int \<times> sk_buff" where
  "nla_put skb t attrlen bs =
     skb_put_item skb (AttrBinary t (take attrlen bs @ replicate (attrlen - length bs) 0))"

text \<open>
  \<open>nla_nest_start\<close> returns the nest (here: where it starts in the buffer) or \<open>NULL\<close>.
\<close>

definition nla_nest_start :: "sk_buff \<Rightarrow> attrtype \<Rightarrow> nat option \<times> sk_buff" where
  "nla_nest_start skb t =
     (case skb_put_item skb (NestStart t) of
        (r, skb1) \<Rightarrow> if r < 0 then (None, skb1) else (Some (length (items skb)), skb1))"

definition nla_nest_end :: "sk_buff \<Rightarrow> nat \<Rightarrow> sk_buff" where
  "nla_nest_end skb nest = skb"

definition nla_nest_cancel :: "sk_buff \<Rightarrow> nat \<Rightarrow> sk_buff" where
  "nla_nest_cancel skb nest = skb_trim skb nest"

definition genlmsg_put :: "sk_buff \<Rightarrow> nat \<Rightarrow> nat option \<times> sk_buff" where
  "genlmsg_put skb cmd =
     (case skb_put_item skb (GenlHdr cmd) of
        (r, skb1) \<Rightarrow> if r < 0 then (None, skb1) else (Some (length (items skb)), skb1))"

definition genlmsg_end :: "sk_buff \<Rightarrow> nat option \<Rightarrow> sk_buff" where
  "genlmsg_end skb hdr = skb"

definition genlmsg_cancel :: "sk_buff \<Rightarrow> nat option \<Rightarrow> sk_buff" where
  "genlmsg_cancel skb hdr = (case hdr of None \<Rightarrow> skb | Some mark \<Rightarrow> skb_trim skb mark)"

section \<open>Request engine: the dump (netlink.c)\<close>

definition ethnl_fill_dev :: "sk_buff \<Rightarrow> net_device \<Rightarrow> attrtype \<Rightarrow> int \<times> sk_buff" where
  "ethnl_fill_dev msg dev attrtype =
     (case nla_nest_start msg attrtype of
        (None, msg1) \<Rightarrow> (- EMSGSIZE, msg1)
      | (Some nest, msg1) \<Rightarrow>
          (case nla_put_u32 msg1 (A_DEV ETHTOOL_A_DEV_INDEX) (word_of_int (ifindex dev)) of
             (r1, msg2) \<Rightarrow>
               if r1 \<noteq> 0 then (- EMSGSIZE, nla_nest_cancel msg2 nest)
               else
                 (case nla_put_string msg2 (A_DEV ETHTOOL_A_DEV_NAME) (name dev) of
                    (r2, msg3) \<Rightarrow>
                      if r2 \<noteq> 0 then (- EMSGSIZE, nla_nest_cancel msg3 nest)
                      else (0, nla_nest_end msg3 nest))))"

text \<open>
  The handler of a GET command (\<open>struct get_request_ops\<close>), as far as the dump uses it.
  \<open>'r\<close> is the request part of the data block, \<open>'d\<close> the reply part, which
  \<open>ethnl_init_reply_data\<close> zeroes and points at the device before every
  \<open>prepare_data\<close>; \<open>prepare_data\<close> returns its status and the reply data it gathered.
\<close>

record ('r, 'd) get_request_ops =
  reply_cmd :: nat
  dev_attrtype :: attrtype
  prepare_data :: "'r \<Rightarrow> net_device \<Rightarrow> int \<times> 'd"
  fill_reply :: "sk_buff \<Rightarrow> 'r \<Rightarrow> 'd \<Rightarrow> int \<times> sk_buff"

definition ethnl_get_dump_one ::
  "sk_buff \<Rightarrow> net_device \<Rightarrow> ('r, 'd) get_request_ops \<Rightarrow> 'r \<Rightarrow> int \<times> sk_buff" where
  "ethnl_get_dump_one skb dev ops req_info =
     (case prepare_data ops req_info dev of
        (ret, data) \<Rightarrow>
          if ret < 0 then (ret, skb)
          else
            (case ethnl_fill_dev skb dev (dev_attrtype ops) of
               (ret1, skb1) \<Rightarrow>
                 if ret1 < 0 then (ret1, skb1)
                 else fill_reply ops skb1 req_info data))"

text \<open>
  The inner loop of \<open>ethnl_get_dumpit\<close>, \<open>hlist_for_each_entry\<close> over one hash bucket.
  The result is how the loop was left (\<open>None\<close>: the bucket is exhausted; \<open>Some ret\<close>:
  by \<open>goto out\<close> or \<open>goto out_err\<close>, with the value to return), \<open>idx\<close> and the buffer.
\<close>

fun dump_bucket ::
  "('r, 'd) get_request_ops \<Rightarrow> 'r \<Rightarrow> nat \<Rightarrow> nat \<Rightarrow> sk_buff \<Rightarrow> net_device list
     \<Rightarrow> int option \<times> nat \<times> sk_buff" where
  "dump_bucket ops req_info s_idx idx skb [] = (None, idx, skb)"
| "dump_bucket ops req_info s_idx idx skb (dev # devs) =
     (if idx < s_idx then dump_bucket ops req_info s_idx (idx + 1) skb devs
      else
        (case genlmsg_put skb (reply_cmd ops) of
           (ehdr, skb1) \<Rightarrow>
             (case ethnl_get_dump_one skb1 dev ops req_info of
                (ret, skb2) \<Rightarrow>
                  if ret < 0 then
                    (let skb3 = genlmsg_cancel skb2 ehdr in
                     if ret = - EOPNOTSUPP
                     then dump_bucket ops req_info s_idx (idx + 1) skb3 devs
                     else if skb_len skb3 \<noteq> 0 then (Some (int (skb_len skb3)), idx, skb3)
                     else (Some ret, idx, skb3))
                  else dump_bucket ops req_info s_idx (idx + 1) (genlmsg_end skb2 ehdr) devs)))"

text \<open>
  The outer loop, \<open>for (h = s_h; h < NETDEV_HASHENTRIES; h++, s_idx = 0)\<close>, over the
  bucket heads from \<open>s_h\<close> on. The table \<open>dev_index_head\<close> has \<open>NETDEV_HASHENTRIES\<close>
  heads, so the loop ends when the heads are exhausted.
\<close>

fun dump_heads ::
  "('r, 'd) get_request_ops \<Rightarrow> 'r \<Rightarrow> nat \<Rightarrow> nat \<Rightarrow> nat \<Rightarrow> sk_buff \<Rightarrow> net_device list list
     \<Rightarrow> int option \<times> nat \<times> nat \<times> sk_buff" where
  "dump_heads ops req_info h s_idx idx skb [] = (None, h, idx, skb)"
| "dump_heads ops req_info h s_idx idx skb (head # heads) =
     (case dump_bucket ops req_info s_idx 0 skb head of
        (None, idx1, skb1) \<Rightarrow> dump_heads ops req_info (h + 1) 0 idx1 skb1 heads
      | (Some ret, idx1, skb1) \<Rightarrow> (Some ret, h, idx1, skb1))"

text \<open>
  The dump cursor: \<open>cb->args[2]\<close> (hash bucket) and \<open>cb->args[3]\<close> (position in it).
\<close>

record netlink_callback =
  args2 :: nat
  args3 :: nat

definition ethnl_get_dumpit ::
  "('r, 'd) get_request_ops \<Rightarrow> 'r \<Rightarrow> net_device list list \<Rightarrow> sk_buff \<Rightarrow> netlink_callback
     \<Rightarrow> int \<times> netlink_callback \<times> sk_buff" where
  "ethnl_get_dumpit ops req_info dev_index_head skb cb =
     (case dump_heads ops req_info (args2 cb) (args3 cb) 0 skb
             (drop (args2 cb) dev_index_head) of
        (r, h, idx, skb1) \<Rightarrow>
          ((case r of None \<Rightarrow> int (skb_len skb1) | Some ret \<Rightarrow> ret),
           \<lparr>args2 = h, args3 = idx\<rparr>, skb1))"

text \<open>
  What is left to visit from a cursor on, in iteration order; and the visit of a list
  of devices one after the other, each either encoded as one reply message or skipped
  (\<open>-EOPNOTSUPP\<close>) with the buffer as it was; \<open>None\<close> when a device fails otherwise.
\<close>

definition remaining :: "net_device list list \<Rightarrow> netlink_callback \<Rightarrow> net_device list" where
  "remaining dev_index_head cb =
     (if args2 cb < length dev_index_head
      then drop (args3 cb) (dev_index_head ! args2 cb)
           @ concat (drop (args2 cb + 1) dev_index_head)
      else [])"

fun visit_devs ::
  "('r, 'd) get_request_ops \<Rightarrow> 'r \<Rightarrow> sk_buff \<Rightarrow> net_device list \<Rightarrow> sk_buff option" where
  "visit_devs ops req_info skb [] = Some skb"
| "visit_devs ops req_info skb (dev # devs) =
     (case genlmsg_put skb (reply_cmd ops) of
        (ehdr, skb1) \<Rightarrow>
          (case ethnl_get_dump_one skb1 dev ops req_info of
             (ret, skb2) \<Rightarrow>
               if 0 \<le> ret then visit_devs ops req_info (genlmsg_end skb2 ehdr) devs
               else if ret = - EOPNOTSUPP then visit_devs ops req_info skb devs
               else None))"

text \<open>
  The contract of a handler's \<open>fill_reply\<close> towards the buffer: it writes by appending
  (possibly nothing), as the attribute writers do.
\<close>

definition appends_only :: "('r, 'd) get_request_ops \<Rightarrow> bool" where
  "appends_only ops =
     (\<forall>skb r d. \<exists>new. snd (fill_reply ops skb r d) = skb\<lparr>items := items skb @ new\<rparr>)"

text \<open>
  A dump session: the transport calls the dump step with a fresh buffer and the cursor
  the previous call left, as long as the step returns a positive length. The result is
  what each call returned and wrote, and the last cursor.
\<close>

fun dump_session ::
  "('r, 'd) get_request_ops \<Rightarrow> 'r \<Rightarrow> net_device list list \<Rightarrow> sk_buff list
     \<Rightarrow> netlink_callback \<Rightarrow> (int \<times> sk_buff) list \<times> netlink_callback" where
  "dump_session ops req_info dev_index_head [] cb = ([], cb)"
| "dump_session ops req_info dev_index_head (skb # skbs) cb =
     (case ethnl_get_dumpit ops req_info dev_index_head skb cb of
        (ret, cb1, skb1) \<Rightarrow>
          if 0 < ret then
            (case dump_session ops req_info dev_index_head skbs cb1 of
               (outs, cbf) \<Rightarrow> ((ret, skb1) # outs, cbf))
          else ([(ret, skb1)], cb1))"

text \<open>
  A small handler and registry to run the dump on: the handler does not support devices
  that are not present, and replies with one attribute.
\<close>

definition example_ops :: "(unit, unit) get_request_ops" where
  "example_ops = \<lparr>reply_cmd = 2, dev_attrtype = A_SETTINGS ETHTOOL_A_SETTINGS_DEV,
     prepare_data = (\<lambda>r dev. (if present dev then 0 else - EOPNOTSUPP, ())),
     fill_reply = (\<lambda>skb r d. nla_put_u8 skb (A_LINKSTATE ETHTOOL_A_LINKSTATE_LINK) 1)\<rparr>"

definition example_heads :: "net_device list list" where
  "example_heads =
     [[\<lparr>ifindex = 1, name = ''lo'', present = True, refcnt = 1\<rparr>], [],
      [\<lparr>ifindex = 2, name = ''eth0'', present = True, refcnt = 1\<rparr>,
       \<lparr>ifindex = 3, name = ''eth1'', present = False, refcnt = 1\<rparr>],
      [\<lparr>ifindex = 4, name = ''eth2'', present = True, refcnt = 1\<rparr>]]"

text \<open>
  The value \<open>ret\<close> that the body of the inner loop of \<open>ethnl_get_dumpit\<close> gets for a
  device, from the buffer the body starts with: what \<open>ethnl_get_dump_one\<close> returns
  after \<open>genlmsg_put\<close>.
\<close>

definition dump_one_ret ::
  "('r, 'd) get_request_ops \<Rightarrow> 'r \<Rightarrow> sk_buff \<Rightarrow> net_device \<Rightarrow> int" where
  "dump_one_ret ops req_info skb dev =
     fst (ethnl_get_dump_one (snd (genlmsg_put skb (reply_cmd ops))) dev ops req_info)"

text \<open>
  The example handler again, but failing with \<open>-ENODEV\<close> on the device of index 3.
\<close>

definition failing_ops :: "(unit, unit) get_request_ops" where
  "failing_ops = \<lparr>reply_cmd = 2, dev_attrtype = A_SETTINGS ETHTOOL_A_SETTINGS_DEV,
     prepare_data = (\<lambda>r dev. (if ifindex dev = 3 then - ENODEV else 0, ())),
     fill_reply = (\<lambda>skb r d. nla_put_u8 skb (A_LINKSTATE ETHTOOL_A_LINKSTATE_LINK) 1)\<rparr>"

section \<open>Request attributes and the update helpers\<close>

text \<open>
  The payload of a request attribute, and the attribute table \<open>tb\<close> of a nest, indexed
  by attribute type as the array is. A nested request attribute is given by what
  \<open>nla_parse_nested\<close> makes of it under the policy of its nest: the status and the
  table.

  An attribute that the policy validates as \<open>NLA_U32\<close> is its value. One that the
  policy validates as \<open>NLA_U8\<close> is \<open>NlaU8 v w\<close>: its byte \<open>v\<close>, and the value \<open>w\<close>
  that a read of four bytes at its payload yields, which is made of the byte and of the
  three bytes that follow it in the message, in the byte order of the host. The policy
  checks that the payload has one byte at least; the bytes after it are what the sender
  has put there.
\<close>

datatype nla_data = NlaU8 u8 u32 | NlaU32 u32

type_synonym 'a attr_tb = "'a \<Rightarrow> nla_data option"

type_synonym 'a nest = "int \<times> 'a attr_tb"

text \<open>
  \<open>nla_get_u32\<close> reads four bytes at the payload and \<open>nla_get_u8\<close> one. The handlers
  read a byte only of attributes validated as \<open>NLA_U8\<close>; on the others \<open>nla_get_u8\<close>
  is given the low byte.
\<close>

fun nla_get_u32 :: "nla_data \<Rightarrow> u32" where
  "nla_get_u32 (NlaU32 v) = v"
| "nla_get_u32 (NlaU8 v w) = w"

fun nla_get_u8 :: "nla_data \<Rightarrow> u8" where
  "nla_get_u8 (NlaU8 v w) = v"
| "nla_get_u8 (NlaU32 v) = ucast v"

text \<open>
  Modelled from the spec: \<open>ethnl_update_u32\<close>, \<open>ethnl_update_u8\<close> and
  \<open>ethnl_update_bool32\<close> (their header is not among the sources). An update helper
  compares the proposed value with the current one and reports whether it changed it;
  an absent attribute proposes nothing. The result is that report and the new value.
\<close>

definition ethnl_update_u32 :: "u32 \<Rightarrow> nla_data option \<Rightarrow> bool \<times> u32" where
  "ethnl_update_u32 dst attr =
     (case attr of
        None \<Rightarrow> (False, dst)
      | Some a \<Rightarrow> if dst = nla_get_u32 a then (False, dst) else (True, nla_get_u32 a))"

definition ethnl_update_u8 :: "u8 \<Rightarrow> nla_data option \<Rightarrow> bool \<times> u8" where
  "ethnl_update_u8 dst attr =
     (case attr of
        None \<Rightarrow> (False, dst)
      | Some a \<Rightarrow> if dst = nla_get_u8 a then (False, dst) else (True, nla_get_u8 a))"

definition ethnl_update_bool32 :: "u32 \<Rightarrow> nla_data option \<Rightarrow> bool \<times> u32" where
  "ethnl_update_bool32 dst attr =
     (case attr of
        None \<Rightarrow> (False, dst)
      | Some a \<Rightarrow>
          if (dst \<noteq> 0) = (nla_get_u8 a \<noteq> 0) then (False, dst)
          else (True, if nla_get_u8 a \<noteq> 0 then 1 else 0))"

text \<open>
  One line \<open>if (ethnl_update_u32(&data.f, tb[X])) mod = true;\<close> of an update function:
  \<open>get\<close> and \<open>upd\<close> are the record's selector and update of the field \<open>f\<close>.
\<close>

definition update_field ::
  "('v \<Rightarrow> nla_data option \<Rightarrow> bool \<times> 'v) \<Rightarrow> ('s \<Rightarrow> 'v) \<Rightarrow> (('v \<Rightarrow> 'v) \<Rightarrow> 's \<Rightarrow> 's)
     \<Rightarrow> nla_data option \<Rightarrow> bool \<times> 's \<Rightarrow> bool \<times> 's" where
  "update_field helper get upd attr md =
     (case md of (modified, data) \<Rightarrow>
        (case helper (get data) attr of
           (changed, v) \<Rightarrow> (if changed then True else modified, upd (\<lambda>_. v) data)))"

section \<open>Device parameters: the data (params.c)\<close>

record ethtool_coalesce =
  rx_coalesce_usecs :: u32
  rx_max_coalesced_frames :: u32
  rx_coalesce_usecs_irq :: u32
  rx_max_coalesced_frames_irq :: u32
  tx_coalesce_usecs :: u32
  tx_max_coalesced_frames :: u32
  tx_coalesce_usecs_irq :: u32
  tx_max_coalesced_frames_irq :: u32
  stats_block_coalesce_usecs :: u32
  use_adaptive_rx_coalesce :: u32
  use_adaptive_tx_coalesce :: u32
  pkt_rate_low :: u32
  rx_coalesce_usecs_low :: u32
  rx_max_coalesced_frames_low :: u32
  tx_coalesce_usecs_low :: u32
  tx_max_coalesced_frames_low :: u32
  pkt_rate_high :: u32
  rx_coalesce_usecs_high :: u32
  rx_max_coalesced_frames_high :: u32
  tx_coalesce_usecs_high :: u32
  tx_max_coalesced_frames_high :: u32
  rate_sample_interval :: u32

record ethtool_ringparam =
  rx_max_pending :: u32
  rx_mini_max_pending :: u32
  rx_jumbo_max_pending :: u32
  tx_max_pending :: u32
  rx_pending :: u32
  rx_mini_pending :: u32
  rx_jumbo_pending :: u32
  tx_pending :: u32

record ethtool_pauseparam =
  pause_autoneg :: u32
  rx_pause :: u32
  tx_pause :: u32

record ethtool_channels =
  max_rx :: u32
  max_tx :: u32
  max_other :: u32
  max_combined :: u32
  rx_count :: u32
  tx_count :: u32
  other_count :: u32
  combined_count :: u32

text \<open>
  The operations of a device (\<open>dev->ethtool_ops\<close>) that the parameters handler calls,
  over the state \<open>'st\<close> of the driver; \<open>None\<close> is a null function pointer. The get
  operations fill the structure they are given, the set operations return their status
  and the driver's new state. \<open>ethtool_set_channels\<close> is \<open>__ethtool_set_channels\<close>,
  which takes the old and the new channel counts.
\<close>

record 'st ethtool_ops =
  get_coalesce :: "('st \<Rightarrow> int \<times> ethtool_coalesce) option"
  set_coalesce :: "('st \<Rightarrow> ethtool_coalesce \<Rightarrow> int \<times> 'st) option"
  get_ringparam :: "('st \<Rightarrow> ethtool_ringparam) option"
  set_ringparam :: "('st \<Rightarrow> ethtool_ringparam \<Rightarrow> int \<times> 'st) option"
  get_pauseparam :: "('st \<Rightarrow> ethtool_pauseparam) option"
  set_pauseparam :: "('st \<Rightarrow> ethtool_pauseparam \<Rightarrow> int \<times> 'st) option"
  get_channels :: "('st \<Rightarrow> ethtool_channels) option"
  set_channels :: "('st \<Rightarrow> ethtool_channels \<Rightarrow> int \<times> 'st) option"
  ethtool_set_channels :: "'st \<Rightarrow> ethtool_channels \<Rightarrow> ethtool_channels \<Rightarrow> int \<times> 'st"

text \<open>
  Modelled from the spec: the info mask bits of the two commands (the protocol header
  that defines them is not among the sources): one bit per category, in the order the
  handlers treat them, and \<open>_ALL\<close> their union.
\<close>

definition ETHTOOL_IM_SETTINGS_LINKINFO :: u32 where "ETHTOOL_IM_SETTINGS_LINKINFO = 1"

definition ETHTOOL_IM_SETTINGS_LINKMODES :: u32 where "ETHTOOL_IM_SETTINGS_LINKMODES = 2"

definition ETHTOOL_IM_SETTINGS_LINKSTATE :: u32 where "ETHTOOL_IM_SETTINGS_LINKSTATE = 4"

definition ETHTOOL_IM_SETTINGS_WOL :: u32 where "ETHTOOL_IM_SETTINGS_WOL = 8"

definition ETHTOOL_IM_SETTINGS_ALL :: u32 where "ETHTOOL_IM_SETTINGS_ALL = 15"

definition ETHTOOL_IM_PARAMS_COALESCE :: u32 where "ETHTOOL_IM_PARAMS_COALESCE = 1"

definition ETHTOOL_IM_PARAMS_RING :: u32 where "ETHTOOL_IM_PARAMS_RING = 2"

definition ETHTOOL_IM_PARAMS_PAUSE :: u32 where "ETHTOOL_IM_PARAMS_PAUSE = 4"

definition ETHTOOL_IM_PARAMS_CHANNELS :: u32 where "ETHTOOL_IM_PARAMS_CHANNELS = 8"

definition ETHTOOL_IM_PARAMS_ALL :: u32 where "ETHTOOL_IM_PARAMS_ALL = 15"

section \<open>Device parameters: SET_PARAMS (params.c)\<close>

text \<open>
  \<open>tb[X]\<close> as the pointer an error message is attached to: the attribute if the
  request has it, otherwise \<open>NULL\<close>.
\<close>

definition attr_ptr :: "'a attr_tb \<Rightarrow> 'a \<Rightarrow> 'a option" where
  "attr_ptr tb a = (case tb a of None \<Rightarrow> None | Some v \<Rightarrow> Some a)"

definition update_coalesce ::
  "'st ethtool_ops \<Rightarrow> 'st \<Rightarrow> coalesce_attr nest option \<Rightarrow> int \<times> 'st" where
  "update_coalesce ops st nest =
     (case nest of
        None \<Rightarrow> (0, st)
      | Some (pret, tb) \<Rightarrow>
          (case (get_coalesce ops, set_coalesce ops) of
             (Some getp, Some setp) \<Rightarrow>
               (case getp st of
                  (ret, data0) \<Rightarrow>
                    if ret < 0 then (ret, st)
                    else if pret < 0 then (pret, st)
                    else
                      (case foldl (\<lambda>md f. f md) (False, data0)
                         [update_field ethnl_update_u32 rx_coalesce_usecs
                            rx_coalesce_usecs_update (tb ETHTOOL_A_COALESCE_RX_USECS),
                          update_field ethnl_update_u32 rx_max_coalesced_frames
                            rx_max_coalesced_frames_update (tb ETHTOOL_A_COALESCE_RX_MAXFRM),
                          update_field ethnl_update_u32 rx_coalesce_usecs_irq
                            rx_coalesce_usecs_irq_update (tb ETHTOOL_A_COALESCE_RX_USECS_IRQ),
                          update_field ethnl_update_u32 rx_max_coalesced_frames_irq
                            rx_max_coalesced_frames_irq_update
                            (tb ETHTOOL_A_COALESCE_RX_MAXFRM_IRQ),
                          update_field ethnl_update_u32 rx_coalesce_usecs_low
                            rx_coalesce_usecs_low_update (tb ETHTOOL_A_COALESCE_RX_USECS_LOW),
                          update_field ethnl_update_u32 rx_max_coalesced_frames_low
                            rx_max_coalesced_frames_low_update
                            (tb ETHTOOL_A_COALESCE_RX_MAXFRM_LOW),
                          update_field ethnl_update_u32 rx_coalesce_usecs_high
                            rx_coalesce_usecs_high_update (tb ETHTOOL_A_COALESCE_RX_USECS_HIGH),
                          update_field ethnl_update_u32 rx_max_coalesced_frames_high
                            rx_max_coalesced_frames_high_update
                            (tb ETHTOOL_A_COALESCE_RX_MAXFRM_HIGH),
                          update_field ethnl_update_u32 tx_coalesce_usecs
                            tx_coalesce_usecs_update (tb ETHTOOL_A_COALESCE_TX_USECS),
                          update_field ethnl_update_u32 tx_max_coalesced_frames
                            tx_max_coalesced_frames_update (tb ETHTOOL_A_COALESCE_TX_MAXFRM),
                          update_field ethnl_update_u32 tx_coalesce_usecs_irq
                            tx_coalesce_usecs_irq_update (tb ETHTOOL_A_COALESCE_TX_USECS_IRQ),
                          update_field ethnl_update_u32 tx_max_coalesced_frames_irq
                            tx_max_coalesced_frames_irq_update
                            (tb ETHTOOL_A_COALESCE_TX_MAXFRM_IRQ),
                          update_field ethnl_update_u32 tx_coalesce_usecs_low
                            tx_coalesce_usecs_low_update (tb ETHTOOL_A_COALESCE_TX_USECS_LOW),
                          update_field ethnl_update_u32 tx_max_coalesced_frames_low
                            tx_max_coalesced_frames_low_update
                            (tb ETHTOOL_A_COALESCE_TX_MAXFRM_LOW),
                          update_field ethnl_update_u32 tx_coalesce_usecs_high
                            tx_coalesce_usecs_high_update (tb ETHTOOL_A_COALESCE_TX_USECS_HIGH),
                          update_field ethnl_update_u32 tx_max_coalesced_frames_high
                            tx_max_coalesced_frames_high_update
                            (tb ETHTOOL_A_COALESCE_TX_MAXFRM_HIGH),
                          update_field ethnl_update_u32 pkt_rate_low
                            pkt_rate_low_update (tb ETHTOOL_A_COALESCE_PKT_RATE_LOW),
                          update_field ethnl_update_u32 pkt_rate_high
                            pkt_rate_high_update (tb ETHTOOL_A_COALESCE_PKT_RATE_HIGH),
                          update_field ethnl_update_bool32 use_adaptive_rx_coalesce
                            use_adaptive_rx_coalesce_update
                            (tb ETHTOOL_A_COALESCE_RX_USE_ADAPTIVE),
                          update_field ethnl_update_bool32 use_adaptive_tx_coalesce
                            use_adaptive_tx_coalesce_update
                            (tb ETHTOOL_A_COALESCE_TX_USE_ADAPTIVE),
                          update_field ethnl_update_u32 rate_sample_interval
                            rate_sample_interval_update
                            (tb ETHTOOL_A_COALESCE_RATE_SAMPLE_INTERVAL),
                          update_field ethnl_update_u32 stats_block_coalesce_usecs
                            stats_block_coalesce_usecs_update
                            (tb ETHTOOL_A_COALESCE_STATS_BLOCK_USECS)] of
                         (modified, data) \<Rightarrow>
                           if \<not> modified then (0, st)
                           else
                             (case setp st data of
                                (ret1, st1) \<Rightarrow> (if ret1 < 0 then ret1 else 1, st1))))
           | _ \<Rightarrow> (- EOPNOTSUPP, st)))"

text \<open>
  \<open>update_ring\<close> returns its status, the attribute its error message points at (if it
  left one), and the driver's state.
\<close>

definition update_ring ::
  "'st ethtool_ops \<Rightarrow> 'st \<Rightarrow> ring_attr nest option \<Rightarrow> int \<times> ring_attr option \<times> 'st" where
  "update_ring ops st nest =
     (case nest of
        None \<Rightarrow> (0, None, st)
      | Some (pret, tb) \<Rightarrow>
          (case (get_ringparam ops, set_ringparam ops) of
             (Some getp, Some setp) \<Rightarrow>
               if pret < 0 then (pret, None, st)
               else
                 (case foldl (\<lambda>md f. f md) (False, getp st)
                    [update_field ethnl_update_u32 rx_pending rx_pending_update
                       (tb ETHTOOL_A_RING_RX_PENDING),
                     update_field ethnl_update_u32 rx_mini_pending rx_mini_pending_update
                       (tb ETHTOOL_A_RING_RX_MINI_PENDING),
                     update_field ethnl_update_u32 rx_jumbo_pending rx_jumbo_pending_update
                       (tb ETHTOOL_A_RING_RX_JUMBO_PENDING),
                     update_field ethnl_update_u32 tx_pending tx_pending_update
                       (tb ETHTOOL_A_RING_TX_PENDING)] of
                    (modified, data) \<Rightarrow>
                      if \<not> modified then (0, None, st)
                      else
                        (let err_attr =
                           (if rx_max_pending data < rx_pending data
                            then attr_ptr tb ETHTOOL_A_RING_RX_PENDING
                            else if rx_mini_max_pending data < rx_mini_pending data
                            then attr_ptr tb ETHTOOL_A_RING_RX_MINI_PENDING
                            else if rx_jumbo_max_pending data < rx_jumbo_pending data
                            then attr_ptr tb ETHTOOL_A_RING_RX_JUMBO_PENDING
                            else if tx_max_pending data < tx_pending data
                            then attr_ptr tb ETHTOOL_A_RING_TX_PENDING
                            else None)
                         in if err_attr \<noteq> None then (- EINVAL, err_attr, st)
                            else
                              (case setp st data of
                                 (ret1, st1) \<Rightarrow> (if ret1 < 0 then ret1 else 1, None, st1))))
           | _ \<Rightarrow> (- EOPNOTSUPP, None, st)))"

definition update_pause ::
  "'st ethtool_ops \<Rightarrow> 'st \<Rightarrow> pause_attr nest option \<Rightarrow> int \<times> 'st" where
  "update_pause ops st nest =
     (case nest of
        None \<Rightarrow> (0, st)
      | Some (pret, tb) \<Rightarrow>
          (case (get_pauseparam ops, set_pauseparam ops) of
             (Some getp, Some setp) \<Rightarrow>
               if pret < 0 then (pret, st)
               else
                 (case foldl (\<lambda>md f. f md) (False, getp st)
                    [update_field ethnl_update_u32 pause_autoneg pause_autoneg_update
                       (tb ETHTOOL_A_PAUSE_AUTONEG),
                     update_field ethnl_update_u32 rx_pause rx_pause_update
                       (tb ETHTOOL_A_PAUSE_RX),
                     update_field ethnl_update_u32 tx_pause tx_pause_update
                       (tb ETHTOOL_A_PAUSE_TX)] of
                    (modified, data) \<Rightarrow>
                      if \<not> modified then (0, st)
                      else
                        (case setp st data of
                           (ret1, st1) \<Rightarrow> (if ret1 < 0 then ret1 else 1, st1)))
           | _ \<Rightarrow> (- EOPNOTSUPP, st)))"

definition update_channels ::
  "'st ethtool_ops \<Rightarrow> 'st \<Rightarrow> channels_attr nest option
     \<Rightarrow> int \<times> channels_attr option \<times> 'st" where
  "update_channels ops st nest =
     (case nest of
        None \<Rightarrow> (0, None, st)
      | Some (pret, tb) \<Rightarrow>
          (case (get_channels ops, set_channels ops) of
             (Some getp, Some setp) \<Rightarrow>
               (let old = getp st in
                if pret < 0 then (pret, None, st)
                else
                  (case foldl (\<lambda>md f. f md) (False, old)
                     [update_field ethnl_update_u32 rx_count rx_count_update
                        (tb ETHTOOL_A_CHANNELS_RX_COUNT),
                      update_field ethnl_update_u32 tx_count tx_count_update
                        (tb ETHTOOL_A_CHANNELS_TX_COUNT),
                      update_field ethnl_update_u32 other_count other_count_update
                        (tb ETHTOOL_A_CHANNELS_OTHER_COUNT),
                      update_field ethnl_update_u32 combined_count combined_count_update
                        (tb ETHTOOL_A_CHANNELS_COMBINED_COUNT)] of
                     (modified, new) \<Rightarrow>
                       if \<not> modified then (0, None, st)
                       else
                         (let err_attr =
                            (if max_rx new < rx_count new
                             then attr_ptr tb ETHTOOL_A_CHANNELS_RX_COUNT
                             else if max_tx new < tx_count new
                             then attr_ptr tb ETHTOOL_A_CHANNELS_TX_COUNT
                             else if max_other new < other_count new
                             then attr_ptr tb ETHTOOL_A_CHANNELS_OTHER_COUNT
                             else if max_combined new < combined_count new
                             then attr_ptr tb ETHTOOL_A_CHANNELS_COMBINED_COUNT
                             else None)
                          in if err_attr \<noteq> None then (- EINVAL, err_attr, st)
                             else
                               (case ethtool_set_channels ops st old new of
                                  (ret1, st1) \<Rightarrow>
                                    (if ret1 < 0 then ret1 else 1, None, st1)))))
           | _ \<Rightarrow> (- EOPNOTSUPP, None, st)))"

text \<open>
  The attribute table of a SET_PARAMS request, as \<open>nlmsg_parse\<close> fills it under
  \<open>set_params_policy\<close>; the request is that table with the parser's status.
\<close>

record set_params_tb =
  tb_PARAMS_DEV :: "(int \<times> dev_tb) option"
  tb_PARAMS_COALESCE :: "coalesce_attr nest option"
  tb_PARAMS_RING :: "ring_attr nest option"
  tb_PARAMS_PAUSE :: "pause_attr nest option"
  tb_PARAMS_CHANNELS :: "channels_attr nest option"

text \<open>
  \<open>ethnl_set_params\<close>, for the device the request resolves to: \<open>ops\<close> are its
  operations, \<open>st\<close> the state of its driver, \<open>before_ops\<close> what \<open>ethnl_before_ops\<close>
  returns on it. The result is the status, the driver's state, the categories notified
  through \<open>ethtool_notify\<close> (if any), and the registry.
\<close>

definition ethnl_set_params ::
  "'st ethtool_ops \<Rightarrow> ('st \<Rightarrow> int) \<Rightarrow> net \<Rightarrow> 'st \<Rightarrow> int \<times> set_params_tb
     \<Rightarrow> int \<times> 'st \<times> u32 option \<times> net" where
  "ethnl_set_params ops before_ops nt st msg =
     (case msg of
        (pret, tb) \<Rightarrow>
          if pret < 0 then (pret, st, None, nt)
          else
            (case ethnl_dev_get (\<lambda>n. n) nt (tb_PARAMS_DEV tb) of
               (Inl (err, msg), nt1) \<Rightarrow> (err, st, None, nt1)
             | (Inr dev, nt1) \<Rightarrow>
                 if before_ops st < 0 then (before_ops st, st, None, dev_put nt1 dev)
                 else
                   (case
                      (case update_coalesce ops st (tb_PARAMS_COALESCE tb) of
                         (ret1, st1) \<Rightarrow>
                           if ret1 < 0 then (ret1, 0, st1)
                           else
                             (let m1 = (if ret1 \<noteq> 0 then ETHTOOL_IM_PARAMS_COALESCE else 0)
                              in case update_ring ops st1 (tb_PARAMS_RING tb) of
                                (ret2, e2, st2) \<Rightarrow>
                                  if ret2 < 0 then (ret2, m1, st2)
                                  else
                                    (let m2 = (if ret2 \<noteq> 0 then m1 OR ETHTOOL_IM_PARAMS_RING
                                               else m1)
                                     in case update_pause ops st2 (tb_PARAMS_PAUSE tb) of
                                       (ret3, st3) \<Rightarrow>
                                         if ret3 < 0 then (ret3, m2, st3)
                                         else
                                           (let m3 = (if ret3 \<noteq> 0
                                                      then m2 OR ETHTOOL_IM_PARAMS_PAUSE
                                                      else m2)
                                            in case update_channels ops st3
                                                      (tb_PARAMS_CHANNELS tb) of
                                              (ret4, e4, st4) \<Rightarrow>
                                                if ret4 < 0 then (ret4, m3, st4)
                                                else
                                                  (0,
                                                   if ret4 \<noteq> 0
                                                   then m3 OR ETHTOOL_IM_PARAMS_CHANNELS
                                                   else m3,
                                                   st4))))) of
                      (ret, req_mask, st5) \<Rightarrow>
                        (ret, st5, if req_mask \<noteq> 0 then Some req_mask else None,
                         dev_put nt1 dev))))"

text \<open>
  The mask \<open>req_mask\<close> that \<open>ethnl_set_params\<close> has built when the updates of
  coalescing, ring sizes and pause have returned \<open>ret1\<close>, \<open>ret2\<close> and \<open>ret3\<close>
  (0 for an update not made yet), and what \<open>if (req_mask) ethtool_notify(...)\<close>
  sends for a mask.
\<close>

definition changed_mask :: "int \<Rightarrow> int \<Rightarrow> int \<Rightarrow> u32" where
  "changed_mask ret1 ret2 ret3 =
     ((if ret1 \<noteq> 0 then ETHTOOL_IM_PARAMS_COALESCE else 0)
      OR (if ret2 \<noteq> 0 then ETHTOOL_IM_PARAMS_RING else 0))
     OR (if ret3 \<noteq> 0 then ETHTOOL_IM_PARAMS_PAUSE else 0)"

definition notification :: "u32 \<Rightarrow> u32 option" where
  "notification req_mask = (if req_mask \<noteq> 0 then Some req_mask else None)"

text \<open>
  The bound of each settable ring size, whether the request proposes a value above it,
  and the order in which the fields are checked.
\<close>

fun ring_maximum :: "ethtool_ringparam \<Rightarrow> ring_attr \<Rightarrow> u32" where
  "ring_maximum d ETHTOOL_A_RING_RX_PENDING = rx_max_pending d"
| "ring_maximum d ETHTOOL_A_RING_RX_MINI_PENDING = rx_mini_max_pending d"
| "ring_maximum d ETHTOOL_A_RING_RX_JUMBO_PENDING = rx_jumbo_max_pending d"
| "ring_maximum d ETHTOOL_A_RING_TX_PENDING = tx_max_pending d"
| "ring_maximum d _ = 0"

definition proposed_above_maximum ::
  "ethtool_ringparam \<Rightarrow> ring_attr attr_tb \<Rightarrow> ring_attr \<Rightarrow> bool" where
  "proposed_above_maximum d tb a =
     (case tb a of None \<Rightarrow> False | Some v \<Rightarrow> ring_maximum d a < nla_get_u32 v)"

definition ring_check_order :: "ring_attr list" where
  "ring_check_order =
     [ETHTOOL_A_RING_RX_PENDING, ETHTOOL_A_RING_RX_MINI_PENDING,
      ETHTOOL_A_RING_RX_JUMBO_PENDING, ETHTOOL_A_RING_TX_PENDING]"

definition within_maximums :: "ethtool_ringparam \<Rightarrow> bool" where
  "within_maximums d \<longleftrightarrow>
     rx_pending d \<le> rx_max_pending d \<and> rx_mini_pending d \<le> rx_mini_max_pending d \<and>
     rx_jumbo_pending d \<le> rx_jumbo_max_pending d \<and> tx_pending d \<le> tx_max_pending d"

text \<open>A driver whose whole state is its ring parameters, and that accepts any.\<close>

definition ring_driver :: "ethtool_ringparam ethtool_ops" where
  "ring_driver =
     \<lparr>get_coalesce = None, set_coalesce = None,
      get_ringparam = Some (\<lambda>st. st), set_ringparam = Some (\<lambda>st d. (0, d)),
      get_pauseparam = None, set_pauseparam = None,
      get_channels = None, set_channels = None,
      ethtool_set_channels = (\<lambda>st old new. (- EOPNOTSUPP, st))\<rparr>"

definition example_ring :: ethtool_ringparam where
  "example_ring =
     \<lparr>rx_max_pending = 50, rx_mini_max_pending = 0, rx_jumbo_max_pending = 0,
      tx_max_pending = 80, rx_pending = 40, rx_mini_pending = 0, rx_jumbo_pending = 0,
      tx_pending = 40\<rparr>"

definition zero_coalesce :: ethtool_coalesce where
  "zero_coalesce =
     \<lparr>rx_coalesce_usecs = 0, rx_max_coalesced_frames = 0, rx_coalesce_usecs_irq = 0,
      rx_max_coalesced_frames_irq = 0, tx_coalesce_usecs = 0, tx_max_coalesced_frames = 0,
      tx_coalesce_usecs_irq = 0, tx_max_coalesced_frames_irq = 0,
      stats_block_coalesce_usecs = 0, use_adaptive_rx_coalesce = 0,
      use_adaptive_tx_coalesce = 0, pkt_rate_low = 0, rx_coalesce_usecs_low = 0,
      rx_max_coalesced_frames_low = 0, tx_coalesce_usecs_low = 0,
      tx_max_coalesced_frames_low = 0, pkt_rate_high = 0, rx_coalesce_usecs_high = 0,
      rx_max_coalesced_frames_high = 0, tx_coalesce_usecs_high = 0,
      tx_max_coalesced_frames_high = 0, rate_sample_interval = 0\<rparr>"

text \<open>
  A driver whose whole state is its coalescing parameters, which accepts any, and that
  has no other operation.
\<close>

definition coalesce_driver :: "ethtool_coalesce ethtool_ops" where
  "coalesce_driver =
     \<lparr>get_coalesce = Some (\<lambda>st. (0, st)), set_coalesce = Some (\<lambda>st d. (0, d)),
      get_ringparam = None, set_ringparam = None,
      get_pauseparam = None, set_pauseparam = None,
      get_channels = None, set_channels = None,
      ethtool_set_channels = (\<lambda>st old new. (- EOPNOTSUPP, st))\<rparr>"

definition example_set_params :: set_params_tb where
  "example_set_params =
     (\<lparr>tb_PARAMS_DEV = Some (0, \<lparr>tb_DEV_INDEX = None, tb_DEV_NAME = Some ''eth0''\<rparr>),
          tb_PARAMS_COALESCE =
            Some (0, (\<lambda>a. None)(ETHTOOL_A_COALESCE_RX_USECS := Some (NlaU32 5))),
          tb_PARAMS_RING =
            Some (0, (\<lambda>a. None)(ETHTOOL_A_RING_RX_PENDING := Some (NlaU32 8))),
          tb_PARAMS_PAUSE = None, tb_PARAMS_CHANNELS = None\<rparr>)"

definition example_net :: net where
  "example_net = [\<lparr>ifindex = 2, name = ''eth0'', present = True, refcnt = 1\<rparr>]"

section \<open>Link settings: the data (settings.c)\<close>

definition SPEED_UNKNOWN :: int where "SPEED_UNKNOWN = - 1"

definition DUPLEX_HALF :: u8 where "DUPLEX_HALF = 0"

definition DUPLEX_FULL :: u8 where "DUPLEX_FULL = 1"

definition DUPLEX_UNKNOWN :: u8 where "DUPLEX_UNKNOWN = 255"

definition SOPASS_MAX :: nat where "SOPASS_MAX = 6"

text \<open>
  \<open>struct link_mode_info\<close> and the table \<open>link_mode_params\<close>, indexed by link mode
  bit. The entries are in the order of the initialiser, which is the order of the link
  mode bits; the number of link mode bits, \<open>__ETHTOOL_LINK_MODE_MASK_NBITS\<close>, is the
  length of the table.
\<close>

record link_mode_info =
  info_speed :: int
  info_duplex :: u8

definition LINK_MODE_PARAMS :: "int \<Rightarrow> u8 \<Rightarrow> link_mode_info" where
  "LINK_MODE_PARAMS s d = \<lparr>info_speed = s, info_duplex = d\<rparr>"

definition SPECIAL_MODE_PARAMS :: link_mode_info where
  "SPECIAL_MODE_PARAMS = \<lparr>info_speed = SPEED_UNKNOWN, info_duplex = DUPLEX_UNKNOWN\<rparr>"

definition link_mode_params :: "link_mode_info list" where
  "link_mode_params =
     [LINK_MODE_PARAMS 10 DUPLEX_HALF,
      LINK_MODE_PARAMS 10 DUPLEX_FULL,
      LINK_MODE_PARAMS 100 DUPLEX_HALF,
      LINK_MODE_PARAMS 100 DUPLEX_FULL,
      LINK_MODE_PARAMS 1000 DUPLEX_HALF,
      LINK_MODE_PARAMS 1000 DUPLEX_FULL,
      SPECIAL_MODE_PARAMS,
      SPECIAL_MODE_PARAMS,
      SPECIAL_MODE_PARAMS,
      SPECIAL_MODE_PARAMS,
      SPECIAL_MODE_PARAMS,
      SPECIAL_MODE_PARAMS,
      LINK_MODE_PARAMS 10000 DUPLEX_FULL,
      SPECIAL_MODE_PARAMS,
      SPECIAL_MODE_PARAMS,
      LINK_MODE_PARAMS 2500 DUPLEX_FULL,
      SPECIAL_MODE_PARAMS,
      LINK_MODE_PARAMS 1000 DUPLEX_FULL,
      LINK_MODE_PARAMS 10000 DUPLEX_FULL,
      LINK_MODE_PARAMS 10000 DUPLEX_FULL,
      LINK_MODE_PARAMS 10000 DUPLEX_FULL,
      LINK_MODE_PARAMS 20000 DUPLEX_FULL,
      LINK_MODE_PARAMS 20000 DUPLEX_FULL,
      LINK_MODE_PARAMS 40000 DUPLEX_FULL,
      LINK_MODE_PARAMS 40000 DUPLEX_FULL,
      LINK_MODE_PARAMS 40000 DUPLEX_FULL,
      LINK_MODE_PARAMS 40000 DUPLEX_FULL,
      LINK_MODE_PARAMS 56000 DUPLEX_FULL,
      LINK_MODE_PARAMS 56000 DUPLEX_FULL,
      LINK_MODE_PARAMS 56000 DUPLEX_FULL,
      LINK_MODE_PARAMS 56000 DUPLEX_FULL,
      LINK_MODE_PARAMS 25000 DUPLEX_FULL,
      LINK_MODE_PARAMS 25000 DUPLEX_FULL,
      LINK_MODE_PARAMS 25000 DUPLEX_FULL,
      LINK_MODE_PARAMS 50000 DUPLEX_FULL,
      LINK_MODE_PARAMS 50000 DUPLEX_FULL,
      LINK_MODE_PARAMS 100000 DUPLEX_FULL,
      LINK_MODE_PARAMS 100000 DUPLEX_FULL,
      LINK_MODE_PARAMS 100000 DUPLEX_FULL,
      LINK_MODE_PARAMS 100000 DUPLEX_FULL,
      LINK_MODE_PARAMS 50000 DUPLEX_FULL,
      LINK_MODE_PARAMS 1000 DUPLEX_FULL,
      LINK_MODE_PARAMS 10000 DUPLEX_FULL,
      LINK_MODE_PARAMS 10000 DUPLEX_FULL,
      LINK_MODE_PARAMS 10000 DUPLEX_FULL,
      LINK_MODE_PARAMS 10000 DUPLEX_FULL,
      LINK_MODE_PARAMS 10000 DUPLEX_FULL,
      LINK_MODE_PARAMS 2500 DUPLEX_FULL,
      LINK_MODE_PARAMS 5000 DUPLEX_FULL,
      SPECIAL_MODE_PARAMS,
      SPECIAL_MODE_PARAMS,
      SPECIAL_MODE_PARAMS,
      LINK_MODE_PARAMS 50000 DUPLEX_FULL,
      LINK_MODE_PARAMS 50000 DUPLEX_FULL,
      LINK_MODE_PARAMS 50000 DUPLEX_FULL,
      LINK_MODE_PARAMS 50000 DUPLEX_FULL,
      LINK_MODE_PARAMS 50000 DUPLEX_FULL,
      LINK_MODE_PARAMS 100000 DUPLEX_FULL,
      LINK_MODE_PARAMS 100000 DUPLEX_FULL,
      LINK_MODE_PARAMS 100000 DUPLEX_FULL,
      LINK_MODE_PARAMS 100000 DUPLEX_FULL,
      LINK_MODE_PARAMS 100000 DUPLEX_FULL,
      LINK_MODE_PARAMS 200000 DUPLEX_FULL,
      LINK_MODE_PARAMS 200000 DUPLEX_FULL,
      LINK_MODE_PARAMS 200000 DUPLEX_FULL,
      LINK_MODE_PARAMS 200000 DUPLEX_FULL,
      LINK_MODE_PARAMS 200000 DUPLEX_FULL]"

definition ETHTOOL_LINK_MODE_MASK_NBITS :: nat where
  "ETHTOOL_LINK_MODE_MASK_NBITS = length link_mode_params"

text \<open>A link mode bitmap: one bit per link mode.\<close>

type_synonym link_mode_mask = "67 word"

record ethtool_link_settings =
  speed :: u32
  duplex :: u8
  port :: u8
  phy_address :: u8
  autoneg :: u8
  mdio_support :: u8
  eth_tp_mdix :: u8
  eth_tp_mdix_ctrl :: u8
  transceiver :: u8

record ethtool_link_ksettings =
  base :: ethtool_link_settings
  link_modes_supported :: link_mode_mask
  link_modes_advertising :: link_mode_mask
  link_modes_lp_advertising :: link_mode_mask

record ethtool_wolinfo =
  supported :: u32
  wolopts :: u32
  sopass :: "u8 list"

section \<open>Link settings: SET of the link modes (settings.c)\<close>

text \<open>
  The loop of \<open>auto_link_modes\<close> over the link mode bits, and the function: it returns
  whether the advertised modes changed, and the settings.
\<close>

definition auto_link_modes_bit ::
  "ethtool_link_ksettings \<Rightarrow> bool \<Rightarrow> bool \<Rightarrow> link_mode_mask \<Rightarrow> nat \<Rightarrow> link_mode_mask" where
  "auto_link_modes_bit ksettings req_speed req_duplex advertising i =
     (let info = link_mode_params ! i in
      if info_speed info = SPEED_UNKNOWN then advertising
      else if bit (link_modes_supported ksettings) i
            \<and> (\<not> req_speed \<or> word_of_int (info_speed info) = speed (base ksettings))
            \<and> (\<not> req_duplex \<or> info_duplex info = duplex (base ksettings))
      then set_bit i advertising
      else unset_bit i advertising)"

definition auto_link_modes ::
  "ethtool_link_ksettings \<Rightarrow> bool \<Rightarrow> bool \<Rightarrow> bool \<times> ethtool_link_ksettings" where
  "auto_link_modes ksettings req_speed req_duplex =
     (let old_adv = link_modes_advertising ksettings;
          advertising = foldl (auto_link_modes_bit ksettings req_speed req_duplex) old_adv
                          [0..<ETHTOOL_LINK_MODE_MASK_NBITS]
      in (old_adv \<noteq> advertising, ksettings\<lparr>link_modes_advertising := advertising\<rparr>))"

text \<open>
  The attribute table of a link modes nest. The bitset attribute
  \<open>ETHTOOL_A_LINKMODES_OURS\<close> is given by what \<open>ethnl_update_bitset\<close> makes of it on a
  bitmap: whether it changed it, its status, and the new bitmap.

  Modelled from the spec: \<open>ethnl_update_bitset\<close> on an absent attribute (the bitset
  code is not among the sources) proposes nothing: no change, status 0.
\<close>

record linkmodes_tb =
  tb_LINKMODES_AUTONEG :: "nla_data option"
  tb_LINKMODES_OURS :: "(link_mode_mask \<Rightarrow> bool \<times> int \<times> link_mode_mask) option"
  tb_LINKMODES_SPEED :: "nla_data option"
  tb_LINKMODES_DUPLEX :: "nla_data option"

definition ethnl_update_bitset ::
  "link_mode_mask \<Rightarrow> (link_mode_mask \<Rightarrow> bool \<times> int \<times> link_mode_mask) option
     \<Rightarrow> bool \<times> int \<times> link_mode_mask" where
  "ethnl_update_bitset bitmap attr =
     (case attr of None \<Rightarrow> (False, 0, bitmap) | Some upd \<Rightarrow> upd bitmap)"

definition update_link_modes ::
  "(int \<times> linkmodes_tb) option \<Rightarrow> ethtool_link_ksettings
     \<Rightarrow> int \<times> ethtool_link_ksettings" where
  "update_link_modes nest ksettings =
     (case nest of
        None \<Rightarrow> (0, ksettings)
      | Some (pret, tb) \<Rightarrow>
          if pret < 0 then (pret, ksettings)
          else
            (let req_speed = (tb_LINKMODES_SPEED tb \<noteq> None);
                 req_duplex = (tb_LINKMODES_DUPLEX tb \<noteq> None);
                 (m1, an) = ethnl_update_u8 (autoneg (base ksettings))
                              (tb_LINKMODES_AUTONEG tb);
                 ks1 = ksettings\<lparr>base := (base ksettings)\<lparr>autoneg := an\<rparr>\<rparr>;
                 (m2, ret, adv) = ethnl_update_bitset (link_modes_advertising ks1)
                                    (tb_LINKMODES_OURS tb);
                 ks2 = ks1\<lparr>link_modes_advertising := adv\<rparr>
             in if ret < 0 then (ret, ks2)
                else
                  (let (m3, sp) = ethnl_update_u32 (speed (base ks2)) (tb_LINKMODES_SPEED tb);
                       ks3 = ks2\<lparr>base := (base ks2)\<lparr>speed := sp\<rparr>\<rparr>;
                       (m4, du) = ethnl_update_u8 (duplex (base ks3))
                                    (tb_LINKMODES_DUPLEX tb);
                       ks4 = ks3\<lparr>base := (base ks3)\<lparr>duplex := du\<rparr>\<rparr>;
                       modified = (m1 \<or> m2 \<or> m3 \<or> m4)
                   in if tb_LINKMODES_OURS tb = None \<and> autoneg (base ks4) \<noteq> 0
                         \<and> (req_speed \<or> req_duplex)
                      then (case auto_link_modes ks4 req_speed req_duplex of
                              (m5, ks5) \<Rightarrow> (if modified \<or> m5 then 1 else 0, ks5))
                      else (if modified then 1 else 0, ks4))))"

definition example_ksettings :: ethtool_link_ksettings where
  "example_ksettings =
     \<lparr>base = \<lparr>speed = 100, duplex = 1, port = 0, phy_address = 0, autoneg = 1,
              mdio_support = 0, eth_tp_mdix = 0, eth_tp_mdix_ctrl = 0, transceiver = 0\<rparr>,
      link_modes_supported = 104, link_modes_advertising = 72,
      link_modes_lp_advertising = 0\<rparr>"

section \<open>GET requests: the request data and its parsing (settings.c, params.c)\<close>

text \<open>
  \<open>struct common_req_info\<close>: the device the request resolved to (a pointer into the
  registry, or \<open>NULL\<close>), the requested info mask and the compact flag.
  \<open>ethnl_alloc_get_data\<close> zeroes it. The settings handler adds \<open>privileged\<close>.
\<close>

record common_req_info =
  req_dev :: "nat option"
  req_mask :: u32
  req_compact :: bool

record settings_req = common_req_info +
  privileged :: bool

definition ethnl_alloc_get_data :: common_req_info where
  "ethnl_alloc_get_data = \<lparr>req_dev = None, req_mask = 0, req_compact = False\<rparr>"

text \<open>
  The attribute tables of the two GET requests, as \<open>nlmsg_parse\<close> fills them under
  \<open>get_settings_policy\<close> and \<open>get_params_policy\<close>; a request is the table with the
  parser's status. The compact attribute is a flag: it is present or not.
\<close>

record get_settings_tb =
  gtb_SETTINGS_DEV :: "(int \<times> dev_tb) option"
  gtb_SETTINGS_INFOMASK :: "nla_data option"
  gtb_SETTINGS_COMPACT :: bool

record get_params_tb =
  gtb_PARAMS_DEV :: "(int \<times> dev_tb) option"
  gtb_PARAMS_INFOMASK :: "nla_data option"
  gtb_PARAMS_COMPACT :: bool

text \<open>
  \<open>parse_settings\<close>; \<open>is_privileged\<close> is what \<open>ethnl_is_privileged\<close> says of the
  sender. The result is the status, the request data and the registry.
\<close>

definition parse_settings ::
  "bool \<Rightarrow> net \<Rightarrow> settings_req \<Rightarrow> int \<times> get_settings_tb \<Rightarrow> int \<times> settings_req \<times> net" where
  "parse_settings is_privileged nt req_info msg =
     (let data = req_info\<lparr>privileged := is_privileged\<rparr> in
      case msg of
        (pret, tb) \<Rightarrow>
          if pret < 0 then (pret, data, nt)
          else
            (case (case gtb_SETTINGS_DEV tb of
                     None \<Rightarrow> (Inr (req_dev data), nt)
                   | Some nest \<Rightarrow>
                       (case ethnl_dev_get (\<lambda>n. n) nt (Some nest) of
                          (Inl (err, m), nt1) \<Rightarrow> (Inl err, nt1)
                        | (Inr d, nt1) \<Rightarrow> (Inr (Some d), nt1))) of
               (Inl err, nt1) \<Rightarrow> (err, data\<lparr>req_dev := None\<rparr>, nt1)
             | (Inr d, nt1) \<Rightarrow>
                 (let m1 = (case gtb_SETTINGS_INFOMASK tb of
                              None \<Rightarrow> req_mask data
                            | Some a \<Rightarrow> nla_get_u32 a);
                      c1 = (if gtb_SETTINGS_COMPACT tb then True else req_compact data);
                      m2 = (if m1 = 0 then ETHTOOL_IM_SETTINGS_ALL else m1)
                  in (0, data\<lparr>req_dev := d, req_mask := m2, req_compact := c1\<rparr>, nt1))))"

definition parse_params ::
  "net \<Rightarrow> common_req_info \<Rightarrow> int \<times> get_params_tb \<Rightarrow> int \<times> common_req_info \<times> net" where
  "parse_params nt req_info msg =
     (case msg of
        (pret, tb) \<Rightarrow>
          if pret < 0 then (pret, req_info, nt)
          else
            (case (case gtb_PARAMS_DEV tb of
                     None \<Rightarrow> (Inr (req_dev req_info), nt)
                   | Some nest \<Rightarrow>
                       (case ethnl_dev_get (\<lambda>n. n) nt (Some nest) of
                          (Inl (err, m), nt1) \<Rightarrow> (Inl err, nt1)
                        | (Inr d, nt1) \<Rightarrow> (Inr (Some d), nt1))) of
               (Inl err, nt1) \<Rightarrow> (err, req_info\<lparr>req_dev := None\<rparr>, nt1)
             | (Inr d, nt1) \<Rightarrow>
                 (let m1 = (case gtb_PARAMS_INFOMASK tb of
                              None \<Rightarrow> req_mask req_info
                            | Some a \<Rightarrow> nla_get_u32 a);
                      c1 = (if gtb_PARAMS_COMPACT tb then True else req_compact req_info);
                      m2 = (if m1 = 0 then ETHTOOL_IM_PARAMS_ALL else m1)
                  in (0, req_info\<lparr>req_dev := d, req_mask := m2, req_compact := c1\<rparr>, nt1))))"

text \<open>
  A request's info mask attribute asks for nothing in particular: it is absent, or its
  value is zero.
\<close>

definition no_info_mask :: "nla_data option \<Rightarrow> bool" where
  "no_info_mask attr = (case attr of None \<Rightarrow> True | Some a \<Rightarrow> nla_get_u32 a = 0)"

section \<open>GET requests: gathering and encoding the reply\<close>

text \<open>
  A chain \<open>put1 || put2 || ...\<close> of attribute writers, as the fill functions have it:
  the writers run in order and the chain stops at the first that fails. The result
  is whether one failed, and the buffer.
\<close>

fun nla_put_chain :: "sk_buff \<Rightarrow> (sk_buff \<Rightarrow> int \<times> sk_buff) list \<Rightarrow> bool \<times> sk_buff" where
  "nla_put_chain skb [] = (False, skb)"
| "nla_put_chain skb (put # puts) =
     (case put skb of
        (r, skb1) \<Rightarrow> if r \<noteq> 0 then (True, skb1) else nla_put_chain skb1 puts)"

text \<open>
  Modelled from the spec: the bitset codec (\<open>ethnl_bitset32_size\<close> and
  \<open>ethnl_put_bitset32\<close>; the bitset code is not among the sources). The size function
  returns the exact encoded length of a bitset of \<open>nbits\<close> bits with the given value,
  mask (or none) and flags, or a negative error; it is the parameter \<open>bitset32_size\<close>
  of whatever uses the codec. The encoder writes the bitset as one nested attribute of
  that length, or fails for lack of room. \<open>ETHNL_BITSET_COMPACT\<close> and
  \<open>ETHNL_BITSET_LIST\<close> are two flag bits.
\<close>

type_synonym bitset_size = "nat \<Rightarrow> link_mode_mask \<Rightarrow> link_mode_mask option \<Rightarrow> u32 \<Rightarrow> int"

definition ETHNL_BITSET_COMPACT :: u32 where "ETHNL_BITSET_COMPACT = 1"

definition ETHNL_BITSET_LIST :: u32 where "ETHNL_BITSET_LIST = 2"

definition ethnl_put_bitset32 ::
  "bitset_size \<Rightarrow> sk_buff \<Rightarrow> attrtype \<Rightarrow> nat \<Rightarrow> link_mode_mask \<Rightarrow> link_mode_mask option \<Rightarrow> u32
     \<Rightarrow> int \<times> sk_buff" where
  "ethnl_put_bitset32 bitset32_size skb t nbits val msk flags =
     (let n = bitset32_size nbits val msk flags in
      if n < 0 then (n, skb) else skb_put_item skb (BitsetNest t (nat n)))"

subsection \<open>Link settings (settings.c)\<close>

text \<open>
  What the settings handler reads from a device, over the state \<open>'st\<close> of its driver:
  \<open>__ethtool_get_link_ksettings\<close>, \<open>__ethtool_get_link\<close> and \<open>__ethtool_get_wol\<close>, each
  with its status.
\<close>

record 'st settings_dev_ops =
  ethtool_get_link_ksettings :: "'st \<Rightarrow> int \<times> ethtool_link_ksettings"
  ethtool_get_link :: "'st \<Rightarrow> int"
  ethtool_get_wol :: "'st \<Rightarrow> int \<times> ethtool_wolinfo"

text \<open>
  The reply part of \<open>struct settings_data\<close>, zeroed by \<open>ethnl_init_reply_data\<close> before
  \<open>prepare_settings\<close>; \<open>lsettings\<close> points into \<open>ksettings\<close> and is not a field here.
\<close>

record settings_reply =
  settings_info_mask :: u32
  settings_ksettings :: ethtool_link_ksettings
  settings_wolinfo :: ethtool_wolinfo
  settings_link :: int
  settings_lpm_empty :: bool

definition zero_link_ksettings :: ethtool_link_ksettings where
  "zero_link_ksettings =
     \<lparr>base = \<lparr>speed = 0, duplex = 0, port = 0, phy_address = 0, autoneg = 0,
              mdio_support = 0, eth_tp_mdix = 0, eth_tp_mdix_ctrl = 0, transceiver = 0\<rparr>,
      link_modes_supported = 0, link_modes_advertising = 0,
      link_modes_lp_advertising = 0\<rparr>"

definition zero_wolinfo :: ethtool_wolinfo where
  "zero_wolinfo = \<lparr>supported = 0, wolopts = 0, sopass = replicate SOPASS_MAX 0\<rparr>"

text \<open>
  \<open>prepare_settings\<close> returns its status, the reply data, and whether it called
  \<open>warn_partial_info\<close>. \<open>before_ops\<close> is what \<open>ethnl_before_ops\<close> returns on the device.
  \<open>ethnl_bitmap_to_u32\<close> changes how the link mode bitmaps lie in memory, not their
  bits, and has no counterpart here.
\<close>

definition prepare_settings ::
  "'st settings_dev_ops \<Rightarrow> ('st \<Rightarrow> int) \<Rightarrow> 'st \<Rightarrow> 'a settings_req_scheme
     \<Rightarrow> int \<times> settings_reply \<times> bool" where
  "prepare_settings ops before_ops st req_info =
     (let data0 = \<lparr>settings_info_mask = 0, settings_ksettings = zero_link_ksettings,
                    settings_wolinfo = zero_wolinfo, settings_link = - EOPNOTSUPP,
                    settings_lpm_empty = True\<rparr>
      in if before_ops st < 0 then (before_ops st, data0, False)
         else
           (let (m1, data1) =
                  (if req_mask req_info
                        AND (ETHTOOL_IM_SETTINGS_LINKINFO OR ETHTOOL_IM_SETTINGS_LINKMODES) \<noteq> 0
                   then (case ethtool_get_link_ksettings ops st of
                           (ret, ks) \<Rightarrow>
                             (if ret < 0
                              then req_mask req_info
                                     AND NOT (ETHTOOL_IM_SETTINGS_LINKINFO
                                              OR ETHTOOL_IM_SETTINGS_LINKMODES)
                              else req_mask req_info,
                              data0\<lparr>settings_ksettings := ks\<rparr>))
                   else (req_mask req_info, data0));
                data2 =
                  (if m1 AND ETHTOOL_IM_SETTINGS_LINKMODES \<noteq> 0
                   then data1\<lparr>settings_lpm_empty :=
                          (link_modes_lp_advertising (settings_ksettings data1) = 0)\<rparr>
                   else data1);
                data3 =
                  (if m1 AND ETHTOOL_IM_SETTINGS_LINKSTATE \<noteq> 0
                   then data2\<lparr>settings_link := ethtool_get_link ops st\<rparr>
                   else data2);
                (m4, data4) =
                  (if m1 AND ETHTOOL_IM_SETTINGS_WOL \<noteq> 0
                   then (case ethtool_get_wol ops st of
                           (ret, w) \<Rightarrow>
                             (if ret < 0 then m1 AND NOT ETHTOOL_IM_SETTINGS_WOL else m1,
                              data3\<lparr>settings_wolinfo := w\<rparr>))
                   else (m1, data3))
            in (0, data4\<lparr>settings_info_mask := m4\<rparr>, req_mask req_info AND NOT m4 \<noteq> 0)))"

definition fill_link_info :: "sk_buff \<Rightarrow> ethtool_link_settings \<Rightarrow> int \<times> sk_buff" where
  "fill_link_info skb lsettings =
     (case nla_nest_start skb (A_SETTINGS ETHTOOL_A_SETTINGS_LINK_INFO) of
        (None, skb1) \<Rightarrow> (- EMSGSIZE, skb1)
      | (Some nest, skb1) \<Rightarrow>
          (case nla_put_chain skb1
                  [\<lambda>s. nla_put_u8 s (A_LINKINFO ETHTOOL_A_LINKINFO_PORT) (port lsettings),
                   \<lambda>s. nla_put_u8 s (A_LINKINFO ETHTOOL_A_LINKINFO_PHYADDR)
                          (phy_address lsettings),
                   \<lambda>s. nla_put_u8 s (A_LINKINFO ETHTOOL_A_LINKINFO_TP_MDIX)
                          (eth_tp_mdix lsettings),
                   \<lambda>s. nla_put_u8 s (A_LINKINFO ETHTOOL_A_LINKINFO_TP_MDIX_CTRL)
                          (eth_tp_mdix_ctrl lsettings),
                   \<lambda>s. nla_put_u8 s (A_LINKINFO ETHTOOL_A_LINKINFO_TRANSCEIVER)
                          (transceiver lsettings)] of
             (True, skb2) \<Rightarrow> (- EMSGSIZE, nla_nest_cancel skb2 nest)
           | (False, skb2) \<Rightarrow> (0, nla_nest_end skb2 nest)))"

definition fill_link_modes ::
  "bitset_size \<Rightarrow> sk_buff \<Rightarrow> ethtool_link_ksettings \<Rightarrow> bool \<Rightarrow> bool \<Rightarrow> int \<times> sk_buff" where
  "fill_link_modes bitset32_size skb ksettings lpm_empty cmpct =
     (let flags = (if cmpct then ETHNL_BITSET_COMPACT else 0);
          lsettings = base ksettings
      in case nla_nest_start skb (A_SETTINGS ETHTOOL_A_SETTINGS_LINK_MODES) of
           (None, skb1) \<Rightarrow> (- EMSGSIZE, skb1)
         | (Some nest, skb1) \<Rightarrow>
             (case nla_put_u8 skb1 (A_LINKMODES ETHTOOL_A_LINKMODES_AUTONEG)
                     (autoneg lsettings) of
                (r1, skb2) \<Rightarrow>
                  if r1 \<noteq> 0 then (- EMSGSIZE, nla_nest_cancel skb2 nest)
                  else
                    (case ethnl_put_bitset32 bitset32_size skb2
                            (A_LINKMODES ETHTOOL_A_LINKMODES_OURS)
                            ETHTOOL_LINK_MODE_MASK_NBITS (link_modes_advertising ksettings)
                            (Some (link_modes_supported ksettings)) flags of
                       (r2, skb3) \<Rightarrow>
                         if r2 < 0 then (- EMSGSIZE, nla_nest_cancel skb3 nest)
                         else
                           (case (if \<not> lpm_empty
                                  then ethnl_put_bitset32 bitset32_size skb3
                                         (A_LINKMODES ETHTOOL_A_LINKMODES_PEER)
                                         ETHTOOL_LINK_MODE_MASK_NBITS
                                         (link_modes_lp_advertising ksettings) None
                                         (flags OR ETHNL_BITSET_LIST)
                                  else (0, skb3)) of
                              (r3, skb4) \<Rightarrow>
                                if r3 < 0 then (- EMSGSIZE, nla_nest_cancel skb4 nest)
                                else
                                  (case nla_put_chain skb4
                                          [\<lambda>s. nla_put_u32 s
                                                  (A_LINKMODES ETHTOOL_A_LINKMODES_SPEED)
                                                  (speed lsettings),
                                           \<lambda>s. nla_put_u8 s
                                                  (A_LINKMODES ETHTOOL_A_LINKMODES_DUPLEX)
                                                  (duplex lsettings)] of
                                     (True, skb5) \<Rightarrow> (- EMSGSIZE, nla_nest_cancel skb5 nest)
                                   | (False, skb5) \<Rightarrow> (0, nla_nest_end skb5 nest))))))"

definition fill_link_state :: "sk_buff \<Rightarrow> int \<Rightarrow> int \<times> sk_buff" where
  "fill_link_state skb link =
     (case nla_nest_start skb (A_SETTINGS ETHTOOL_A_SETTINGS_LINK_STATE) of
        (None, skb1) \<Rightarrow> (- EMSGSIZE, skb1)
      | (Some nest, skb1) \<Rightarrow>
          (case (if 0 \<le> link
                 then nla_put_u8 skb1 (A_LINKSTATE ETHTOOL_A_LINKSTATE_LINK)
                        (if link \<noteq> 0 then 1 else 0)
                 else (0, skb1)) of
             (r, skb2) \<Rightarrow>
               if r \<noteq> 0 then (- EMSGSIZE, nla_nest_cancel skb2 nest)
               else (0, nla_nest_end skb2 nest)))"

definition fill_wolinfo :: "sk_buff \<Rightarrow> ethtool_wolinfo \<Rightarrow> bool \<Rightarrow> int \<times> sk_buff" where
  "fill_wolinfo skb wolinfo priv =
     (case nla_nest_start skb (A_SETTINGS ETHTOOL_A_SETTINGS_WOL) of
        (None, skb1) \<Rightarrow> (- EMSGSIZE, skb1)
      | (Some nest, skb1) \<Rightarrow>
          (case nla_put_bitfield32 skb1 (A_WOL ETHTOOL_A_WOL_MODES) (wolopts wolinfo)
                  (supported wolinfo) of
             (r1, skb2) \<Rightarrow>
               if r1 \<noteq> 0 then (- EMSGSIZE, nla_nest_cancel skb2 nest)
               else
                 (case (if priv
                        then nla_put skb2 (A_WOL ETHTOOL_A_WOL_SOPASS) SOPASS_MAX
                               (sopass wolinfo)
                        else (0, skb2)) of
                    (r2, skb3) \<Rightarrow>
                      if r2 \<noteq> 0 then (- EMSGSIZE, nla_nest_cancel skb3 nest)
                      else (0, nla_nest_end skb3 nest))))"

definition fill_settings ::
  "bitset_size \<Rightarrow> sk_buff \<Rightarrow> 'a settings_req_scheme \<Rightarrow> settings_reply \<Rightarrow> int \<times> sk_buff" where
  "fill_settings bitset32_size skb req_info data =
     (let info_mask = settings_info_mask data in
      case (if info_mask AND ETHTOOL_IM_SETTINGS_LINKINFO \<noteq> 0
            then fill_link_info skb (base (settings_ksettings data)) else (0, skb)) of
        (r1, skb1) \<Rightarrow>
          if r1 < 0 then (r1, skb1)
          else
            (case (if info_mask AND ETHTOOL_IM_SETTINGS_LINKMODES \<noteq> 0
                   then fill_link_modes bitset32_size skb1 (settings_ksettings data)
                          (settings_lpm_empty data) (req_compact req_info)
                   else (0, skb1)) of
               (r2, skb2) \<Rightarrow>
                 if r2 < 0 then (r2, skb2)
                 else
                   (case (if info_mask AND ETHTOOL_IM_SETTINGS_LINKSTATE \<noteq> 0
                          then fill_link_state skb2 (settings_link data) else (0, skb2)) of
                      (r3, skb3) \<Rightarrow>
                        if r3 < 0 then (r3, skb3)
                        else
                          (case (if info_mask AND ETHTOOL_IM_SETTINGS_WOL \<noteq> 0
                                 then fill_wolinfo skb3 (settings_wolinfo data)
                                        (privileged req_info)
                                 else (0, skb3)) of
                             (r4, skb4) \<Rightarrow> if r4 < 0 then (r4, skb4) else (0, skb4)))))"

subsection \<open>Device parameters (params.c)\<close>

text \<open>
  The reply part of \<open>struct params_data\<close>, zeroed by \<open>ethnl_init_reply_data\<close> before
  \<open>prepare_params\<close>.
\<close>

record params_reply =
  params_info_mask :: u32
  params_coalesce :: ethtool_coalesce
  params_ring :: ethtool_ringparam
  params_pause :: ethtool_pauseparam
  params_channels :: ethtool_channels

definition zero_ringparam :: ethtool_ringparam where
  "zero_ringparam =
     \<lparr>rx_max_pending = 0, rx_mini_max_pending = 0, rx_jumbo_max_pending = 0,
      tx_max_pending = 0, rx_pending = 0, rx_mini_pending = 0, rx_jumbo_pending = 0,
      tx_pending = 0\<rparr>"

definition zero_pauseparam :: ethtool_pauseparam where
  "zero_pauseparam = \<lparr>pause_autoneg = 0, rx_pause = 0, tx_pause = 0\<rparr>"

definition zero_channels :: ethtool_channels where
  "zero_channels =
     \<lparr>max_rx = 0, max_tx = 0, max_other = 0, max_combined = 0, rx_count = 0,
      tx_count = 0, other_count = 0, combined_count = 0\<rparr>"

text \<open>
  The getters take the structure to fill (zeroed reply data) and return their status
  with it.
\<close>

definition ethnl_get_coalesce ::
  "'st ethtool_ops \<Rightarrow> 'st \<Rightarrow> ethtool_coalesce \<Rightarrow> int \<times> ethtool_coalesce" where
  "ethnl_get_coalesce ops st data =
     (case get_coalesce ops of None \<Rightarrow> (- EOPNOTSUPP, data) | Some getp \<Rightarrow> getp st)"

definition ethnl_get_ring ::
  "'st ethtool_ops \<Rightarrow> 'st \<Rightarrow> ethtool_ringparam \<Rightarrow> int \<times> ethtool_ringparam" where
  "ethnl_get_ring ops st data =
     (case get_ringparam ops of None \<Rightarrow> (- EOPNOTSUPP, data) | Some getp \<Rightarrow> (0, getp st))"

definition ethnl_get_pause ::
  "'st ethtool_ops \<Rightarrow> 'st \<Rightarrow> ethtool_pauseparam \<Rightarrow> int \<times> ethtool_pauseparam" where
  "ethnl_get_pause ops st data =
     (case get_pauseparam ops of None \<Rightarrow> (- EOPNOTSUPP, data) | Some getp \<Rightarrow> (0, getp st))"

definition ethnl_get_channels ::
  "'st ethtool_ops \<Rightarrow> 'st \<Rightarrow> ethtool_channels \<Rightarrow> int \<times> ethtool_channels" where
  "ethnl_get_channels ops st data =
     (case get_channels ops of None \<Rightarrow> (- EOPNOTSUPP, data) | Some getp \<Rightarrow> (0, getp st))"

definition prepare_params ::
  "'st ethtool_ops \<Rightarrow> ('st \<Rightarrow> int) \<Rightarrow> 'st \<Rightarrow> 'a common_req_info_scheme
     \<Rightarrow> int \<times> params_reply \<times> bool" where
  "prepare_params ops before_ops st req_info =
     (let data0 = \<lparr>params_info_mask = 0, params_coalesce = zero_coalesce,
                    params_ring = zero_ringparam, params_pause = zero_pauseparam,
                    params_channels = zero_channels\<rparr>
      in if before_ops st < 0 then (before_ops st, data0, False)
         else
           (let m0 = req_mask req_info;
                (m1, data1) =
                  (if m0 AND ETHTOOL_IM_PARAMS_COALESCE \<noteq> 0
                   then (case ethnl_get_coalesce ops st (params_coalesce data0) of
                           (ret, c) \<Rightarrow>
                             (if ret < 0 then m0 AND NOT ETHTOOL_IM_PARAMS_COALESCE else m0,
                              data0\<lparr>params_coalesce := c\<rparr>))
                   else (m0, data0));
                (m2, data2) =
                  (if m1 AND ETHTOOL_IM_PARAMS_RING \<noteq> 0
                   then (case ethnl_get_ring ops st (params_ring data1) of
                           (ret, r) \<Rightarrow>
                             (if ret < 0 then m1 AND NOT ETHTOOL_IM_PARAMS_RING else m1,
                              data1\<lparr>params_ring := r\<rparr>))
                   else (m1, data1));
                (m3, data3) =
                  (if m2 AND ETHTOOL_IM_PARAMS_PAUSE \<noteq> 0
                   then (case ethnl_get_pause ops st (params_pause data2) of
                           (ret, p) \<Rightarrow>
                             (if ret < 0 then m2 AND NOT ETHTOOL_IM_PARAMS_PAUSE else m2,
                              data2\<lparr>params_pause := p\<rparr>))
                   else (m2, data2));
                (m4, data4) =
                  (if m3 AND ETHTOOL_IM_PARAMS_CHANNELS \<noteq> 0
                   then (case ethnl_get_channels ops st (params_channels data3) of
                           (ret, c) \<Rightarrow>
                             (if ret < 0 then m3 AND NOT ETHTOOL_IM_PARAMS_CHANNELS else m3,
                              data3\<lparr>params_channels := c\<rparr>))
                   else (m3, data3))
            in (0, data4\<lparr>params_info_mask := m4\<rparr>, req_mask req_info AND NOT m4 \<noteq> 0)))"

definition bool_u8 :: "u32 \<Rightarrow> u8" where
  "bool_u8 v = (if v \<noteq> 0 then 1 else 0)"

definition fill_coalesce :: "sk_buff \<Rightarrow> ethtool_coalesce \<Rightarrow> int \<times> sk_buff" where
  "fill_coalesce skb data =
     (case nla_nest_start skb (A_PARAMS ETHTOOL_A_PARAMS_COALESCE) of
        (None, skb1) \<Rightarrow> (- EMSGSIZE, skb1)
      | (Some nest, skb1) \<Rightarrow>
          (case nla_put_chain skb1
                  [\<lambda>s. nla_put_u32 s (A_COALESCE ETHTOOL_A_COALESCE_RX_USECS)
                          (rx_coalesce_usecs data),
                   \<lambda>s. nla_put_u32 s (A_COALESCE ETHTOOL_A_COALESCE_RX_MAXFRM)
                          (rx_max_coalesced_frames data),
                   \<lambda>s. nla_put_u32 s (A_COALESCE ETHTOOL_A_COALESCE_RX_USECS_IRQ)
                          (rx_coalesce_usecs_irq data),
                   \<lambda>s. nla_put_u32 s (A_COALESCE ETHTOOL_A_COALESCE_RX_MAXFRM_IRQ)
                          (rx_max_coalesced_frames_irq data),
                   \<lambda>s. nla_put_u32 s (A_COALESCE ETHTOOL_A_COALESCE_RX_USECS_LOW)
                          (rx_coalesce_usecs_low data),
                   \<lambda>s. nla_put_u32 s (A_COALESCE ETHTOOL_A_COALESCE_RX_MAXFRM_LOW)
                          (rx_max_coalesced_frames_low data),
                   \<lambda>s. nla_put_u32 s (A_COALESCE ETHTOOL_A_COALESCE_RX_USECS_HIGH)
                          (rx_coalesce_usecs_high data),
                   \<lambda>s. nla_put_u32 s (A_COALESCE ETHTOOL_A_COALESCE_RX_MAXFRM_HIGH)
                          (rx_max_coalesced_frames_high data),
                   \<lambda>s. nla_put_u32 s (A_COALESCE ETHTOOL_A_COALESCE_TX_USECS)
                          (tx_coalesce_usecs data),
                   \<lambda>s. nla_put_u32 s (A_COALESCE ETHTOOL_A_COALESCE_TX_MAXFRM)
                          (tx_max_coalesced_frames data),
                   \<lambda>s. nla_put_u32 s (A_COALESCE ETHTOOL_A_COALESCE_TX_USECS_IRQ)
                          (tx_coalesce_usecs_irq data),
                   \<lambda>s. nla_put_u32 s (A_COALESCE ETHTOOL_A_COALESCE_TX_MAXFRM_IRQ)
                          (tx_max_coalesced_frames_irq data),
                   \<lambda>s. nla_put_u32 s (A_COALESCE ETHTOOL_A_COALESCE_TX_USECS_LOW)
                          (tx_coalesce_usecs_low data),
                   \<lambda>s. nla_put_u32 s (A_COALESCE ETHTOOL_A_COALESCE_TX_MAXFRM_LOW)
                          (tx_max_coalesced_frames_low data),
                   \<lambda>s. nla_put_u32 s (A_COALESCE ETHTOOL_A_COALESCE_TX_USECS_HIGH)
                          (tx_coalesce_usecs_high data),
                   \<lambda>s. nla_put_u32 s (A_COALESCE ETHTOOL_A_COALESCE_TX_MAXFRM_HIGH)
                          (tx_max_coalesced_frames_high data),
                   \<lambda>s. nla_put_u32 s (A_COALESCE ETHTOOL_A_COALESCE_PKT_RATE_LOW)
                          (pkt_rate_low data),
                   \<lambda>s. nla_put_u32 s (A_COALESCE ETHTOOL_A_COALESCE_PKT_RATE_HIGH)
                          (pkt_rate_high data),
                   \<lambda>s. nla_put_u8 s (A_COALESCE ETHTOOL_A_COALESCE_RX_USE_ADAPTIVE)
                          (bool_u8 (use_adaptive_rx_coalesce data)),
                   \<lambda>s. nla_put_u8 s (A_COALESCE ETHTOOL_A_COALESCE_TX_USE_ADAPTIVE)
                          (bool_u8 (use_adaptive_tx_coalesce data)),
                   \<lambda>s. nla_put_u32 s (A_COALESCE ETHTOOL_A_COALESCE_RATE_SAMPLE_INTERVAL)
                          (rate_sample_interval data),
                   \<lambda>s. nla_put_u32 s (A_COALESCE ETHTOOL_A_COALESCE_STATS_BLOCK_USECS)
                          (stats_block_coalesce_usecs data)] of
             (True, skb2) \<Rightarrow> (- EMSGSIZE, nla_nest_cancel skb2 nest)
           | (False, skb2) \<Rightarrow> (0, nla_nest_end skb2 nest)))"

definition fill_ring :: "sk_buff \<Rightarrow> ethtool_ringparam \<Rightarrow> int \<times> sk_buff" where
  "fill_ring skb data =
     (case nla_nest_start skb (A_PARAMS ETHTOOL_A_PARAMS_RING) of
        (None, skb1) \<Rightarrow> (- EMSGSIZE, skb1)
      | (Some nest, skb1) \<Rightarrow>
          (case nla_put_chain skb1
                  [\<lambda>s. nla_put_u32 s (A_RING ETHTOOL_A_RING_RX_MAX_PENDING)
                          (rx_max_pending data),
                   \<lambda>s. nla_put_u32 s (A_RING ETHTOOL_A_RING_RX_MINI_MAX_PENDING)
                          (rx_mini_max_pending data),
                   \<lambda>s. nla_put_u32 s (A_RING ETHTOOL_A_RING_RX_JUMBO_MAX_PENDING)
                          (rx_jumbo_max_pending data),
                   \<lambda>s. nla_put_u32 s (A_RING ETHTOOL_A_RING_TX_MAX_PENDING)
                          (tx_max_pending data),
                   \<lambda>s. nla_put_u32 s (A_RING ETHTOOL_A_RING_RX_PENDING) (rx_pending data),
                   \<lambda>s. nla_put_u32 s (A_RING ETHTOOL_A_RING_RX_MINI_PENDING)
                          (rx_mini_pending data),
                   \<lambda>s. nla_put_u32 s (A_RING ETHTOOL_A_RING_RX_JUMBO_PENDING)
                          (rx_jumbo_pending data),
                   \<lambda>s. nla_put_u32 s (A_RING ETHTOOL_A_RING_TX_PENDING) (tx_pending data)] of
             (True, skb2) \<Rightarrow> (- EMSGSIZE, nla_nest_cancel skb2 nest)
           | (False, skb2) \<Rightarrow> (0, nla_nest_end skb2 nest)))"

definition fill_pause :: "sk_buff \<Rightarrow> ethtool_pauseparam \<Rightarrow> int \<times> sk_buff" where
  "fill_pause skb data =
     (case nla_nest_start skb (A_PARAMS ETHTOOL_A_PARAMS_PAUSE) of
        (None, skb1) \<Rightarrow> (- EMSGSIZE, skb1)
      | (Some nest, skb1) \<Rightarrow>
          (case nla_put_chain skb1
                  [\<lambda>s. nla_put_u8 s (A_PAUSE ETHTOOL_A_PAUSE_AUTONEG)
                          (bool_u8 (pause_autoneg data)),
                   \<lambda>s. nla_put_u8 s (A_PAUSE ETHTOOL_A_PAUSE_RX) (bool_u8 (rx_pause data)),
                   \<lambda>s. nla_put_u8 s (A_PAUSE ETHTOOL_A_PAUSE_TX) (bool_u8 (tx_pause data))] of
             (True, skb2) \<Rightarrow> (- EMSGSIZE, nla_nest_cancel skb2 nest)
           | (False, skb2) \<Rightarrow> (0, nla_nest_end skb2 nest)))"

text \<open>\<open>fill_channels\<close> does not cancel its nest when a writer fails.\<close>

definition fill_channels :: "sk_buff \<Rightarrow> ethtool_channels \<Rightarrow> int \<times> sk_buff" where
  "fill_channels skb data =
     (case nla_nest_start skb (A_PARAMS ETHTOOL_A_PARAMS_CHANNELS) of
        (None, skb1) \<Rightarrow> (- EMSGSIZE, skb1)
      | (Some nest, skb1) \<Rightarrow>
          (case nla_put_chain skb1
                  [\<lambda>s. nla_put_u32 s (A_CHANNELS ETHTOOL_A_CHANNELS_MAX_RX) (max_rx data),
                   \<lambda>s. nla_put_u32 s (A_CHANNELS ETHTOOL_A_CHANNELS_MAX_TX) (max_tx data),
                   \<lambda>s. nla_put_u32 s (A_CHANNELS ETHTOOL_A_CHANNELS_MAX_OTHER)
                          (max_other data),
                   \<lambda>s. nla_put_u32 s (A_CHANNELS ETHTOOL_A_CHANNELS_MAX_COMBINED)
                          (max_combined data),
                   \<lambda>s. nla_put_u32 s (A_CHANNELS ETHTOOL_A_CHANNELS_RX_COUNT)
                          (rx_count data),
                   \<lambda>s. nla_put_u32 s (A_CHANNELS ETHTOOL_A_CHANNELS_TX_COUNT)
                          (tx_count data),
                   \<lambda>s. nla_put_u32 s (A_CHANNELS ETHTOOL_A_CHANNELS_OTHER_COUNT)
                          (other_count data),
                   \<lambda>s. nla_put_u32 s (A_CHANNELS ETHTOOL_A_CHANNELS_COMBINED_COUNT)
                          (combined_count data)] of
             (True, skb2) \<Rightarrow> (- EMSGSIZE, skb2)
           | (False, skb2) \<Rightarrow> (0, nla_nest_end skb2 nest)))"

definition fill_params ::
  "sk_buff \<Rightarrow> 'a common_req_info_scheme \<Rightarrow> params_reply \<Rightarrow> int \<times> sk_buff" where
  "fill_params skb req_info data =
     (let info_mask = params_info_mask data in
      case (if info_mask AND ETHTOOL_IM_PARAMS_COALESCE \<noteq> 0
            then fill_coalesce skb (params_coalesce data) else (0, skb)) of
        (r1, skb1) \<Rightarrow>
          if r1 < 0 then (r1, skb1)
          else
            (case (if info_mask AND ETHTOOL_IM_PARAMS_RING \<noteq> 0
                   then fill_ring skb1 (params_ring data) else (0, skb1)) of
               (r2, skb2) \<Rightarrow>
                 if r2 < 0 then (r2, skb2)
                 else
                   (case (if info_mask AND ETHTOOL_IM_PARAMS_PAUSE \<noteq> 0
                          then fill_pause skb2 (params_pause data) else (0, skb2)) of
                      (r3, skb3) \<Rightarrow>
                        if r3 < 0 then (r3, skb3)
                        else
                          (case (if info_mask AND ETHTOOL_IM_PARAMS_CHANNELS \<noteq> 0
                                 then fill_channels skb3 (params_channels data)
                                 else (0, skb3)) of
                             (r4, skb4) \<Rightarrow> if r4 < 0 then (r4, skb4) else (0, skb4)))))"

text \<open>
  What a writer adds to a buffer: it appends, and the nests it starts are among \<open>S\<close>;
  \<open>appended\<close> says so of the buffer before and after.
\<close>

definition writes_nests :: "(sk_buff \<Rightarrow> 'a \<times> sk_buff) \<Rightarrow> attrtype set \<Rightarrow> bool" where
  "writes_nests f S \<longleftrightarrow>
     (\<forall>skb. \<exists>new. snd (f skb) = skb\<lparr>items := items skb @ new\<rparr>
                  \<and> {t. NestStart t \<in> set new} \<subseteq> S)"

definition appended :: "attrtype set \<Rightarrow> sk_buff \<Rightarrow> sk_buff \<Rightarrow> bool" where
  "appended S skb skb1 \<longleftrightarrow>
     (\<exists>new. skb1 = skb\<lparr>items := items skb @ new\<rparr> \<and> {t. NestStart t \<in> set new} \<subseteq> S)"

text \<open>
  The sub-containers that a writer has added to a buffer: the types of the nests started
  after the items the buffer had, in order.
\<close>

fun nest_type :: "item \<Rightarrow> attrtype option" where
  "nest_type (NestStart t) = Some t"
| "nest_type _ = None"

definition sub_containers :: "sk_buff \<Rightarrow> sk_buff \<Rightarrow> attrtype list" where
  "sub_containers skb skb1 = List.map_filter nest_type (drop (length (items skb)) (items skb1))"

text \<open>
  The info mask bit of the category that a sub-container of a reply holds; 0 for the
  attribute types that are not the sub-container of a category.
\<close>

fun settings_category :: "attrtype \<Rightarrow> u32" where
  "settings_category (A_SETTINGS ETHTOOL_A_SETTINGS_LINK_INFO) = ETHTOOL_IM_SETTINGS_LINKINFO"
| "settings_category (A_SETTINGS ETHTOOL_A_SETTINGS_LINK_MODES) = ETHTOOL_IM_SETTINGS_LINKMODES"
| "settings_category (A_SETTINGS ETHTOOL_A_SETTINGS_LINK_STATE) = ETHTOOL_IM_SETTINGS_LINKSTATE"
| "settings_category (A_SETTINGS ETHTOOL_A_SETTINGS_WOL) = ETHTOOL_IM_SETTINGS_WOL"
| "settings_category _ = 0"

fun params_category :: "attrtype \<Rightarrow> u32" where
  "params_category (A_PARAMS ETHTOOL_A_PARAMS_COALESCE) = ETHTOOL_IM_PARAMS_COALESCE"
| "params_category (A_PARAMS ETHTOOL_A_PARAMS_RING) = ETHTOOL_IM_PARAMS_RING"
| "params_category (A_PARAMS ETHTOOL_A_PARAMS_PAUSE) = ETHTOOL_IM_PARAMS_PAUSE"
| "params_category (A_PARAMS ETHTOOL_A_PARAMS_CHANNELS) = ETHTOOL_IM_PARAMS_CHANNELS"
| "params_category _ = 0"

text \<open>
  Devices and requests to run the GET handlers on. The first device has no link
  settings and no wake-on-LAN operation, the second one cannot tell its link state; the
  bitset codec is one that encodes every bitset in twelve bytes.
\<close>

definition no_ksettings_dev :: "unit settings_dev_ops" where
  "no_ksettings_dev =
     \<lparr>ethtool_get_link_ksettings = (\<lambda>st. (- EOPNOTSUPP, zero_link_ksettings)),
      ethtool_get_link = (\<lambda>st. 1),
      ethtool_get_wol = (\<lambda>st. (- EOPNOTSUPP, zero_wolinfo))\<rparr>"

definition no_link_dev :: "unit settings_dev_ops" where
  "no_link_dev =
     \<lparr>ethtool_get_link_ksettings = (\<lambda>st. (0, example_ksettings)),
      ethtool_get_link = (\<lambda>st. - EOPNOTSUPP),
      ethtool_get_wol = (\<lambda>st. (- EOPNOTSUPP, zero_wolinfo))\<rparr>"

definition example_bitset_size :: bitset_size where
  "example_bitset_size = (\<lambda>nbits val msk flags. 12)"

definition example_settings_req :: "u32 \<Rightarrow> settings_req" where
  "example_settings_req m =
     \<lparr>req_dev = Some 0, req_mask = m, req_compact = False, privileged = False\<rparr>"

definition example_params_req :: "u32 \<Rightarrow> common_req_info" where
  "example_params_req m = \<lparr>req_dev = Some 0, req_mask = m, req_compact = False\<rparr>"

section \<open>Properties of the registry primitives\<close>

lemma strncmp_zero_iff: "strncmp a b n = 0 \<longleftrightarrow> take n a = take n b"
  by (induction a b n rule: strncmp.induct) auto

lemma find_dev_less: "find_dev P nt = Some p \<Longrightarrow> p < length nt"
  by (induction nt arbitrary: p) (auto split: if_splits)

lemma find_dev_holds: "find_dev P nt = Some p \<Longrightarrow> P (nt ! p)"
  by (induction nt arbitrary: p) (auto split: if_splits)

lemma dev_put_dev_hold: "p < length nt \<Longrightarrow> dev_put (dev_hold nt p) p = nt"
  by (simp add: dev_put_def dev_hold_def list_eq_iff_nth_eq nth_list_update)

lemma dev_hold_name: "p < length nt \<Longrightarrow> name (dev_hold nt p ! p) = name (nt ! p)"
  by (simp add: dev_hold_def)

lemma strncmp_differs:
  assumes "a \<noteq> b" and "length a < n"
  shows "strncmp a b n \<noteq> 0"
proof
  assume "strncmp a b n = 0"
  then have eq: "take n a = take n b" by (simp add: strncmp_zero_iff)
  from assms(2) have ta: "take n a = a" by simp
  have "length (take n b) = length a" using eq ta by simp
  then have "length b < n" using assms(2) by (simp add: min_def split: if_splits)
  then have "take n b = b" by simp
  with eq ta assms(1) show False by simp
qed

section \<open>The resolver\<close>



text \<open>
  C4. The name-only path checks \<open>netif_device_present\<close>, but the index path returns the
  device right after the name comparison. On a registry whose device 2 is not present,
  resolving by index 2, or by index 2 with the matching name, succeeds and keeps the
  reference, where the claim asks for the "device not present" failure.
\<close>

theorem ethnl_dev_get_index_skips_present_check:
  "ethnl_dev_get (\<lambda>n. (0, n))
     [\<lparr>ifindex = 2, name = ''eth0'', present = False, refcnt = 1\<rparr>]
     (Some \<lparr>tb_DEV_INDEX = Some 2, tb_DEV_NAME = None\<rparr>) =
   (Inr 0, [\<lparr>ifindex = 2, name = ''eth0'', present = False, refcnt = 2\<rparr>])
   \<and> ethnl_dev_get (\<lambda>n. (0, n))
     [\<lparr>ifindex = 2, name = ''eth0'', present = False, refcnt = 1\<rparr>]
     (Some \<lparr>tb_DEV_INDEX = Some 2, tb_DEV_NAME = Some ''eth0''\<rparr>) =
   (Inr 0, [\<lparr>ifindex = 2, name = ''eth0'', present = False, refcnt = 2\<rparr>])
   \<and> ethnl_dev_get (\<lambda>n. (0, n))
     [\<lparr>ifindex = 2, name = ''eth0'', present = False, refcnt = 1\<rparr>]
     (Some \<lparr>tb_DEV_INDEX = None, tb_DEV_NAME = Some ''eth0''\<rparr>) =
   (Inl (- ENODEV, ''device not present''),
    [\<lparr>ifindex = 2, name = ''eth0'', present = False, refcnt = 1\<rparr>])"
  by (simp add: ethnl_dev_get_def dev_get_by_index_def dev_get_by_name_def dev_hold_def
      dev_put_def netif_device_present_def IFNAMSIZ_def strncmp_zero_iff)

section \<open>Properties of the buffer and of the dump loops\<close>

lemma skb_put_item_appends:
  "\<exists>new. snd (skb_put_item skb it) = skb\<lparr>items := items skb @ new\<rparr>"
  by (auto simp: skb_put_item_def intro: exI [of _ "[]"])

lemma skb_trim_appended [simp]:
  "skb_trim (skb\<lparr>items := items skb @ new\<rparr>) (length (items skb)) = skb"
  by (simp add: skb_trim_def)

lemma skb_len_append [simp]:
  "skb_len (skb\<lparr>items := items skb @ new\<rparr>) = skb_len skb + sum_list (map item_size new)"
  by (simp add: skb_len_def)

lemma ethnl_fill_dev_appends:
  "\<exists>new. snd (ethnl_fill_dev skb dev t) = skb\<lparr>items := items skb @ new\<rparr>"
  by (auto simp: ethnl_fill_dev_def nla_nest_start_def nla_put_u32_def nla_put_string_def
      skb_put_item_def nla_nest_cancel_def nla_nest_end_def skb_trim_def
      intro: exI [of _ "[]"] split: prod.splits option.splits if_splits)

lemma ethnl_fill_dev_fails:
  "ethnl_fill_dev skb dev t = (ret, skb1) \<Longrightarrow> ret < 0 \<Longrightarrow> skb1 = skb"
  by (auto simp: ethnl_fill_dev_def nla_nest_start_def nla_put_u32_def nla_put_string_def
      skb_put_item_def nla_nest_cancel_def nla_nest_end_def skb_trim_def
      split: prod.splits option.splits if_splits)

lemma nla_total_size_ge: "NLA_HDRLEN + n \<le> nla_total_size n"
  by (simp add: nla_total_size_def NLA_ALIGN_def NLA_HDRLEN_def)

lemma nla_total_size_0 [simp]: "nla_total_size 0 = 4"
  and nla_total_size_1 [simp]: "nla_total_size 1 = 8"
  and nla_total_size_4 [simp]: "nla_total_size 4 = 8"
  and nla_total_size_8 [simp]: "nla_total_size 8 = 12"
  by (simp_all add: nla_total_size_def NLA_ALIGN_def NLA_HDRLEN_def)

lemma nla_total_size_Suc_ge: "8 \<le> nla_total_size (Suc n)"
  by (simp add: nla_total_size_def NLA_ALIGN_def NLA_HDRLEN_def)

lemma ethnl_fill_dev_small:
  assumes "skb_tailroom skb < NLMSG_HDRLEN + GENL_HDRLEN"
  shows "fst (ethnl_fill_dev skb dev t) < 0"
  using assms nla_total_size_Suc_ge [of "length (name dev)"]
  by (auto simp: ethnl_fill_dev_def nla_nest_start_def nla_put_u32_def nla_put_string_def
      skb_put_item_def nla_nest_cancel_def nla_nest_end_def skb_trim_def skb_tailroom_def
      skb_len_def NLMSG_HDRLEN_def GENL_HDRLEN_def EMSGSIZE_def
      split: prod.splits option.splits if_splits)

lemma ethnl_get_dump_one_appends:
  assumes "appends_only ops"
  shows "\<exists>new. snd (ethnl_get_dump_one skb dev ops r) = skb\<lparr>items := items skb @ new\<rparr>"
proof (cases "fst (prepare_data ops r dev) < 0")
  case True
  then show ?thesis
    by (auto simp: ethnl_get_dump_one_def split: prod.splits intro: exI [of _ "[]"])
next
  case False
  obtain ret1 skb1 where fd: "ethnl_fill_dev skb dev (dev_attrtype ops) = (ret1, skb1)"
    by (cases "ethnl_fill_dev skb dev (dev_attrtype ops)")
  obtain n1 where n1: "skb1 = skb\<lparr>items := items skb @ n1\<rparr>"
    using ethnl_fill_dev_appends [of skb dev "dev_attrtype ops"] fd by auto
  show ?thesis
  proof (cases "ret1 < 0")
    case True
    with False fd n1 show ?thesis
      by (auto simp: ethnl_get_dump_one_def split: prod.splits)
  next
    case r1: False
    obtain d where d: "snd (prepare_data ops r dev) = d" by simp
    obtain n2 where n2: "snd (fill_reply ops skb1 r d) = skb1\<lparr>items := items skb1 @ n2\<rparr>"
      using assms unfolding appends_only_def by blast
    have "snd (ethnl_get_dump_one skb dev ops r) = snd (fill_reply ops skb1 r d)"
      using False r1 fd d by (auto simp: ethnl_get_dump_one_def split: prod.splits)
    then show ?thesis using n1 n2 by (intro exI [of _ "n1 @ n2"]) simp
  qed
qed

lemma dump_one_failure_restores:
  assumes ao: "appends_only ops"
    and gp: "genlmsg_put skb cmd = (ehdr, skb1)"
    and d1: "ethnl_get_dump_one skb1 dev ops r = (ret, skb2)"
    and neg: "ret < 0"
  shows "genlmsg_cancel skb2 ehdr = skb"
proof (cases ehdr)
  case (Some mark)
  with gp have m: "mark = length (items skb)" and s1: "skb1 = skb\<lparr>items := items skb @ [GenlHdr cmd]\<rparr>"
    by (auto simp: genlmsg_put_def skb_put_item_def EMSGSIZE_def split: if_splits)
  obtain new where "skb2 = skb1\<lparr>items := items skb1 @ new\<rparr>"
    using ethnl_get_dump_one_appends [OF ao, of skb1 dev r] d1 by auto
  with s1 have "skb2 = skb\<lparr>items := items skb @ (GenlHdr cmd # new)\<rparr>" by simp
  then show ?thesis using Some m by (simp add: genlmsg_cancel_def del: append.simps)
next
  case None
  with gp have s1: "skb1 = skb" and small: "skb_tailroom skb < NLMSG_HDRLEN + GENL_HDRLEN"
    by (auto simp: genlmsg_put_def skb_put_item_def EMSGSIZE_def split: if_splits)
  have "skb2 = skb"
  proof (cases "fst (prepare_data ops r dev) < 0")
    case True
    with d1 s1 show ?thesis by (auto simp: ethnl_get_dump_one_def split: prod.splits)
  next
    case False
    obtain ret1 skb3 where fd: "ethnl_fill_dev skb dev (dev_attrtype ops) = (ret1, skb3)"
      by (cases "ethnl_fill_dev skb dev (dev_attrtype ops)")
    with ethnl_fill_dev_small [OF small, of dev "dev_attrtype ops"] have "ret1 < 0" by simp
    with fd have "skb3 = skb" by (simp add: ethnl_fill_dev_fails)
    with False d1 s1 fd \<open>ret1 < 0\<close> show ?thesis
      by (auto simp: ethnl_get_dump_one_def split: prod.splits)
  qed
  with None show ?thesis by (simp add: genlmsg_cancel_def)
qed


lemma visit_devs_append:
  "visit_devs ops r skb (a @ b) =
     (case visit_devs ops r skb a of None \<Rightarrow> None | Some s \<Rightarrow> visit_devs ops r s b)"
  by (induction a arbitrary: skb) (auto split: prod.splits)

lemma dump_bucket_segment:
  assumes ao: "appends_only ops"
  shows "dump_bucket ops r s_idx idx skb devs = (res, idx1, skb1) \<Longrightarrow>
    idx \<le> idx1 \<and> idx1 \<le> idx + length devs \<and>
    (res = None \<longrightarrow> idx1 = idx + length devs) \<and>
    (\<exists>seg. drop (s_idx - idx) devs = seg @ drop (idx1 - idx) devs
        \<and> visit_devs ops r skb seg = Some skb1)"
proof (induction devs arbitrary: idx skb)
  case Nil
  then show ?case by simp
next
  case (Cons dev devs)
  show ?case
  proof (cases "idx < s_idx")
    case True
    with Cons.prems have "dump_bucket ops r s_idx (idx + 1) skb devs = (res, idx1, skb1)"
      by simp
    from Cons.IH [OF this] obtain seg where
      b: "idx + 1 \<le> idx1" "idx1 \<le> idx + 1 + length devs"
         "res = None \<longrightarrow> idx1 = idx + 1 + length devs"
      and s: "drop (s_idx - (idx + 1)) devs = seg @ drop (idx1 - (idx + 1)) devs"
         "visit_devs ops r skb seg = Some skb1"
      by blast
    from True have d1: "drop (s_idx - idx) (dev # devs) = drop (s_idx - (idx + 1)) devs"
      by (simp add: drop_Cons')
    from b(1) have d2: "drop (idx1 - idx) (dev # devs) = drop (idx1 - (idx + 1)) devs"
      by (simp add: drop_Cons')
    show ?thesis using b s d1 d2 by auto
  next
    case False
    obtain ehdr skba where gp: "genlmsg_put skb (reply_cmd ops) = (ehdr, skba)"
      by (cases "genlmsg_put skb (reply_cmd ops)")
    obtain ret skb2 where d1: "ethnl_get_dump_one skba dev ops r = (ret, skb2)"
      by (cases "ethnl_get_dump_one skba dev ops r")
    have k0: "s_idx - idx = 0" "s_idx - (idx + 1) = 0" using False by simp_all
    consider (ok) "0 \<le> ret" | (skip) "ret = - EOPNOTSUPP" | (fatal) "ret < 0" "ret \<noteq> - EOPNOTSUPP"
      by (cases "0 \<le> ret") auto
    then show ?thesis
    proof cases
      case ok
      with Cons.prems False gp d1
      have "dump_bucket ops r s_idx (idx + 1) (genlmsg_end skb2 ehdr) devs = (res, idx1, skb1)"
        by simp
      from Cons.IH [OF this] obtain seg where
        b: "idx + 1 \<le> idx1" "idx1 \<le> idx + 1 + length devs"
           "res = None \<longrightarrow> idx1 = idx + 1 + length devs"
        and s: "devs = seg @ drop (idx1 - (idx + 1)) devs"
           "visit_devs ops r (genlmsg_end skb2 ehdr) seg = Some skb1"
        using k0 by auto
      from b(1) have d2: "drop (idx1 - idx) (dev # devs) = drop (idx1 - (idx + 1)) devs"
        by (simp add: drop_Cons')
      have "drop (s_idx - idx) (dev # devs) = (dev # seg) @ drop (idx1 - idx) (dev # devs)"
        using k0 d2 s(1) by simp
      moreover have "visit_devs ops r skb (dev # seg) = Some skb1"
        using gp d1 ok s(2) by simp
      ultimately have "\<exists>seg. drop (s_idx - idx) (dev # devs) = seg @ drop (idx1 - idx) (dev # devs)
          \<and> visit_devs ops r skb seg = Some skb1"
        by blast
      then show ?thesis using b by simp
    next
      case skip
      then have neg: "ret < 0" by (simp add: EOPNOTSUPP_def)
      have rst: "genlmsg_cancel skb2 ehdr = skb"
        by (rule dump_one_failure_restores [OF ao gp d1 neg])
      with Cons.prems False gp d1 skip neg
      have "dump_bucket ops r s_idx (idx + 1) skb devs = (res, idx1, skb1)"
        by simp
      from Cons.IH [OF this] obtain seg where
        b: "idx + 1 \<le> idx1" "idx1 \<le> idx + 1 + length devs"
           "res = None \<longrightarrow> idx1 = idx + 1 + length devs"
        and s: "devs = seg @ drop (idx1 - (idx + 1)) devs"
           "visit_devs ops r skb seg = Some skb1"
        using k0 by auto
      from b(1) have d2: "drop (idx1 - idx) (dev # devs) = drop (idx1 - (idx + 1)) devs"
        by (simp add: drop_Cons')
      have "drop (s_idx - idx) (dev # devs) = (dev # seg) @ drop (idx1 - idx) (dev # devs)"
        using k0 d2 s(1) by simp
      moreover have "visit_devs ops r skb (dev # seg) = Some skb1"
        using gp d1 skip neg s(2) by simp
      ultimately have "\<exists>seg. drop (s_idx - idx) (dev # devs) = seg @ drop (idx1 - idx) (dev # devs)
          \<and> visit_devs ops r skb seg = Some skb1"
        by blast
      then show ?thesis using b by simp
    next
      case fatal
      have rst: "genlmsg_cancel skb2 ehdr = skb"
        by (rule dump_one_failure_restores [OF ao gp d1 fatal(1)])
      with Cons.prems False gp d1 fatal
      have "res \<noteq> None" "idx1 = idx" "skb1 = skb"
        by (auto split: if_splits)
      then show ?thesis using k0 by simp
    qed
  qed
qed


lemma dump_bucket_exit_nonzero:
  "dump_bucket ops r s_idx idx skb devs = (Some x, idx1, skb1) \<Longrightarrow> x \<noteq> 0"
  by (induction devs arbitrary: idx skb)
    (auto split: if_splits prod.splits simp: Let_def)

lemma dump_heads_exit_nonzero:
  "dump_heads ops r h s_idx idx skb hs = (Some x, h1, idx1, skb1) \<Longrightarrow> x \<noteq> 0"
  by (induction hs arbitrary: h s_idx idx skb)
    (auto split: prod.splits option.splits dest: dump_bucket_exit_nonzero)

lemma dump_heads_segment:
  assumes ao: "appends_only ops"
  shows "dump_heads ops r h s_idx idx skb hs = (res, h1, idx1, skb1) \<Longrightarrow>
    h \<le> h1 \<and> h1 \<le> h + length hs \<and>
    (res = None \<longrightarrow> h1 = h + length hs) \<and>
    (\<exists>seg. drop s_idx (concat (take 1 hs)) @ concat (drop 1 hs) =
             seg @ drop idx1 (concat (take 1 (drop (h1 - h) hs)))
                 @ concat (drop (h1 - h + 1) hs)
        \<and> visit_devs ops r skb seg = Some skb1)"
proof (induction hs arbitrary: h s_idx idx skb)
  case Nil
  then show ?case by simp
next
  case (Cons b bs)
  obtain rb idxb skbb where db: "dump_bucket ops r s_idx 0 skb b = (rb, idxb, skbb)"
    by (cases "dump_bucket ops r s_idx 0 skb b") auto
  from dump_bucket_segment [OF ao db] obtain segb where
    bb: "idxb \<le> length b" "rb = None \<longrightarrow> idxb = length b"
    and sb: "drop s_idx b = segb @ drop idxb b" "visit_devs ops r skb segb = Some skbb"
    by auto
  show ?case
  proof (cases rb)
    case None
    with Cons.prems db
    have rec: "dump_heads ops r (h + 1) 0 idxb skbb bs = (res, h1, idx1, skb1)" by simp
    from Cons.IH [OF rec] obtain seg where
      hb: "h + 1 \<le> h1" "h1 \<le> h + 1 + length bs" "res = None \<longrightarrow> h1 = h + 1 + length bs"
      and s: "drop 0 (concat (take 1 bs)) @ concat (drop 1 bs) =
                seg @ drop idx1 (concat (take 1 (drop (h1 - (h + 1)) bs)))
                    @ concat (drop (h1 - (h + 1) + 1) bs)"
         "visit_devs ops r skbb seg = Some skb1"
      by blast
    have cbs: "concat (take 1 bs) @ concat (drop 1 bs) = concat bs"
      by (metis append_take_drop_id concat_append)
    from None bb sb have full: "drop s_idx b = segb" by simp
    from hb(1) have hh: "h1 - h = Suc (h1 - (h + 1))" by simp
    have dr: "drop (h1 - h) (b # bs) = drop (h1 - (h + 1)) bs"
      "drop (h1 - h + 1) (b # bs) = drop (h1 - (h + 1) + 1) bs"
      by (simp_all add: hh)
    have "drop s_idx (concat (take 1 (b # bs))) @ concat (drop 1 (b # bs)) =
            (segb @ seg) @ drop idx1 (concat (take 1 (drop (h1 - h) (b # bs))))
               @ concat (drop (h1 - h + 1) (b # bs))"
      using full s(1) cbs dr by simp
    moreover have "visit_devs ops r skb (segb @ seg) = Some skb1"
      using sb(2) s(2) by (simp add: visit_devs_append)
    ultimately have "\<exists>seg. drop s_idx (concat (take 1 (b # bs))) @ concat (drop 1 (b # bs)) =
            seg @ drop idx1 (concat (take 1 (drop (h1 - h) (b # bs))))
               @ concat (drop (h1 - h + 1) (b # bs))
          \<and> visit_devs ops r skb seg = Some skb1"
      by blast
    then show ?thesis using hb by simp
  next
    case (Some ret)
    with Cons.prems db have e: "res = Some ret" "h1 = h" "idx1 = idxb" "skb1 = skbb" by simp_all
    have "drop s_idx (concat (take 1 (b # bs))) @ concat (drop 1 (b # bs)) =
            segb @ drop idx1 (concat (take 1 (drop (h1 - h) (b # bs))))
               @ concat (drop (h1 - h + 1) (b # bs))"
      using e sb(1) by simp
    then have "\<exists>seg. drop s_idx (concat (take 1 (b # bs))) @ concat (drop 1 (b # bs)) =
            seg @ drop idx1 (concat (take 1 (drop (h1 - h) (b # bs))))
               @ concat (drop (h1 - h + 1) (b # bs))
          \<and> visit_devs ops r skb seg = Some skb1"
      using sb(2) e by blast
    then show ?thesis using e by simp
  qed
qed

lemma remaining_alt:
  "remaining heads cb =
     drop (args3 cb) (concat (take 1 (drop (args2 cb) heads)))
       @ concat (drop (args2 cb + 1) heads)"
proof (cases "args2 cb < length heads")
  case True
  then have "drop (args2 cb) heads = heads ! args2 cb # drop (Suc (args2 cb)) heads"
    by (simp add: Cons_nth_drop_Suc)
  with True show ?thesis by (simp add: remaining_def)
next
  case False
  then show ?thesis by (simp add: remaining_def)
qed

lemma ethnl_get_dumpit_segment:
  assumes ao: "appends_only ops"
    and run: "ethnl_get_dumpit ops r heads skb cb = (ret, cb1, skb1)"
  shows "\<exists>seg. remaining heads cb = seg @ remaining heads cb1
            \<and> visit_devs ops r skb seg = Some skb1"
    and "ret = 0 \<Longrightarrow> remaining heads cb1 = []"
proof -
  obtain res h1 idx1 where
    dh: "dump_heads ops r (args2 cb) (args3 cb) 0 skb (drop (args2 cb) heads)
           = (res, h1, idx1, skb1)"
    and cb1: "cb1 = \<lparr>args2 = h1, args3 = idx1\<rparr>"
    and ret: "ret = (case res of None \<Rightarrow> int (skb_len skb1) | Some x \<Rightarrow> x)"
    using run by (auto simp: ethnl_get_dumpit_def split: prod.splits)
  from dump_heads_segment [OF ao dh] obtain seg where
    hb: "args2 cb \<le> h1" "res = None \<longrightarrow> h1 = args2 cb + length (drop (args2 cb) heads)"
    and s: "drop (args3 cb) (concat (take 1 (drop (args2 cb) heads)))
              @ concat (drop 1 (drop (args2 cb) heads)) =
            seg @ drop idx1 (concat (take 1 (drop (h1 - args2 cb) (drop (args2 cb) heads))))
                @ concat (drop (h1 - args2 cb + 1) (drop (args2 cb) heads))"
       "visit_devs ops r skb seg = Some skb1"
    by blast
  from hb(1) have "remaining heads cb = seg @ remaining heads cb1"
    using s(1) by (simp add: remaining_alt cb1 add.commute)
  with s(2) show "\<exists>seg. remaining heads cb = seg @ remaining heads cb1
            \<and> visit_devs ops r skb seg = Some skb1"
    by blast
  show "remaining heads cb1 = []" if "ret = 0"
  proof (cases res)
    case None
    with hb(2) have "length heads \<le> h1" by simp
    then show ?thesis by (simp add: remaining_def cb1)
  next
    case (Some x)
    with dh have "x \<noteq> 0" by (auto dest: dump_heads_exit_nonzero)
    with Some ret that show ?thesis by simp
  qed
qed

lemma ethnl_get_dump_one_prepare_fails:
  "fst (prepare_data ops r dev) < 0 \<Longrightarrow>
     ethnl_get_dump_one skb dev ops r = (fst (prepare_data ops r dev), skb)"
  by (cases "prepare_data ops r dev") (simp add: ethnl_get_dump_one_def)

lemma remaining_start: "remaining heads \<lparr>args2 = 0, args3 = 0\<rparr> = concat heads"
  by (cases heads) (simp_all add: remaining_def drop_Suc)

lemma appends_only_example: "appends_only example_ops"
  unfolding appends_only_def example_ops_def nla_put_u8_def
  by (simp add: skb_put_item_appends)

lemma dump_bucket_exit:
  assumes ao: "appends_only ops"
  shows "dump_bucket ops r s_idx idx skb devs = (Some x, idx1, skb1) \<Longrightarrow>
    idx \<le> idx1 \<and> idx1 - idx < length devs \<and>
    dump_one_ret ops r skb1 (devs ! (idx1 - idx)) < 0 \<and>
    dump_one_ret ops r skb1 (devs ! (idx1 - idx)) \<noteq> - EOPNOTSUPP \<and>
    x = (if skb_len skb1 \<noteq> 0 then int (skb_len skb1)
         else dump_one_ret ops r skb1 (devs ! (idx1 - idx)))"
proof (induction devs arbitrary: idx skb)
  case Nil
  then show ?case by simp
next
  case (Cons dev devs)
  have step: "idx \<le> idx1 \<and> idx1 - idx < length (dev # devs) \<and>
    dump_one_ret ops r skb1 ((dev # devs) ! (idx1 - idx)) < 0 \<and>
    dump_one_ret ops r skb1 ((dev # devs) ! (idx1 - idx)) \<noteq> - EOPNOTSUPP \<and>
    x = (if skb_len skb1 \<noteq> 0 then int (skb_len skb1)
         else dump_one_ret ops r skb1 ((dev # devs) ! (idx1 - idx)))"
    if rec: "dump_bucket ops r s_idx (idx + 1) s devs = (Some x, idx1, skb1)" for s
  proof -
    from Cons.IH [OF rec] have ih: "idx + 1 \<le> idx1" "idx1 - (idx + 1) < length devs"
      "dump_one_ret ops r skb1 (devs ! (idx1 - (idx + 1))) < 0"
      "dump_one_ret ops r skb1 (devs ! (idx1 - (idx + 1))) \<noteq> - EOPNOTSUPP"
      "x = (if skb_len skb1 \<noteq> 0 then int (skb_len skb1)
         else dump_one_ret ops r skb1 (devs ! (idx1 - (idx + 1))))"
      by simp_all
    from ih(1) have hh: "idx1 - idx = Suc (idx1 - (idx + 1))" by simp
    show ?thesis using ih unfolding hh by simp
  qed
  show ?case
  proof (cases "idx < s_idx")
    case True
    with Cons.prems have "dump_bucket ops r s_idx (idx + 1) skb devs = (Some x, idx1, skb1)"
      by simp
    then show ?thesis by (rule step)
  next
    case False
    obtain ehdr skba where gp: "genlmsg_put skb (reply_cmd ops) = (ehdr, skba)"
      by (cases "genlmsg_put skb (reply_cmd ops)")
    obtain ret skb2 where d1: "ethnl_get_dump_one skba dev ops r = (ret, skb2)"
      by (cases "ethnl_get_dump_one skba dev ops r")
    have dr: "dump_one_ret ops r skb dev = ret"
      using gp d1 by (simp add: dump_one_ret_def)
    consider (ok) "0 \<le> ret" | (skip) "ret = - EOPNOTSUPP" | (fatal) "ret < 0" "ret \<noteq> - EOPNOTSUPP"
      by (cases "0 \<le> ret") auto
    then show ?thesis
    proof cases
      case ok
      with Cons.prems False gp d1
      have "dump_bucket ops r s_idx (idx + 1) (genlmsg_end skb2 ehdr) devs = (Some x, idx1, skb1)"
        by simp
      then show ?thesis by (rule step)
    next
      case skip
      then have neg: "ret < 0" by (simp add: EOPNOTSUPP_def)
      have rst: "genlmsg_cancel skb2 ehdr = skb"
        by (rule dump_one_failure_restores [OF ao gp d1 neg])
      with Cons.prems False gp d1 skip neg
      have "dump_bucket ops r s_idx (idx + 1) skb devs = (Some x, idx1, skb1)"
        by simp
      then show ?thesis by (rule step)
    next
      case fatal
      have rst: "genlmsg_cancel skb2 ehdr = skb"
        by (rule dump_one_failure_restores [OF ao gp d1 fatal(1)])
      with Cons.prems False gp d1 fatal
      have "x = (if skb_len skb \<noteq> 0 then int (skb_len skb) else ret)" "idx1 = idx" "skb1 = skb"
        by (auto split: if_splits)
      then show ?thesis using fatal dr by simp
    qed
  qed
qed

lemma dump_heads_exit:
  assumes ao: "appends_only ops"
  shows "dump_heads ops r h s_idx idx skb hs = (Some x, h1, idx1, skb1) \<Longrightarrow>
    h \<le> h1 \<and> h1 - h < length hs \<and> idx1 < length (hs ! (h1 - h)) \<and>
    dump_one_ret ops r skb1 (hs ! (h1 - h) ! idx1) < 0 \<and>
    dump_one_ret ops r skb1 (hs ! (h1 - h) ! idx1) \<noteq> - EOPNOTSUPP \<and>
    x = (if skb_len skb1 \<noteq> 0 then int (skb_len skb1)
         else dump_one_ret ops r skb1 (hs ! (h1 - h) ! idx1))"
proof (induction hs arbitrary: h s_idx idx skb)
  case Nil
  then show ?case by simp
next
  case (Cons b bs)
  obtain rb idxb skbb where db: "dump_bucket ops r s_idx 0 skb b = (rb, idxb, skbb)"
    by (cases "dump_bucket ops r s_idx 0 skb b") auto
  show ?case
  proof (cases rb)
    case None
    with Cons.prems db
    have rec: "dump_heads ops r (h + 1) 0 idxb skbb bs = (Some x, h1, idx1, skb1)" by simp
    from Cons.IH [OF rec] have ih: "h + 1 \<le> h1" "h1 - (h + 1) < length bs"
      "idx1 < length (bs ! (h1 - (h + 1)))"
      "dump_one_ret ops r skb1 (bs ! (h1 - (h + 1)) ! idx1) < 0"
      "dump_one_ret ops r skb1 (bs ! (h1 - (h + 1)) ! idx1) \<noteq> - EOPNOTSUPP"
      "x = (if skb_len skb1 \<noteq> 0 then int (skb_len skb1)
         else dump_one_ret ops r skb1 (bs ! (h1 - (h + 1)) ! idx1))"
      by simp_all
    from ih(1) have hh: "h1 - h = Suc (h1 - (h + 1))" by simp
    show ?thesis using ih unfolding hh by simp
  next
    case (Some ret)
    with Cons.prems db have e: "x = ret" "h1 = h" "idx1 = idxb" "skb1 = skbb" by simp_all
    from dump_bucket_exit [OF ao db [unfolded Some]] e show ?thesis by simp
  qed
qed

lemma ethnl_get_dumpit_outcome:
  assumes ao: "appends_only ops"
    and run: "ethnl_get_dumpit ops r heads skb cb = (ret, cb1, skb1)"
  shows "\<exists>seg. remaining heads cb = seg @ remaining heads cb1
      \<and> visit_devs ops r skb seg = Some skb1
      \<and> (case remaining heads cb1 of
           [] \<Rightarrow> ret = int (skb_len skb1)
         | dev # rest \<Rightarrow>
             dump_one_ret ops r skb1 dev < 0
             \<and> dump_one_ret ops r skb1 dev \<noteq> - EOPNOTSUPP
             \<and> ret = (if skb_len skb1 \<noteq> 0 then int (skb_len skb1)
                      else dump_one_ret ops r skb1 dev))"
proof -
  obtain res h1 idx1 where
    dh: "dump_heads ops r (args2 cb) (args3 cb) 0 skb (drop (args2 cb) heads)
           = (res, h1, idx1, skb1)"
    and cb1: "cb1 = \<lparr>args2 = h1, args3 = idx1\<rparr>"
    and ret: "ret = (case res of None \<Rightarrow> int (skb_len skb1) | Some x \<Rightarrow> x)"
    using run by (auto simp: ethnl_get_dumpit_def split: prod.splits)
  from ethnl_get_dumpit_segment(1) [OF ao run] obtain seg where
    seg: "remaining heads cb = seg @ remaining heads cb1"
         "visit_devs ops r skb seg = Some skb1"
    by blast
  have "case remaining heads cb1 of
           [] \<Rightarrow> ret = int (skb_len skb1)
         | dev # rest \<Rightarrow>
             dump_one_ret ops r skb1 dev < 0
             \<and> dump_one_ret ops r skb1 dev \<noteq> - EOPNOTSUPP
             \<and> ret = (if skb_len skb1 \<noteq> 0 then int (skb_len skb1)
                      else dump_one_ret ops r skb1 dev)"
  proof (cases res)
    case None
    from dump_heads_segment [OF ao dh] None
    have "h1 = args2 cb + length (drop (args2 cb) heads)" by blast
    then have "length heads \<le> h1" by simp
    then have "remaining heads cb1 = []" by (simp add: remaining_def cb1)
    with None ret show ?thesis by simp
  next
    case (Some x)
    from dump_heads_exit [OF ao dh [unfolded Some]]
    have ex: "args2 cb \<le> h1" "h1 - args2 cb < length (drop (args2 cb) heads)"
      "idx1 < length (drop (args2 cb) heads ! (h1 - args2 cb))"
      "dump_one_ret ops r skb1 (drop (args2 cb) heads ! (h1 - args2 cb) ! idx1) < 0"
      "dump_one_ret ops r skb1 (drop (args2 cb) heads ! (h1 - args2 cb) ! idx1) \<noteq> - EOPNOTSUPP"
      "x = (if skb_len skb1 \<noteq> 0 then int (skb_len skb1)
         else dump_one_ret ops r skb1 (drop (args2 cb) heads ! (h1 - args2 cb) ! idx1))"
      by simp_all
    from ex(1,2) have lt: "h1 < length heads" by simp
    from ex(1,2) have nth: "drop (args2 cb) heads ! (h1 - args2 cb) = heads ! h1" by simp
    from ex(3) have "drop idx1 (heads ! h1) = heads ! h1 ! idx1 # drop (Suc idx1) (heads ! h1)"
      unfolding nth by (simp add: Cons_nth_drop_Suc)
    with lt have "remaining heads cb1 =
        heads ! h1 ! idx1 # drop (Suc idx1) (heads ! h1) @ concat (drop (h1 + 1) heads)"
      by (simp add: remaining_def cb1)
    with ex(4,5,6) Some ret show ?thesis unfolding nth by simp
  qed
  with seg show ?thesis by blast
qed

lemma dump_one_success_shape:
  assumes ao: "appends_only ops"
    and gp: "genlmsg_put skb cmd = (ehdr, skb1)"
    and d1: "ethnl_get_dump_one skb1 dev ops r = (ret, skb2)"
    and ok: "0 \<le> ret"
  shows "\<exists>new. genlmsg_end skb2 ehdr = skb\<lparr>items := items skb @ GenlHdr cmd # new\<rparr>"
proof (cases ehdr)
  case (Some mark)
  with gp have s1: "skb1 = skb\<lparr>items := items skb @ [GenlHdr cmd]\<rparr>"
    by (auto simp: genlmsg_put_def skb_put_item_def EMSGSIZE_def split: if_splits)
  obtain new where "skb2 = skb1\<lparr>items := items skb1 @ new\<rparr>"
    using ethnl_get_dump_one_appends [OF ao, of skb1 dev r] d1 by auto
  with s1 have "skb2 = skb\<lparr>items := items skb @ GenlHdr cmd # new\<rparr>" by simp
  then show ?thesis by (auto simp: genlmsg_end_def)
next
  case None
  with gp have s1: "skb1 = skb" and small: "skb_tailroom skb < NLMSG_HDRLEN + GENL_HDRLEN"
    by (auto simp: genlmsg_put_def skb_put_item_def EMSGSIZE_def split: if_splits)
  have "ret < 0"
  proof (cases "fst (prepare_data ops r dev) < 0")
    case True
    with d1 s1 show ?thesis by (auto simp: ethnl_get_dump_one_def split: prod.splits)
  next
    case False
    obtain ret1 skb3 where fd: "ethnl_fill_dev skb dev (dev_attrtype ops) = (ret1, skb3)"
      by (cases "ethnl_fill_dev skb dev (dev_attrtype ops)")
    with ethnl_fill_dev_small [OF small, of dev "dev_attrtype ops"] have "ret1 < 0" by simp
    with False d1 s1 fd show ?thesis
      by (auto simp: ethnl_get_dump_one_def split: prod.splits)
  qed
  with ok show ?thesis by simp
qed

lemma visit_devs_grows:
  assumes ao: "appends_only ops"
  shows "visit_devs ops r skb seg = Some skb1 \<Longrightarrow>
     skb1 = skb \<or> (\<exists>new. skb1 = skb\<lparr>items := items skb @ GenlHdr (reply_cmd ops) # new\<rparr>)"
proof (induction seg arbitrary: skb)
  case Nil
  then show ?case by simp
next
  case (Cons dev seg)
  obtain ehdr skba where gp: "genlmsg_put skb (reply_cmd ops) = (ehdr, skba)"
    by (cases "genlmsg_put skb (reply_cmd ops)")
  obtain ret skb2 where d1: "ethnl_get_dump_one skba dev ops r = (ret, skb2)"
    by (cases "ethnl_get_dump_one skba dev ops r")
  show ?case
  proof (cases "0 \<le> ret")
    case True
    from dump_one_success_shape [OF ao gp d1 True] obtain new where
      e: "genlmsg_end skb2 ehdr = skb\<lparr>items := items skb @ GenlHdr (reply_cmd ops) # new\<rparr>"
      by blast
    from Cons.prems gp d1 True
    have "visit_devs ops r (genlmsg_end skb2 ehdr) seg = Some skb1" by simp
    from Cons.IH [OF this] consider "skb1 = genlmsg_end skb2 ehdr"
      | new' where "skb1 = (genlmsg_end skb2 ehdr)
          \<lparr>items := items (genlmsg_end skb2 ehdr) @ GenlHdr (reply_cmd ops) # new'\<rparr>"
      by blast
    then show ?thesis
    proof cases
      case 1
      with e show ?thesis by blast
    next
      case 2
      with e have "skb1 = skb\<lparr>items := items skb @
          GenlHdr (reply_cmd ops) # (new @ GenlHdr (reply_cmd ops) # new')\<rparr>"
        by simp
      then show ?thesis by blast
    qed
  next
    case False
    with Cons.prems gp d1 have "visit_devs ops r skb seg = Some skb1"
      by (auto split: if_splits)
    from Cons.IH [OF this] show ?thesis .
  qed
qed

lemma ethnl_get_dumpit_progress:
  assumes ao: "appends_only ops"
    and fresh: "items skb = []"
    and ok: "\<forall>dev\<in>set (remaining heads cb).
               0 \<le> dump_one_ret ops r skb dev \<or> dump_one_ret ops r skb dev = - EOPNOTSUPP"
    and run: "ethnl_get_dumpit ops r heads skb cb = (ret, cb1, skb1)"
  shows "0 \<le> ret \<and> (ret = 0 \<longrightarrow> remaining heads cb1 = [])
     \<and> (0 < ret \<longrightarrow> length (remaining heads cb1) < length (remaining heads cb))"
proof -
  from ethnl_get_dumpit_outcome [OF ao run] obtain seg where
    seg: "remaining heads cb = seg @ remaining heads cb1"
    and vis: "visit_devs ops r skb seg = Some skb1"
    and out: "case remaining heads cb1 of
           [] \<Rightarrow> ret = int (skb_len skb1)
         | dev # rest \<Rightarrow>
             dump_one_ret ops r skb1 dev < 0
             \<and> dump_one_ret ops r skb1 dev \<noteq> - EOPNOTSUPP
             \<and> ret = (if skb_len skb1 \<noteq> 0 then int (skb_len skb1)
                      else dump_one_ret ops r skb1 dev)"
    by blast
  have l0: "skb_len skb = 0" using fresh by (simp add: skb_len_def)
  from visit_devs_grows [OF ao vis] have shape: "skb1 = skb \<or> 0 < skb_len skb1"
    by (auto simp: NLMSG_HDRLEN_def)
  have nonempty: "seg \<noteq> []" if "skb1 \<noteq> skb"
    using vis that by (cases seg) auto
  show ?thesis
  proof (cases "remaining heads cb1")
    case Nil
    with out have r: "ret = int (skb_len skb1)" by simp
    have "length (remaining heads cb1) < length (remaining heads cb)" if "0 < ret"
    proof -
      from that r l0 have "skb1 \<noteq> skb" by auto
      from nonempty [OF this] seg show ?thesis by simp
    qed
    with r Nil show ?thesis by simp
  next
    case (Cons dev rest)
    with out have f: "dump_one_ret ops r skb1 dev < 0"
      "dump_one_ret ops r skb1 dev \<noteq> - EOPNOTSUPP"
      "ret = (if skb_len skb1 \<noteq> 0 then int (skb_len skb1) else dump_one_ret ops r skb1 dev)"
      by simp_all
    have "dev \<in> set (remaining heads cb)" using seg Cons by simp
    with ok f have ne: "skb1 \<noteq> skb" by auto
    with shape have pos: "0 < skb_len skb1" by simp
    from nonempty [OF ne] seg have "length (remaining heads cb1) < length (remaining heads cb)"
      by simp
    with pos f(3) show ?thesis by simp
  qed
qed

lemma dump_session_complete:
  assumes ao: "appends_only ops"
  shows "(\<forall>skb\<in>set skbs. items skb = []) \<Longrightarrow>
    (\<forall>skb\<in>set skbs. \<forall>dev\<in>set (remaining heads cb).
        0 \<le> dump_one_ret ops r skb dev \<or> dump_one_ret ops r skb dev = - EOPNOTSUPP) \<Longrightarrow>
    length (remaining heads cb) < length skbs \<Longrightarrow>
    \<exists>outs cbf segs. dump_session ops r heads skbs cb = (outs, cbf)
      \<and> outs \<noteq> [] \<and> fst (last outs) = 0 \<and> (\<forall>out\<in>set (butlast outs). 0 < fst out)
      \<and> length outs \<le> length (remaining heads cb) + 1
      \<and> length segs = length outs
      \<and> concat segs = remaining heads cb
      \<and> remaining heads cbf = []
      \<and> map2 (visit_devs ops r) skbs segs = map (\<lambda>(ret, skb1). Some skb1) outs"
proof (induction skbs arbitrary: cb)
  case Nil
  then show ?case by simp
next
  case (Cons skb skbs)
  obtain ret cb1 skb1 where run: "ethnl_get_dumpit ops r heads skb cb = (ret, cb1, skb1)"
    by (cases "ethnl_get_dumpit ops r heads skb cb") auto
  from ethnl_get_dumpit_segment(1) [OF ao run] obtain seg where
    seg: "remaining heads cb = seg @ remaining heads cb1"
         "visit_devs ops r skb seg = Some skb1"
    by blast
  have fresh: "items skb = []" using Cons.prems(1) by simp
  have ok: "\<forall>dev\<in>set (remaining heads cb).
               0 \<le> dump_one_ret ops r skb dev \<or> dump_one_ret ops r skb dev = - EOPNOTSUPP"
    using Cons.prems(2) by simp
  from ethnl_get_dumpit_progress [OF ao fresh ok run]
  have pr: "0 \<le> ret" "ret = 0 \<longrightarrow> remaining heads cb1 = []"
    "0 < ret \<longrightarrow> length (remaining heads cb1) < length (remaining heads cb)"
    by simp_all
  show ?case
  proof (cases "0 < ret")
    case True
    have p1: "\<forall>skb\<in>set skbs. items skb = []" using Cons.prems(1) by simp
    have p2: "\<forall>skb\<in>set skbs. \<forall>dev\<in>set (remaining heads cb1).
        0 \<le> dump_one_ret ops r skb dev \<or> dump_one_ret ops r skb dev = - EOPNOTSUPP"
      using Cons.prems(2) seg(1) by simp
    have p3: "length (remaining heads cb1) < length skbs"
      using pr(3) True Cons.prems(3) by simp
    from Cons.IH [OF p1 p2 p3] obtain outs1 cbf segs1 where
      s: "dump_session ops r heads skbs cb1 = (outs1, cbf)"
         "outs1 \<noteq> []" "fst (last outs1) = 0" "\<forall>out\<in>set (butlast outs1). 0 < fst out"
         "length outs1 \<le> length (remaining heads cb1) + 1"
         "length segs1 = length outs1"
         "concat segs1 = remaining heads cb1"
         "remaining heads cbf = []"
         "map2 (visit_devs ops r) skbs segs1 = map (\<lambda>(ret, skb1). Some skb1) outs1"
      by blast
    have ds: "dump_session ops r heads (skb # skbs) cb = ((ret, skb1) # outs1, cbf)"
      using run True s(1) by simp
    have len: "length ((ret, skb1) # outs1) \<le> length (remaining heads cb) + 1"
      using s(5) pr(3) True by simp
    have "((ret, skb1) # outs1) \<noteq> [] \<and> fst (last ((ret, skb1) # outs1)) = 0
      \<and> (\<forall>out\<in>set (butlast ((ret, skb1) # outs1)). 0 < fst out)
      \<and> length ((ret, skb1) # outs1) \<le> length (remaining heads cb) + 1
      \<and> length (seg # segs1) = length ((ret, skb1) # outs1)
      \<and> concat (seg # segs1) = remaining heads cb
      \<and> remaining heads cbf = []
      \<and> map2 (visit_devs ops r) (skb # skbs) (seg # segs1)
          = map (\<lambda>(ret, skb1). Some skb1) ((ret, skb1) # outs1)"
      using s(2-4,6-9) seg len True by simp
    with ds show ?thesis by blast
  next
    case False
    with pr have z: "ret = 0" and e: "remaining heads cb1 = []" by simp_all
    have ds: "dump_session ops r heads (skb # skbs) cb = ([(ret, skb1)], cb1)"
      using run False by simp
    have "[(ret, skb1)] \<noteq> [] \<and> fst (last [(ret, skb1)]) = 0
      \<and> (\<forall>out\<in>set (butlast [(ret, skb1)]). 0 < fst out)
      \<and> length [(ret, skb1)] \<le> length (remaining heads cb) + 1
      \<and> length [seg] = length [(ret, skb1)]
      \<and> concat [seg] = remaining heads cb
      \<and> remaining heads cb1 = []
      \<and> map2 (visit_devs ops r) (skb # skbs) [seg]
          = map (\<lambda>(ret, skb1). Some skb1) [(ret, skb1)]"
      using seg z e by simp
    with ds show ?thesis by blast
  qed
qed

lemma visit_devs_not_supported:
  "visit_devs ops r skb (filter (\<lambda>dev. fst (prepare_data ops r dev) \<noteq> - EOPNOTSUPP) seg)
     = visit_devs ops r skb seg"
proof (induction seg arbitrary: skb)
  case Nil
  then show ?case by simp
next
  case (Cons dev seg)
  show ?case
  proof (cases "fst (prepare_data ops r dev) = - EOPNOTSUPP")
    case True
    then have "fst (prepare_data ops r dev) < 0" by (simp add: EOPNOTSUPP_def)
    from ethnl_get_dump_one_prepare_fails [OF this] True
    have "ethnl_get_dump_one s dev ops r = (- EOPNOTSUPP, s)" for s by simp
    with True Cons.IH show ?thesis by (simp add: EOPNOTSUPP_def split: prod.splits)
  next
    case False
    with Cons.IH show ?thesis by (simp split: prod.splits)
  qed
qed

lemma dump_one_ret_prepare_fails:
  "fst (prepare_data ops r dev) < 0 \<Longrightarrow>
     dump_one_ret ops r skb dev = fst (prepare_data ops r dev)"
  by (simp add: dump_one_ret_def ethnl_get_dump_one_prepare_fails)

lemma appends_only_failing: "appends_only failing_ops"
  unfolding appends_only_def failing_ops_def nla_put_u8_def
  by (simp add: skb_put_item_appends)

lemma failing_step:
  "ethnl_get_dumpit failing_ops () example_heads \<lparr>items = [], cap = 120\<rparr>
       \<lparr>args2 = 0, args3 = 0\<rparr> =
     (100, \<lparr>args2 = 2, args3 = 1\<rparr>,
      \<lparr>items =
         [GenlHdr 2, NestStart (A_SETTINGS ETHTOOL_A_SETTINGS_DEV),
          AttrU32 (A_DEV ETHTOOL_A_DEV_INDEX) 1,
          AttrString (A_DEV ETHTOOL_A_DEV_NAME) ''lo'',
          AttrU8 (A_LINKSTATE ETHTOOL_A_LINKSTATE_LINK) 1, GenlHdr 2,
          NestStart (A_SETTINGS ETHTOOL_A_SETTINGS_DEV),
          AttrU32 (A_DEV ETHTOOL_A_DEV_INDEX) 2,
          AttrString (A_DEV ETHTOOL_A_DEV_NAME) ''eth0'',
          AttrU8 (A_LINKSTATE ETHTOOL_A_LINKSTATE_LINK) 1],
         cap = 120\<rparr>)"
  by code_simp

lemma failing_step_again:
  "ethnl_get_dumpit failing_ops () example_heads \<lparr>items = [], cap = 120\<rparr>
       \<lparr>args2 = 2, args3 = 1\<rparr> =
     (- ENODEV, \<lparr>args2 = 2, args3 = 1\<rparr>, \<lparr>items = [], cap = 120\<rparr>)"
  by code_simp

lemma remaining_example:
  "remaining example_heads \<lparr>args2 = 2, args3 = 1\<rparr> =
     [\<lparr>ifindex = 3, name = ''eth1'', present = False, refcnt = 1\<rparr>,
      \<lparr>ifindex = 4, name = ''eth2'', present = True, refcnt = 1\<rparr>]"
  by code_simp

lemma example_session_fuel:
  "dump_session example_ops () example_heads
     [\<lparr>items = [], cap = 100\<rparr>, \<lparr>items = [], cap = 100\<rparr>, \<lparr>items = [], cap = 100\<rparr>,
      \<lparr>items = [], cap = 100\<rparr>, \<lparr>items = [], cap = 100\<rparr>]
     \<lparr>args2 = 0, args3 = 0\<rparr> =
   ([(100,
      \<lparr>items =
         [GenlHdr 2, NestStart (A_SETTINGS ETHTOOL_A_SETTINGS_DEV),
          AttrU32 (A_DEV ETHTOOL_A_DEV_INDEX) 1,
          AttrString (A_DEV ETHTOOL_A_DEV_NAME) ''lo'',
          AttrU8 (A_LINKSTATE ETHTOOL_A_LINKSTATE_LINK) 1, GenlHdr 2,
          NestStart (A_SETTINGS ETHTOOL_A_SETTINGS_DEV),
          AttrU32 (A_DEV ETHTOOL_A_DEV_INDEX) 2,
          AttrString (A_DEV ETHTOOL_A_DEV_NAME) ''eth0'',
          AttrU8 (A_LINKSTATE ETHTOOL_A_LINKSTATE_LINK) 1],
         cap = 100\<rparr>),
     (52,
      \<lparr>items =
         [GenlHdr 2, NestStart (A_SETTINGS ETHTOOL_A_SETTINGS_DEV),
          AttrU32 (A_DEV ETHTOOL_A_DEV_INDEX) 4,
          AttrString (A_DEV ETHTOOL_A_DEV_NAME) ''eth2'',
          AttrU8 (A_LINKSTATE ETHTOOL_A_LINKSTATE_LINK) 1],
         cap = 100\<rparr>),
     (0, \<lparr>items = [], cap = 100\<rparr>)],
    \<lparr>args2 = 4, args3 = 0\<rparr>)"
  by code_simp

lemma example_devices_served:
  "\<forall>skb\<in>set [\<lparr>items = [], cap = 100\<rparr>, \<lparr>items = [], cap = 100\<rparr>, \<lparr>items = [], cap = 100\<rparr>,
      \<lparr>items = [], cap = 100\<rparr>, \<lparr>items = [], cap = 100\<rparr>].
     \<forall>dev\<in>set (remaining example_heads \<lparr>args2 = 0, args3 = 0\<rparr>).
       0 \<le> dump_one_ret example_ops () skb dev
       \<or> dump_one_ret example_ops () skb dev = - EOPNOTSUPP"
  by code_simp

lemma skipping_step:
  "ethnl_get_dumpit example_ops () example_heads \<lparr>items = [], cap = 200\<rparr>
       \<lparr>args2 = 2, args3 = 0\<rparr> =
     (104, \<lparr>args2 = 4, args3 = 1\<rparr>,
      \<lparr>items =
         [GenlHdr 2, NestStart (A_SETTINGS ETHTOOL_A_SETTINGS_DEV),
          AttrU32 (A_DEV ETHTOOL_A_DEV_INDEX) 2,
          AttrString (A_DEV ETHTOOL_A_DEV_NAME) ''eth0'',
          AttrU8 (A_LINKSTATE ETHTOOL_A_LINKSTATE_LINK) 1, GenlHdr 2,
          NestStart (A_SETTINGS ETHTOOL_A_SETTINGS_DEV),
          AttrU32 (A_DEV ETHTOOL_A_DEV_INDEX) 4,
          AttrString (A_DEV ETHTOOL_A_DEV_NAME) ''eth2'',
          AttrU8 (A_LINKSTATE ETHTOOL_A_LINKSTATE_LINK) 1],
         cap = 200\<rparr>)"
  by code_simp

lemma remaining_example_skipping:
  "remaining example_heads \<lparr>args2 = 2, args3 = 0\<rparr> =
     [\<lparr>ifindex = 2, name = ''eth0'', present = True, refcnt = 1\<rparr>,
      \<lparr>ifindex = 3, name = ''eth1'', present = False, refcnt = 1\<rparr>,
      \<lparr>ifindex = 4, name = ''eth2'', present = True, refcnt = 1\<rparr>]"
  "remaining example_heads \<lparr>args2 = 4, args3 = 1\<rparr> = []"
  by code_simp+

lemma example_not_supported:
  "filter (\<lambda>dev. fst (prepare_data example_ops () dev) \<noteq> - EOPNOTSUPP)
     [\<lparr>ifindex = 2, name = ''eth0'', present = True, refcnt = 1\<rparr>,
      \<lparr>ifindex = 3, name = ''eth1'', present = False, refcnt = 1\<rparr>,
      \<lparr>ifindex = 4, name = ''eth2'', present = True, refcnt = 1\<rparr>] =
     [\<lparr>ifindex = 2, name = ''eth0'', present = True, refcnt = 1\<rparr>,
      \<lparr>ifindex = 4, name = ''eth2'', present = True, refcnt = 1\<rparr>]"
  by (simp add: example_ops_def EOPNOTSUPP_def)

section \<open>The dump\<close>

text \<open>
  C8. One call of the dump step, from any cursor and with any buffer. The devices that
  were left at the cursor are the devices \<open>seg\<close> the call went through, followed by
  those left at the cursor it stores. The buffer it leaves is the one that results from
  going through \<open>seg\<close> device by device: a device is encoded as one message, or, when it
  fails with \<open>-EOPNOTSUPP\<close>, its message is cancelled, the buffer is as before it, and
  the loop goes on with the next device. A device for which \<open>prepare_data\<close> returns
  \<open>-EOPNOTSUPP\<close> contributes nothing: the buffer is the same as without these devices.
  Either nothing is left at the stored cursor and the call returns the length of the
  buffer; or the call has stopped at the first device left there, which failed with
  another error (that of \<open>prepare_data\<close> when it is \<open>prepare_data\<close> that failed): the
  messages encoded before it in this call are in the buffer, the call returns the length
  of the buffer if that is not zero, and the error if nothing has been encoded.
\<close>

theorem ethnl_get_dumpit_device_failure:
  assumes "appends_only ops"
    and "ethnl_get_dumpit ops req_info dev_index_head skb cb = (ret, cb1, skb1)"
  shows "\<exists>seg. remaining dev_index_head cb = seg @ remaining dev_index_head cb1
      \<and> visit_devs ops req_info skb seg = Some skb1
      \<and> visit_devs ops req_info skb
          (filter (\<lambda>dev. fst (prepare_data ops req_info dev) \<noteq> - EOPNOTSUPP) seg) = Some skb1
      \<and> (case remaining dev_index_head cb1 of
           [] \<Rightarrow> ret = int (skb_len skb1)
         | dev # rest \<Rightarrow>
             dump_one_ret ops req_info skb1 dev < 0
             \<and> dump_one_ret ops req_info skb1 dev \<noteq> - EOPNOTSUPP
             \<and> (fst (prepare_data ops req_info dev) < 0 \<longrightarrow>
                  dump_one_ret ops req_info skb1 dev = fst (prepare_data ops req_info dev))
             \<and> ret = (if skb_len skb1 \<noteq> 0 then int (skb_len skb1)
                      else dump_one_ret ops req_info skb1 dev))"
proof -
  from ethnl_get_dumpit_outcome [OF assms] obtain seg where
    seg: "remaining dev_index_head cb = seg @ remaining dev_index_head cb1"
    and vis: "visit_devs ops req_info skb seg = Some skb1"
    and out: "case remaining dev_index_head cb1 of
           [] \<Rightarrow> ret = int (skb_len skb1)
         | dev # rest \<Rightarrow>
             dump_one_ret ops req_info skb1 dev < 0
             \<and> dump_one_ret ops req_info skb1 dev \<noteq> - EOPNOTSUPP
             \<and> ret = (if skb_len skb1 \<noteq> 0 then int (skb_len skb1)
                      else dump_one_ret ops req_info skb1 dev)"
    by blast
  have "case remaining dev_index_head cb1 of
           [] \<Rightarrow> ret = int (skb_len skb1)
         | dev # rest \<Rightarrow>
             dump_one_ret ops req_info skb1 dev < 0
             \<and> dump_one_ret ops req_info skb1 dev \<noteq> - EOPNOTSUPP
             \<and> (fst (prepare_data ops req_info dev) < 0 \<longrightarrow>
                  dump_one_ret ops req_info skb1 dev = fst (prepare_data ops req_info dev))
             \<and> ret = (if skb_len skb1 \<noteq> 0 then int (skb_len skb1)
                      else dump_one_ret ops req_info skb1 dev)"
  proof (cases "remaining dev_index_head cb1")
    case Nil
    with out show ?thesis by simp
  next
    case (Cons dev rest)
    with out show ?thesis by (simp add: dump_one_ret_prepare_fails)
  qed
  with seg vis show ?thesis
    by (intro exI [of _ seg]) (simp add: visit_devs_not_supported)
qed

theorem ethnl_get_dumpit_device_failure_witness:
  "(\<exists>seg. concat example_heads =
       seg @ [\<lparr>ifindex = 3, name = ''eth1'', present = False, refcnt = 1\<rparr>,
              \<lparr>ifindex = 4, name = ''eth2'', present = True, refcnt = 1\<rparr>]
     \<and> visit_devs failing_ops () \<lparr>items = [], cap = 120\<rparr> seg =
         Some (snd (snd (ethnl_get_dumpit failing_ops () example_heads
                 \<lparr>items = [], cap = 120\<rparr> \<lparr>args2 = 0, args3 = 0\<rparr>))))
   \<and> fst (ethnl_get_dumpit failing_ops () example_heads
                 \<lparr>items = [], cap = 120\<rparr> \<lparr>args2 = 0, args3 = 0\<rparr>) = 100
   \<and> fst (ethnl_get_dumpit failing_ops () example_heads
                 \<lparr>items = [], cap = 120\<rparr> \<lparr>args2 = 2, args3 = 1\<rparr>) = - ENODEV
   \<and> visit_devs example_ops () \<lparr>items = [], cap = 200\<rparr>
         [\<lparr>ifindex = 2, name = ''eth0'', present = True, refcnt = 1\<rparr>,
          \<lparr>ifindex = 4, name = ''eth2'', present = True, refcnt = 1\<rparr>] =
       Some (snd (snd (ethnl_get_dumpit example_ops () example_heads
                 \<lparr>items = [], cap = 200\<rparr> \<lparr>args2 = 2, args3 = 0\<rparr>)))
   \<and> fst (ethnl_get_dumpit example_ops () example_heads
                 \<lparr>items = [], cap = 200\<rparr> \<lparr>args2 = 2, args3 = 0\<rparr>) = 104"
proof -
  let ?skb = "\<lparr>items = [], cap = 120\<rparr>"
  let ?R = "ethnl_get_dumpit failing_ops () example_heads ?skb \<lparr>args2 = 0, args3 = 0\<rparr>"
  have run: "?R = (100, \<lparr>args2 = 2, args3 = 1\<rparr>, snd (snd ?R))"
    unfolding failing_step by simp
  from ethnl_get_dumpit_device_failure [OF appends_only_failing run]
  obtain seg where
    a: "remaining example_heads \<lparr>args2 = 0, args3 = 0\<rparr> =
          seg @ remaining example_heads \<lparr>args2 = 2, args3 = 1\<rparr>"
    and b: "visit_devs failing_ops () ?skb seg = Some (snd (snd ?R))"
    by blast
  have c: "fst ?R = 100" unfolding failing_step by simp
  let ?Q = "ethnl_get_dumpit failing_ops () example_heads ?skb \<lparr>args2 = 2, args3 = 1\<rparr>"
  have d: "fst ?Q = - ENODEV" unfolding failing_step_again by simp
  from a have e: "concat example_heads =
       seg @ [\<lparr>ifindex = 3, name = ''eth1'', present = False, refcnt = 1\<rparr>,
              \<lparr>ifindex = 4, name = ''eth2'', present = True, refcnt = 1\<rparr>]"
    unfolding remaining_example remaining_start .
  let ?skb2 = "\<lparr>items = [], cap = 200\<rparr>"
  let ?S = "ethnl_get_dumpit example_ops () example_heads ?skb2 \<lparr>args2 = 2, args3 = 0\<rparr>"
  have run3: "?S = (104, \<lparr>args2 = 4, args3 = 1\<rparr>, snd (snd ?S))"
    unfolding skipping_step by simp
  from ethnl_get_dumpit_device_failure [OF appends_only_example run3]
  obtain seg3 where
    f: "remaining example_heads \<lparr>args2 = 2, args3 = 0\<rparr> =
          seg3 @ remaining example_heads \<lparr>args2 = 4, args3 = 1\<rparr>"
    and g: "visit_devs example_ops () ?skb2
          (filter (\<lambda>dev. fst (prepare_data example_ops () dev) \<noteq> - EOPNOTSUPP) seg3)
            = Some (snd (snd ?S))"
    by blast
  from f have s3: "seg3 = [\<lparr>ifindex = 2, name = ''eth0'', present = True, refcnt = 1\<rparr>,
      \<lparr>ifindex = 3, name = ''eth1'', present = False, refcnt = 1\<rparr>,
      \<lparr>ifindex = 4, name = ''eth2'', present = True, refcnt = 1\<rparr>]"
    unfolding remaining_example_skipping by simp
  have h: "visit_devs example_ops () ?skb2
         [\<lparr>ifindex = 2, name = ''eth0'', present = True, refcnt = 1\<rparr>,
          \<lparr>ifindex = 4, name = ''eth2'', present = True, refcnt = 1\<rparr>] = Some (snd (snd ?S))"
    using g unfolding s3 example_not_supported .
  have i: "fst ?S = 104" unfolding skipping_step by simp
  from e b c d h i show ?thesis by blast
qed

text \<open>
  C3, as the code has it. A dump session over an unchanged registry: the transport
  calls the dump step with an empty buffer and the cursor the previous call stored, as
  long as the step returns a positive length. If every device left at the first cursor,
  taken first in any of these buffers, is either encoded or not supported (none fails
  with another error, and the message of each fits an empty buffer), then the session
  ends, after at most one call more than there are devices left, with a call that
  returns 0; all calls before it return a positive length. The devices left at the first
  cursor are, in iteration order, the devices the first call went through, then those
  of the second call, and so on: each exactly once; the buffer of each call is the one
  that results from going through its devices one after the other, each encoded as one
  message or skipped as not supported. Nothing is left at the last cursor. From cursor
  (0, 0) the calls go through every device of every bucket.
\<close>

theorem dump_session_visits_each_device_once:
  assumes "appends_only ops"
    and "\<forall>skb\<in>set skbs. items skb = []"
    and "\<forall>skb\<in>set skbs. \<forall>dev\<in>set (remaining dev_index_head cb).
           0 \<le> dump_one_ret ops req_info skb dev
           \<or> dump_one_ret ops req_info skb dev = - EOPNOTSUPP"
    and "length (remaining dev_index_head cb) < length skbs"
  shows "\<exists>outs cbf segs. dump_session ops req_info dev_index_head skbs cb = (outs, cbf)
      \<and> outs \<noteq> [] \<and> fst (last outs) = 0 \<and> (\<forall>out\<in>set (butlast outs). 0 < fst out)
      \<and> length outs \<le> length (remaining dev_index_head cb) + 1
      \<and> length segs = length outs
      \<and> concat segs = remaining dev_index_head cb
      \<and> remaining dev_index_head cbf = []
      \<and> map2 (visit_devs ops req_info) skbs segs = map (\<lambda>(ret, skb1). Some skb1) outs
      \<and> (cb = \<lparr>args2 = 0, args3 = 0\<rparr> \<longrightarrow> concat segs = concat dev_index_head)"
proof -
  from dump_session_complete [OF assms] obtain outs cbf segs where
    s: "dump_session ops req_info dev_index_head skbs cb = (outs, cbf)"
       "outs \<noteq> []" "fst (last outs) = 0" "\<forall>out\<in>set (butlast outs). 0 < fst out"
       "length outs \<le> length (remaining dev_index_head cb) + 1"
       "length segs = length outs"
       "concat segs = remaining dev_index_head cb"
       "remaining dev_index_head cbf = []"
       "map2 (visit_devs ops req_info) skbs segs = map (\<lambda>(ret, skb1). Some skb1) outs"
    by blast
  from s(7) have "cb = \<lparr>args2 = 0, args3 = 0\<rparr> \<longrightarrow> concat segs = concat dev_index_head"
    by (simp add: remaining_start)
  with s show ?thesis by blast
qed

theorem dump_session_visits_each_device_once_witness:
  "\<exists>segs. length segs = 3
      \<and> concat segs = concat example_heads
      \<and> map2 (visit_devs example_ops ())
           [\<lparr>items = [], cap = 100\<rparr>, \<lparr>items = [], cap = 100\<rparr>, \<lparr>items = [], cap = 100\<rparr>,
            \<lparr>items = [], cap = 100\<rparr>, \<lparr>items = [], cap = 100\<rparr>] segs =
         map (\<lambda>(ret, skb1). Some skb1)
           (fst (dump_session example_ops () example_heads
              [\<lparr>items = [], cap = 100\<rparr>, \<lparr>items = [], cap = 100\<rparr>, \<lparr>items = [], cap = 100\<rparr>,
               \<lparr>items = [], cap = 100\<rparr>, \<lparr>items = [], cap = 100\<rparr>]
              \<lparr>args2 = 0, args3 = 0\<rparr>))
      \<and> map fst (fst (dump_session example_ops () example_heads
              [\<lparr>items = [], cap = 100\<rparr>, \<lparr>items = [], cap = 100\<rparr>, \<lparr>items = [], cap = 100\<rparr>,
               \<lparr>items = [], cap = 100\<rparr>, \<lparr>items = [], cap = 100\<rparr>]
              \<lparr>args2 = 0, args3 = 0\<rparr>)) = [100, 52, 0]"
proof -
  let ?skbs = "[\<lparr>items = [], cap = 100\<rparr>, \<lparr>items = [], cap = 100\<rparr>, \<lparr>items = [], cap = 100\<rparr>,
                \<lparr>items = [], cap = 100\<rparr>, \<lparr>items = [], cap = 100\<rparr>]"
  let ?cb = "\<lparr>args2 = 0, args3 = 0\<rparr>"
  let ?S = "dump_session example_ops () example_heads ?skbs ?cb"
  note dump_session.simps [simp del]
  have e: "length (fst ?S) = 3" "map fst (fst ?S) = [100, 52, 0]"
    unfolding example_session_fuel by simp_all
  have fresh: "\<forall>skb\<in>set ?skbs. items skb = []" by simp
  have fuel: "length (remaining example_heads ?cb) < length ?skbs"
    by (simp add: remaining_start example_heads_def)
  from dump_session_visits_each_device_once
    [OF appends_only_example fresh example_devices_served fuel]
  obtain outs cbf segs where r: "?S = (outs, cbf)"
    and a: "length segs = length outs"
    and b: "map2 (visit_devs example_ops ()) ?skbs segs = map (\<lambda>(ret, skb1). Some skb1) outs"
    and c: "?cb = ?cb \<longrightarrow> concat segs = concat example_heads"
    by blast
  from r have o: "outs = fst ?S" by simp
  from c have "concat segs = concat example_heads" by simp
  with a b e show ?thesis unfolding o by (intro exI [of _ segs]) simp
qed

text \<open>
  C3 as stated fails when a device fails with an error other than \<open>-EOPNOTSUPP\<close>. With
  the device of index 3 failing with \<open>-ENODEV\<close>, the first call encodes the two
  devices before it and returns their length; the second call, from the cursor the
  first one stored, returns \<open>-ENODEV\<close> and the session is over: the cursor is still at
  that device, and the device of index 4 after it has never been visited.
\<close>

theorem dump_session_device_failure_counterexample:
  "dump_session failing_ops () example_heads
     [\<lparr>items = [], cap = 120\<rparr>, \<lparr>items = [], cap = 120\<rparr>, \<lparr>items = [], cap = 120\<rparr>,
      \<lparr>items = [], cap = 120\<rparr>, \<lparr>items = [], cap = 120\<rparr>]
     \<lparr>args2 = 0, args3 = 0\<rparr> =
   ([(100,
      \<lparr>items =
         [GenlHdr 2, NestStart (A_SETTINGS ETHTOOL_A_SETTINGS_DEV),
          AttrU32 (A_DEV ETHTOOL_A_DEV_INDEX) 1,
          AttrString (A_DEV ETHTOOL_A_DEV_NAME) ''lo'',
          AttrU8 (A_LINKSTATE ETHTOOL_A_LINKSTATE_LINK) 1, GenlHdr 2,
          NestStart (A_SETTINGS ETHTOOL_A_SETTINGS_DEV),
          AttrU32 (A_DEV ETHTOOL_A_DEV_INDEX) 2,
          AttrString (A_DEV ETHTOOL_A_DEV_NAME) ''eth0'',
          AttrU8 (A_LINKSTATE ETHTOOL_A_LINKSTATE_LINK) 1],
         cap = 120\<rparr>),
     (- ENODEV, \<lparr>items = [], cap = 120\<rparr>)],
    \<lparr>args2 = 2, args3 = 1\<rparr>)
   \<and> remaining example_heads \<lparr>args2 = 2, args3 = 1\<rparr> =
     [\<lparr>ifindex = 3, name = ''eth1'', present = False, refcnt = 1\<rparr>,
      \<lparr>ifindex = 4, name = ''eth2'', present = True, refcnt = 1\<rparr>]"
  by code_simp

section \<open>SET_PARAMS\<close>

lemma update_field_u32:
  "update_field ethnl_update_u32 get upd attr (m, d) =
     (case attr of
        None \<Rightarrow> (m, upd (\<lambda>_. get d) d)
      | Some a \<Rightarrow> (m \<or> get d \<noteq> nla_get_u32 a, upd (\<lambda>_. nla_get_u32 a) d))"
  by (auto simp: update_field_def ethnl_update_u32_def split: option.splits)

text \<open>
  C5, as the code has it. On a device whose current ring sizes are within the maximums
  it reports, a SET of ring parameters in which a proposed size exceeds its maximum
  fails with \<open>-EINVAL\<close>; the error points at the first such field in the order rx,
  rx-mini, rx-jumbo, tx; and the driver's state is what it was, whatever its
  \<open>set_ringparam\<close> would do: that operation is not called.
\<close>

theorem update_ring_rejects_above_maximum:
  assumes "get_ringparam ops = Some getp" and "set_ringparam ops = Some setp"
    and "0 \<le> pret"
    and "within_maximums (getp st)"
    and "\<exists>a \<in> set ring_check_order. proposed_above_maximum (getp st) tb a"
  shows "update_ring ops st (Some (pret, tb)) =
           (- EINVAL, find (proposed_above_maximum (getp st) tb) ring_check_order, st)
         \<and> find (proposed_above_maximum (getp st) tb) ring_check_order \<noteq> None"
  using assms
  apply (cases "getp st")
  apply (cases "tb ETHTOOL_A_RING_RX_PENDING"; cases "tb ETHTOOL_A_RING_RX_MINI_PENDING";
         cases "tb ETHTOOL_A_RING_RX_JUMBO_PENDING"; cases "tb ETHTOOL_A_RING_TX_PENDING")
  apply (auto simp: update_ring_def update_field_u32 within_maximums_def
      proposed_above_maximum_def ring_check_order_def attr_ptr_def Let_def)
  done

theorem update_ring_rejects_above_maximum_witness:
  "update_ring ring_driver example_ring
     (Some (0, (\<lambda>a. None)(ETHTOOL_A_RING_RX_MINI_PENDING := Some (NlaU32 10),
                            ETHTOOL_A_RING_TX_PENDING := Some (NlaU32 500)))) =
   (- EINVAL, Some ETHTOOL_A_RING_RX_MINI_PENDING, example_ring)"
proof -
  let ?tb = "(\<lambda>a. None)(ETHTOOL_A_RING_RX_MINI_PENDING := Some (NlaU32 10),
                         ETHTOOL_A_RING_TX_PENDING := Some (NlaU32 500))"
  have g: "get_ringparam ring_driver = Some (\<lambda>st. st)"
    and s: "set_ringparam ring_driver = Some (\<lambda>st d. (0, d))"
    by (simp_all add: ring_driver_def)
  have w: "within_maximums ((\<lambda>st. st) example_ring)"
    by (simp add: within_maximums_def example_ring_def)
  have e: "\<exists>a \<in> set ring_check_order. proposed_above_maximum ((\<lambda>st. st) example_ring) ?tb a"
    by (simp add: ring_check_order_def proposed_above_maximum_def example_ring_def)
  have f: "find (proposed_above_maximum ((\<lambda>st. st) example_ring) ?tb) ring_check_order
             = Some ETHTOOL_A_RING_RX_MINI_PENDING"
    by (simp add: ring_check_order_def proposed_above_maximum_def example_ring_def)
  have z: "0 \<le> (0::int)" by simp
  from update_ring_rejects_above_maximum [OF g s z w e, THEN conjunct1]
  show ?thesis unfolding f .
qed

text \<open>
  C5 as stated fails where the device itself reports a ring size above its maximum
  (here rx: 100 above 50). A request that proposes that same value changes nothing and
  returns 0. A request that proposes a tx size above its maximum (200 above 80) is
  passed to \<open>set_ringparam\<close>: the first field over its bound is rx, the request has no rx
  attribute, so there is no attribute to report and no error.
\<close>

theorem update_ring_above_maximum_counterexample:
  "update_ring ring_driver (example_ring\<lparr>rx_pending := 100\<rparr>)
     (Some (0, (\<lambda>a. None)(ETHTOOL_A_RING_RX_PENDING := Some (NlaU32 100)))) =
   (0, None, example_ring\<lparr>rx_pending := 100\<rparr>)
   \<and> update_ring ring_driver (example_ring\<lparr>rx_pending := 100\<rparr>)
     (Some (0, (\<lambda>a. None)(ETHTOOL_A_RING_TX_PENDING := Some (NlaU32 200)))) =
   (1, None, example_ring\<lparr>rx_pending := 100, tx_pending := 200\<rparr>)"
  by (simp add: update_ring_def ring_driver_def example_ring_def update_field_u32
      attr_ptr_def)

lemma update_coalesce_unsupported:
  "get_coalesce ops = None \<or> set_coalesce ops = None \<Longrightarrow>
     update_coalesce ops st (Some n) = (- EOPNOTSUPP, st)"
  by (cases n) (auto simp: update_coalesce_def split: option.splits)

lemma update_ring_unsupported:
  "get_ringparam ops = None \<or> set_ringparam ops = None \<Longrightarrow>
     update_ring ops st (Some n) = (- EOPNOTSUPP, None, st)"
  by (cases n) (auto simp: update_ring_def split: option.splits)

lemma update_pause_unsupported:
  "get_pauseparam ops = None \<or> set_pauseparam ops = None \<Longrightarrow>
     update_pause ops st (Some n) = (- EOPNOTSUPP, st)"
  by (cases n) (auto simp: update_pause_def split: option.splits)

lemma update_channels_unsupported:
  "get_channels ops = None \<or> set_channels ops = None \<Longrightarrow>
     update_channels ops st (Some n) = (- EOPNOTSUPP, None, st)"
  by (cases n) (auto simp: update_channels_def split: option.splits)

text \<open>
  C7, as the code has it. The categories of a SET_PARAMS request are updated one after
  the other: coalescing, ring sizes, pause, channels. Take a request that is parsed,
  whose device is resolved, and for which \<open>ethnl_before_ops\<close> succeeds. When it holds
  a category the device lacks the get or the set operation for, and no earlier category
  has failed, the request fails with \<open>-EOPNOTSUPP\<close>; the driver's state is the one
  the updates of the earlier categories left: that category and the later ones change
  nothing, the earlier ones have been committed; a notification is sent for exactly the
  earlier categories that changed something, none if there is no such category; and the
  reference to the device is released.
\<close>

theorem ethnl_set_params_unsupported_category:
  assumes "0 \<le> pret"
    and "ethnl_dev_get (\<lambda>n. n) nt (tb_PARAMS_DEV tb) = (Inr dev, nt1)"
    and "0 \<le> before_ops st"
    and "update_coalesce ops st (tb_PARAMS_COALESCE tb) = (ret1, st1)"
    and "update_ring ops st1 (tb_PARAMS_RING tb) = (ret2, e2, st2)"
    and "update_pause ops st2 (tb_PARAMS_PAUSE tb) = (ret3, st3)"
  shows "(tb_PARAMS_COALESCE tb \<noteq> None
            \<and> (get_coalesce ops = None \<or> set_coalesce ops = None)
          \<longrightarrow> ethnl_set_params ops before_ops nt st (pret, tb) =
                (- EOPNOTSUPP, st, None, dev_put nt1 dev))
       \<and> (0 \<le> ret1 \<and> tb_PARAMS_RING tb \<noteq> None
            \<and> (get_ringparam ops = None \<or> set_ringparam ops = None)
          \<longrightarrow> ethnl_set_params ops before_ops nt st (pret, tb) =
                (- EOPNOTSUPP, st1, notification (changed_mask ret1 0 0), dev_put nt1 dev))
       \<and> (0 \<le> ret1 \<and> 0 \<le> ret2 \<and> tb_PARAMS_PAUSE tb \<noteq> None
            \<and> (get_pauseparam ops = None \<or> set_pauseparam ops = None)
          \<longrightarrow> ethnl_set_params ops before_ops nt st (pret, tb) =
                (- EOPNOTSUPP, st2, notification (changed_mask ret1 ret2 0), dev_put nt1 dev))
       \<and> (0 \<le> ret1 \<and> 0 \<le> ret2 \<and> 0 \<le> ret3 \<and> tb_PARAMS_CHANNELS tb \<noteq> None
            \<and> (get_channels ops = None \<or> set_channels ops = None)
          \<longrightarrow> ethnl_set_params ops before_ops nt st (pret, tb) =
                (- EOPNOTSUPP, st3, notification (changed_mask ret1 ret2 ret3),
                 dev_put nt1 dev))"
proof -
  have neg: "- EOPNOTSUPP < 0" by (simp add: EOPNOTSUPP_def)
  have a: "tb_PARAMS_COALESCE tb \<noteq> None
            \<and> (get_coalesce ops = None \<or> set_coalesce ops = None)
          \<longrightarrow> ethnl_set_params ops before_ops nt st (pret, tb) =
                (- EOPNOTSUPP, st, None, dev_put nt1 dev)"
    using assms(1-4) neg
    by (auto simp: ethnl_set_params_def update_coalesce_unsupported)
  have b: "0 \<le> ret1 \<and> tb_PARAMS_RING tb \<noteq> None
            \<and> (get_ringparam ops = None \<or> set_ringparam ops = None)
          \<longrightarrow> ethnl_set_params ops before_ops nt st (pret, tb) =
                (- EOPNOTSUPP, st1, notification (changed_mask ret1 0 0), dev_put nt1 dev)"
    using assms(1-5) neg
    by (auto simp: ethnl_set_params_def update_ring_unsupported Let_def changed_mask_def
        notification_def)
  have c: "0 \<le> ret1 \<and> 0 \<le> ret2 \<and> tb_PARAMS_PAUSE tb \<noteq> None
            \<and> (get_pauseparam ops = None \<or> set_pauseparam ops = None)
          \<longrightarrow> ethnl_set_params ops before_ops nt st (pret, tb) =
                (- EOPNOTSUPP, st2, notification (changed_mask ret1 ret2 0), dev_put nt1 dev)"
    using assms neg
    by (auto simp: ethnl_set_params_def update_pause_unsupported Let_def changed_mask_def
        notification_def)
  have d: "0 \<le> ret1 \<and> 0 \<le> ret2 \<and> 0 \<le> ret3 \<and> tb_PARAMS_CHANNELS tb \<noteq> None
            \<and> (get_channels ops = None \<or> set_channels ops = None)
          \<longrightarrow> ethnl_set_params ops before_ops nt st (pret, tb) =
                (- EOPNOTSUPP, st3, notification (changed_mask ret1 ret2 ret3),
                 dev_put nt1 dev)"
    using assms neg
    by (auto simp: ethnl_set_params_def update_channels_unsupported Let_def changed_mask_def
        notification_def)
  from a b c d show ?thesis by blast
qed

text \<open>
  C7 as stated fails: on a device with coalescing operations only, a request that
  changes a coalescing parameter and holds a ring nest fails with \<open>-EOPNOTSUPP\<close>
  after the coalescing change has reached the driver (and is notified). And when
  \<open>ethnl_before_ops\<close> fails on the device, the same request fails with that error, not
  with \<open>-EOPNOTSUPP\<close>: no category is looked at.
\<close>

theorem ethnl_set_params_unsupported_counterexample:
  "ethnl_set_params coalesce_driver (\<lambda>st. 0) example_net zero_coalesce
     (0, example_set_params) =
     (- EOPNOTSUPP, zero_coalesce\<lparr>rx_coalesce_usecs := 5\<rparr>,
      Some ETHTOOL_IM_PARAMS_COALESCE, example_net)
   \<and> ethnl_set_params coalesce_driver (\<lambda>st. - ENODEV) example_net zero_coalesce
     (0, example_set_params) =
     (- ENODEV, zero_coalesce, None, example_net)"
  by code_simp

theorem ethnl_set_params_unsupported_category_witness:
  "ethnl_set_params coalesce_driver (\<lambda>st. 0) example_net zero_coalesce
         (0, example_set_params)
       = (- EOPNOTSUPP,
          snd (update_coalesce coalesce_driver zero_coalesce
                 (tb_PARAMS_COALESCE example_set_params)),
          Some ETHTOOL_IM_PARAMS_COALESCE, example_net)"
proof -
  let ?tb = "example_set_params"
  let ?c = "update_coalesce coalesce_driver zero_coalesce (tb_PARAMS_COALESCE ?tb)"
  let ?r = "update_ring coalesce_driver (snd ?c) (tb_PARAMS_RING ?tb)"
  let ?p = "update_pause coalesce_driver (snd (snd ?r)) (tb_PARAMS_PAUSE ?tb)"
  let ?nt1 = "[\<lparr>ifindex = 2, name = ''eth0'', present = True, refcnt = 2\<rparr>]"
  have z: "0 \<le> (0::int)" by simp
  have dv: "ethnl_dev_get (\<lambda>n. n) example_net (tb_PARAMS_DEV ?tb) = (Inr 0, ?nt1)"
    by code_simp
  have c: "?c = (fst ?c, snd ?c)" by simp
  have r: "?r = (fst ?r, fst (snd ?r), snd (snd ?r))" by simp
  have p: "?p = (fst ?p, snd ?p)" by simp
  have c1: "fst ?c = 1" by code_simp
  have u: "tb_PARAMS_RING ?tb \<noteq> None" by (simp add: example_set_params_def)
  have g: "get_ringparam coalesce_driver = None" by (simp add: coalesce_driver_def)
  have n: "notification (changed_mask 1 0 0) = Some ETHTOOL_IM_PARAMS_COALESCE"
    by (simp add: notification_def changed_mask_def ETHTOOL_IM_PARAMS_COALESCE_def)
  have dp: "dev_put ?nt1 0 = example_net" by (simp add: dev_put_def example_net_def)
  from ethnl_set_params_unsupported_category [OF z dv z c r p] c1 u g
  have "ethnl_set_params coalesce_driver (\<lambda>st. 0) example_net zero_coalesce (0, ?tb) =
          (- EOPNOTSUPP, snd ?c, notification (changed_mask (fst ?c) 0 0), dev_put ?nt1 0)"
    by simp
  then show ?thesis unfolding c1 n dp .
qed

lemma auto_link_modes_bit_bit:
  "n < 67 \<Longrightarrow>
   bit (auto_link_modes_bit ks rs rd a n) i \<longleftrightarrow>
     (if i = n \<and> info_speed (link_mode_params ! n) \<noteq> SPEED_UNKNOWN
      then bit (link_modes_supported ks) n
           \<and> (\<not> rs \<or> word_of_int (info_speed (link_mode_params ! n)) = speed (base ks))
           \<and> (\<not> rd \<or> info_duplex (link_mode_params ! n) = duplex (base ks))
      else bit a i)"
  by (auto simp: auto_link_modes_bit_def Let_def bit_set_bit_iff bit_unset_bit_iff)

lemma auto_link_modes_loop_bit:
  "n \<le> 67 \<Longrightarrow>
   bit (foldl (auto_link_modes_bit ks rs rd) adv [0..<n]) i \<longleftrightarrow>
     (if i < n \<and> info_speed (link_mode_params ! i) \<noteq> SPEED_UNKNOWN
      then bit (link_modes_supported ks) i
           \<and> (\<not> rs \<or> word_of_int (info_speed (link_mode_params ! i)) = speed (base ks))
           \<and> (\<not> rd \<or> info_duplex (link_mode_params ! i) = duplex (base ks))
      else bit adv i)"
proof (induction n)
  case 0
  then show ?case by simp
next
  case (Suc n)
  then have n: "n < 67" and IH: "bit (foldl (auto_link_modes_bit ks rs rd) adv [0..<n]) i \<longleftrightarrow>
     (if i < n \<and> info_speed (link_mode_params ! i) \<noteq> SPEED_UNKNOWN
      then bit (link_modes_supported ks) i
           \<and> (\<not> rs \<or> word_of_int (info_speed (link_mode_params ! i)) = speed (base ks))
           \<and> (\<not> rd \<or> info_duplex (link_mode_params ! i) = duplex (base ks))
      else bit adv i)"
    by simp_all
  have "i < Suc n \<longleftrightarrow> i < n \<or> i = n" by auto
  then show ?case
    using IH by (auto simp: auto_link_modes_bit_bit [OF n])
qed

lemma auto_link_modes_bit_iff:
  assumes "i < ETHTOOL_LINK_MODE_MASK_NBITS"
  shows "bit (link_modes_advertising (snd (auto_link_modes ks rs rd))) i \<longleftrightarrow>
     (if info_speed (link_mode_params ! i) = SPEED_UNKNOWN
      then bit (link_modes_advertising ks) i
      else bit (link_modes_supported ks) i
           \<and> (\<not> rs \<or> word_of_int (info_speed (link_mode_params ! i)) = speed (base ks))
           \<and> (\<not> rd \<or> info_duplex (link_mode_params ! i) = duplex (base ks)))"
proof -
  have n: "ETHTOOL_LINK_MODE_MASK_NBITS = 67"
    by (simp add: ETHTOOL_LINK_MODE_MASK_NBITS_def link_mode_params_def)
  show ?thesis
    using assms auto_link_modes_loop_bit [of 67 ks rs rd "link_modes_advertising ks" i]
    by (simp add: auto_link_modes_def Let_def n)
qed

lemma auto_link_modes_base: "base (snd (auto_link_modes ks rs rd)) = base ks"
  and auto_link_modes_supported:
    "link_modes_supported (snd (auto_link_modes ks rs rd)) = link_modes_supported ks"
  by (simp_all add: auto_link_modes_def Let_def)

lemma ethnl_update_u32_value:
  "snd (ethnl_update_u32 dst (Some v)) = nla_get_u32 v"
  and ethnl_update_u32_absent: "snd (ethnl_update_u32 dst None) = dst"
  by (simp_all add: ethnl_update_u32_def)

lemma ethnl_update_u8_value:
  "snd (ethnl_update_u8 dst (Some v)) = nla_get_u8 v"
  and ethnl_update_u8_absent: "snd (ethnl_update_u8 dst None) = dst"
  by (simp_all add: ethnl_update_u8_def)

lemma update_link_modes_auto:
  assumes "0 \<le> pret" and "tb_LINKMODES_OURS tb = None"
    and "tb_LINKMODES_SPEED tb \<noteq> None \<or> tb_LINKMODES_DUPLEX tb \<noteq> None"
    and "autoneg (base (snd (update_link_modes (Some (pret, tb)) ks))) \<noteq> 0"
  shows "snd (update_link_modes (Some (pret, tb)) ks) =
     snd (auto_link_modes
       (ks\<lparr>base := (base ks)
           \<lparr>autoneg := snd (ethnl_update_u8 (autoneg (base ks)) (tb_LINKMODES_AUTONEG tb)),
            speed := snd (ethnl_update_u32 (speed (base ks)) (tb_LINKMODES_SPEED tb)),
            duplex := snd (ethnl_update_u8 (duplex (base ks)) (tb_LINKMODES_DUPLEX tb))\<rparr>\<rparr>)
       (tb_LINKMODES_SPEED tb \<noteq> None) (tb_LINKMODES_DUPLEX tb \<noteq> None))"
  using assms
  by (auto simp: update_link_modes_def ethnl_update_bitset_def Let_def
      auto_link_modes_base split: prod.splits if_splits)

section \<open>SET of the link modes\<close>

text \<open>
  C6, as the code has it. A SET of link modes with autonegotiation on, a speed and/or a
  duplex, and no capability bitset, recomputes the advertised bitmap bit by bit: a bit
  whose table entry has a known speed is set exactly when the mode is supported and
  matches the requested speed (if given) and the requested duplex (if given); a bit
  whose table entry has the unknown speed (autonegotiation, port types, pause, FEC)
  keeps the value it had.
\<close>

theorem update_link_modes_derives_advertising:
  assumes "0 \<le> pret" and "tb_LINKMODES_OURS tb = None"
    and "tb_LINKMODES_SPEED tb \<noteq> None \<or> tb_LINKMODES_DUPLEX tb \<noteq> None"
    and "update_link_modes (Some (pret, tb)) ksettings = (ret, ksettings')"
    and "autoneg (base ksettings') \<noteq> 0"
    and "i < ETHTOOL_LINK_MODE_MASK_NBITS"
  shows "bit (link_modes_advertising ksettings') i \<longleftrightarrow>
     (if info_speed (link_mode_params ! i) = SPEED_UNKNOWN
      then bit (link_modes_advertising ksettings) i
      else bit (link_modes_supported ksettings) i
           \<and> (\<forall>v. tb_LINKMODES_SPEED tb = Some v \<longrightarrow>
                  word_of_int (info_speed (link_mode_params ! i)) = nla_get_u32 v)
           \<and> (\<forall>v. tb_LINKMODES_DUPLEX tb = Some v \<longrightarrow>
                  info_duplex (link_mode_params ! i) = nla_get_u8 v))"
proof -
  have k: "ksettings' = snd (update_link_modes (Some (pret, tb)) ksettings)"
    using assms(4) by simp
  have an: "autoneg (base (snd (update_link_modes (Some (pret, tb)) ksettings))) \<noteq> 0"
    using assms(5) k by simp
  note eq = update_link_modes_auto [OF assms(1) assms(2) assms(3) an]
  show ?thesis
    unfolding k eq
    by (cases "tb_LINKMODES_SPEED tb"; cases "tb_LINKMODES_DUPLEX tb")
      (simp_all add: auto_link_modes_bit_iff [OF assms(6)] ethnl_update_u32_value
        ethnl_update_u32_absent ethnl_update_u8_value ethnl_update_u8_absent)
qed

lemma example_update_link_modes:
  "update_link_modes
     (Some (0, \<lparr>tb_LINKMODES_AUTONEG = None, tb_LINKMODES_OURS = None,
                tb_LINKMODES_SPEED = Some (NlaU32 1000), tb_LINKMODES_DUPLEX = None\<rparr>))
     example_ksettings =
   (1, example_ksettings
         \<lparr>base := (base example_ksettings)\<lparr>speed := 1000\<rparr>, link_modes_advertising := 96\<rparr>)"
  by code_simp

theorem update_link_modes_derives_advertising_witness:
  "bit (link_modes_advertising (snd (update_link_modes
     (Some (0, \<lparr>tb_LINKMODES_AUTONEG = None, tb_LINKMODES_OURS = None,
                tb_LINKMODES_SPEED = Some (NlaU32 1000), tb_LINKMODES_DUPLEX = None\<rparr>))
     example_ksettings))) 5"
proof -
  let ?tb = "\<lparr>tb_LINKMODES_AUTONEG = None, tb_LINKMODES_OURS = None,
              tb_LINKMODES_SPEED = Some (NlaU32 1000), tb_LINKMODES_DUPLEX = None\<rparr>"
  let ?k = "example_ksettings
         \<lparr>base := (base example_ksettings)\<lparr>speed := 1000\<rparr>, link_modes_advertising := 96\<rparr>"
  have z: "0 \<le> (0::int)" by simp
  have o: "tb_LINKMODES_OURS ?tb = None" by simp
  have s: "tb_LINKMODES_SPEED ?tb \<noteq> None \<or> tb_LINKMODES_DUPLEX ?tb \<noteq> None" by simp
  have an: "autoneg (base ?k) \<noteq> 0" by (simp add: example_ksettings_def)
  have i: "5 < ETHTOOL_LINK_MODE_MASK_NBITS"
    by (simp add: ETHTOOL_LINK_MODE_MASK_NBITS_def link_mode_params_def)
  have p: "link_mode_params ! 5 = LINK_MODE_PARAMS 1000 DUPLEX_FULL"
    by (simp add: link_mode_params_def)
  have b: "bit (link_modes_supported example_ksettings) 5"
    by (simp add: example_ksettings_def)
  from update_link_modes_derives_advertising [OF z o s example_update_link_modes an i]
  have "bit (link_modes_advertising ?k) 5"
    using b by (simp add: p LINK_MODE_PARAMS_def SPEED_UNKNOWN_def)
  then show ?thesis by (simp only: example_update_link_modes snd_conv)
qed

text \<open>
  C6 as stated fails on the bits without a speed: with 100baseT/Full, 1000baseT/Full
  and Autoneg supported, 100baseT/Full and Autoneg advertised, a request for speed 1000
  leaves 1000baseT/Full and Autoneg advertised (bits 5 and 6), not 1000baseT/Full only.
\<close>

theorem update_link_modes_keeps_special_bits_counterexample:
  "update_link_modes
     (Some (0, \<lparr>tb_LINKMODES_AUTONEG = None, tb_LINKMODES_OURS = None,
                tb_LINKMODES_SPEED = Some (NlaU32 1000), tb_LINKMODES_DUPLEX = None\<rparr>))
     example_ksettings =
   (1, example_ksettings
         \<lparr>base := (base example_ksettings)\<lparr>speed := 1000\<rparr>, link_modes_advertising := 96\<rparr>)
   \<and> bit (96 :: link_mode_mask) 6
   \<and> info_speed (link_mode_params ! 6) = SPEED_UNKNOWN
   \<and> (96 :: link_mode_mask) \<noteq> set_bit 5 0"
  by code_simp

lemma ethnl_dev_get_error_negative:
  "ethnl_dev_get parse nt nest = (Inl (err, m), nt1) \<Longrightarrow> err < 0"
  by (auto simp: ethnl_dev_get_def EINVAL_def ENODEV_def
      split: option.splits prod.splits if_splits)

section \<open>Parsing of GET requests\<close>

text \<open>
  C10. A GET request whose info mask attribute is absent or zero, parsed into freshly
  allocated request data (info mask zero), is parsed exactly as the same request with
  the info mask of all categories of its command, whatever else it holds; and when
  parsing succeeds the requested info mask is that of all categories. This holds for
  the link settings and for the device parameters.
\<close>

theorem parse_request_default_info_mask:
  assumes "req_mask sreq = 0" and "no_info_mask (gtb_SETTINGS_INFOMASK stb)"
    and "req_mask preq = 0" and "no_info_mask (gtb_PARAMS_INFOMASK ptb)"
  shows "parse_settings is_privileged nt sreq (pret, stb) =
           parse_settings is_privileged nt sreq
             (pret, stb\<lparr>gtb_SETTINGS_INFOMASK := Some (NlaU32 ETHTOOL_IM_SETTINGS_ALL)\<rparr>)
       \<and> (fst (parse_settings is_privileged nt sreq (pret, stb)) = 0 \<longrightarrow>
            req_mask (fst (snd (parse_settings is_privileged nt sreq (pret, stb))))
              = ETHTOOL_IM_SETTINGS_ALL)
       \<and> parse_params nt preq (pret, ptb) =
           parse_params nt preq
             (pret, ptb\<lparr>gtb_PARAMS_INFOMASK := Some (NlaU32 ETHTOOL_IM_PARAMS_ALL)\<rparr>)
       \<and> (fst (parse_params nt preq (pret, ptb)) = 0 \<longrightarrow>
            req_mask (fst (snd (parse_params nt preq (pret, ptb)))) = ETHTOOL_IM_PARAMS_ALL)"
proof -
  have e: "- EINVAL \<noteq> 0" "- ENODEV \<noteq> 0" by (simp_all add: EINVAL_def ENODEV_def)
  have s1: "parse_settings is_privileged nt sreq (pret, stb) =
           parse_settings is_privileged nt sreq
             (pret, stb\<lparr>gtb_SETTINGS_INFOMASK := Some (NlaU32 ETHTOOL_IM_SETTINGS_ALL)\<rparr>)"
    using assms(1,2)
    by (auto simp: parse_settings_def no_info_mask_def Let_def ETHTOOL_IM_SETTINGS_ALL_def
        split: option.splits prod.splits sum.splits)
  have p1: "parse_params nt preq (pret, ptb) =
           parse_params nt preq
             (pret, ptb\<lparr>gtb_PARAMS_INFOMASK := Some (NlaU32 ETHTOOL_IM_PARAMS_ALL)\<rparr>)"
    using assms(3,4)
    by (auto simp: parse_params_def no_info_mask_def Let_def ETHTOOL_IM_PARAMS_ALL_def
        split: option.splits prod.splits sum.splits)
  have s2: "fst (parse_settings is_privileged nt sreq (pret, stb)) = 0 \<longrightarrow>
            req_mask (fst (snd (parse_settings is_privileged nt sreq (pret, stb))))
              = ETHTOOL_IM_SETTINGS_ALL"
    using assms(1,2)
    by (auto simp: parse_settings_def no_info_mask_def Let_def
        split: option.splits prod.splits sum.splits
        dest: ethnl_dev_get_error_negative)
  have p2: "fst (parse_params nt preq (pret, ptb)) = 0 \<longrightarrow>
            req_mask (fst (snd (parse_params nt preq (pret, ptb)))) = ETHTOOL_IM_PARAMS_ALL"
    using assms(3,4)
    by (auto simp: parse_params_def no_info_mask_def Let_def
        split: option.splits prod.splits sum.splits
        dest: ethnl_dev_get_error_negative)
  from s1 s2 p1 p2 show ?thesis by blast
qed

theorem parse_request_default_info_mask_witness:
  "req_mask (fst (snd (parse_settings False example_net
       \<lparr>req_dev = None, req_mask = 0, req_compact = False, privileged = False\<rparr>
       (0, \<lparr>gtb_SETTINGS_DEV = Some (0, \<lparr>tb_DEV_INDEX = None, tb_DEV_NAME = Some ''eth0''\<rparr>),
            gtb_SETTINGS_INFOMASK = Some (NlaU32 0), gtb_SETTINGS_COMPACT = False\<rparr>))))
     = ETHTOOL_IM_SETTINGS_ALL
   \<and> req_mask (fst (snd (parse_params example_net ethnl_alloc_get_data
       (0, \<lparr>gtb_PARAMS_DEV = Some (0, \<lparr>tb_DEV_INDEX = Some 2, tb_DEV_NAME = None\<rparr>),
            gtb_PARAMS_INFOMASK = None, gtb_PARAMS_COMPACT = True\<rparr>))))
     = ETHTOOL_IM_PARAMS_ALL"
proof -
  let ?sreq = "\<lparr>req_dev = None, req_mask = 0, req_compact = False, privileged = False\<rparr>"
  let ?stb = "\<lparr>gtb_SETTINGS_DEV = Some (0, \<lparr>tb_DEV_INDEX = None, tb_DEV_NAME = Some ''eth0''\<rparr>),
            gtb_SETTINGS_INFOMASK = Some (NlaU32 0), gtb_SETTINGS_COMPACT = False\<rparr>"
  let ?ptb = "\<lparr>gtb_PARAMS_DEV = Some (0, \<lparr>tb_DEV_INDEX = Some 2, tb_DEV_NAME = None\<rparr>),
            gtb_PARAMS_INFOMASK = None, gtb_PARAMS_COMPACT = True\<rparr>"
  have a: "req_mask ?sreq = 0" "no_info_mask (gtb_SETTINGS_INFOMASK ?stb)"
    "req_mask ethnl_alloc_get_data = 0" "no_info_mask (gtb_PARAMS_INFOMASK ?ptb)"
    by (simp_all add: no_info_mask_def ethnl_alloc_get_data_def)
  have s: "fst (parse_settings False example_net ?sreq (0, ?stb)) = 0"
    by code_simp
  have p: "fst (parse_params example_net ethnl_alloc_get_data (0, ?ptb)) = 0"
    by code_simp
  from parse_request_default_info_mask [OF a, of False example_net 0] s p
  show ?thesis by blast
qed

section \<open>What a GET request gathers and what its reply holds\<close>

lemma and_zero_bits:
  fixes a b :: "'a::len word"
  shows "a AND b = 0 \<longleftrightarrow> (\<forall>i. \<not> (bit a i \<and> bit b i))"
  by (auto simp: bit_eq_iff bit_and_iff dest: bit_imp_le_length)

lemma and_not_disjoint:
  fixes x a b :: "'a::len word"
  assumes "a AND b = 0"
  shows "(x AND NOT a) AND b = x AND b"
  using assms unfolding and_zero_bits
  by (auto simp: bit_eq_iff bit_and_iff bit_not_iff)

lemma and_not_same:
  fixes x a :: "'a::len word"
  shows "(x AND NOT a) AND a = 0"
  by (auto simp: bit_eq_iff bit_and_iff bit_not_iff)

lemma and_not_noop:
  fixes x a :: "'a::len word"
  assumes "x AND a = 0"
  shows "x AND NOT a = x"
  using assms unfolding and_zero_bits
  by (auto simp: bit_eq_iff bit_and_iff bit_not_iff)

lemma and_or_zero:
  fixes x a b :: "'a::len word"
  shows "x AND (a OR b) = 0 \<longleftrightarrow> x AND a = 0 \<and> x AND b = 0"
  unfolding and_zero_bits by (auto simp: bit_or_iff)

lemma settings_bits_disjoint:
  "ETHTOOL_IM_SETTINGS_LINKINFO AND ETHTOOL_IM_SETTINGS_LINKMODES = 0"
  "ETHTOOL_IM_SETTINGS_LINKINFO AND ETHTOOL_IM_SETTINGS_LINKSTATE = 0"
  "ETHTOOL_IM_SETTINGS_LINKINFO AND ETHTOOL_IM_SETTINGS_WOL = 0"
  "ETHTOOL_IM_SETTINGS_LINKMODES AND ETHTOOL_IM_SETTINGS_LINKSTATE = 0"
  "ETHTOOL_IM_SETTINGS_LINKMODES AND ETHTOOL_IM_SETTINGS_WOL = 0"
  "ETHTOOL_IM_SETTINGS_LINKSTATE AND ETHTOOL_IM_SETTINGS_WOL = 0"
  "(ETHTOOL_IM_SETTINGS_LINKINFO OR ETHTOOL_IM_SETTINGS_LINKMODES)
     AND ETHTOOL_IM_SETTINGS_LINKSTATE = 0"
  "(ETHTOOL_IM_SETTINGS_LINKINFO OR ETHTOOL_IM_SETTINGS_LINKMODES)
     AND ETHTOOL_IM_SETTINGS_WOL = 0"
  by (simp_all add: ETHTOOL_IM_SETTINGS_LINKINFO_def ETHTOOL_IM_SETTINGS_LINKMODES_def
      ETHTOOL_IM_SETTINGS_LINKSTATE_def ETHTOOL_IM_SETTINGS_WOL_def)

lemma params_bits_disjoint:
  "ETHTOOL_IM_PARAMS_COALESCE AND ETHTOOL_IM_PARAMS_RING = 0"
  "ETHTOOL_IM_PARAMS_COALESCE AND ETHTOOL_IM_PARAMS_PAUSE = 0"
  "ETHTOOL_IM_PARAMS_COALESCE AND ETHTOOL_IM_PARAMS_CHANNELS = 0"
  "ETHTOOL_IM_PARAMS_RING AND ETHTOOL_IM_PARAMS_PAUSE = 0"
  "ETHTOOL_IM_PARAMS_RING AND ETHTOOL_IM_PARAMS_CHANNELS = 0"
  "ETHTOOL_IM_PARAMS_PAUSE AND ETHTOOL_IM_PARAMS_CHANNELS = 0"
  by (simp_all add: ETHTOOL_IM_PARAMS_COALESCE_def ETHTOOL_IM_PARAMS_RING_def
      ETHTOOL_IM_PARAMS_PAUSE_def ETHTOOL_IM_PARAMS_CHANNELS_def)

lemma clear_if_failed:
  fixes x a :: "'a::len word"
  shows "(if x AND a \<noteq> 0 then (if f then x AND NOT a else x) else x)
           = x AND NOT (if f then a else 0)"
  by (simp add: and_not_noop)

text \<open>The achieved mask of \<open>prepare_settings\<close>, step by step and in closed form.\<close>

lemma prepare_settings_mask_steps:
  assumes "0 \<le> before_ops st"
  shows "settings_info_mask (fst (snd (prepare_settings ops before_ops st req_info))) =
      (let m1 = (if req_mask req_info
                       AND (ETHTOOL_IM_SETTINGS_LINKINFO OR ETHTOOL_IM_SETTINGS_LINKMODES) \<noteq> 0
                 then (if fst (ethtool_get_link_ksettings ops st) < 0
                       then req_mask req_info
                              AND NOT (ETHTOOL_IM_SETTINGS_LINKINFO
                                       OR ETHTOOL_IM_SETTINGS_LINKMODES)
                       else req_mask req_info)
                 else req_mask req_info)
       in (if m1 AND ETHTOOL_IM_SETTINGS_WOL \<noteq> 0
           then (if fst (ethtool_get_wol ops st) < 0
                 then m1 AND NOT ETHTOOL_IM_SETTINGS_WOL else m1)
           else m1))"
  using assms
  by (cases "ethtool_get_link_ksettings ops st"; cases "ethtool_get_wol ops st")
    (simp add: prepare_settings_def Let_def split: prod.splits)

lemma prepare_settings_mask:
  assumes "0 \<le> before_ops st"
  shows "settings_info_mask (fst (snd (prepare_settings ops before_ops st req_info))) =
      (req_mask req_info
        AND NOT (if fst (ethtool_get_link_ksettings ops st) < 0
                 then ETHTOOL_IM_SETTINGS_LINKINFO OR ETHTOOL_IM_SETTINGS_LINKMODES else 0))
        AND NOT (if fst (ethtool_get_wol ops st) < 0 then ETHTOOL_IM_SETTINGS_WOL else 0)"
  unfolding prepare_settings_mask_steps [where before_ops = before_ops and st = st, OF assms]
    Let_def clear_if_failed ..

lemma prepare_settings_succeeds:
  "0 \<le> before_ops st \<Longrightarrow> fst (prepare_settings ops before_ops st req_info) = 0"
  by (simp add: prepare_settings_def Let_def split: prod.splits)

lemma writes_nests_mono: "writes_nests f S \<Longrightarrow> S \<subseteq> T \<Longrightarrow> writes_nests f T"
  unfolding writes_nests_def by blast

lemma writes_nestsD:
  "writes_nests f S \<Longrightarrow>
     \<exists>new. snd (f skb) = skb\<lparr>items := items skb @ new\<rparr> \<and> {t. NestStart t \<in> set new} \<subseteq> S"
  unfolding writes_nests_def by blast

lemma writes_nests_put_item:
  assumes "\<forall>t. it \<noteq> NestStart t"
  shows "writes_nests (\<lambda>s. skb_put_item s it) {}"
  unfolding writes_nests_def
proof
  fix skb
  show "\<exists>new. snd (skb_put_item skb it) = skb\<lparr>items := items skb @ new\<rparr>
          \<and> {t. NestStart t \<in> set new} \<subseteq> {}"
  proof (cases "skb_tailroom skb < item_size it")
    case True
    then show ?thesis by (intro exI [of _ "[]"]) (simp add: skb_put_item_def)
  next
    case False
    then show ?thesis using assms by (intro exI [of _ "[it]"]) (auto simp: skb_put_item_def)
  qed
qed

lemma writes_nests_puts [simp]:
  "writes_nests (\<lambda>s. nla_put_u8 s t v8) {}"
  "writes_nests (\<lambda>s. nla_put_u32 s t v32) {}"
  "writes_nests (\<lambda>s. nla_put_string s t str) {}"
  "writes_nests (\<lambda>s. nla_put_bitfield32 s t v32 m32) {}"
  "writes_nests (\<lambda>s. nla_put s t n bs) {}"
  unfolding nla_put_u8_def nla_put_u32_def nla_put_string_def nla_put_bitfield32_def
    nla_put_def
  by (simp_all add: writes_nests_put_item)

lemma writes_nests_skip [simp]: "writes_nests (\<lambda>s. (r, s)) {}"
  unfolding writes_nests_def by (intro allI exI [of _ "[]"]) simp

lemma writes_nests_bitset [simp]:
  "writes_nests (\<lambda>s. ethnl_put_bitset32 bsz s t nbits val msk flags) {}"
proof (cases "bsz nbits val msk flags < 0")
  case True
  then show ?thesis by (simp add: ethnl_put_bitset32_def Let_def)
next
  case False
  then show ?thesis
    by (simp add: ethnl_put_bitset32_def Let_def writes_nests_put_item)
qed

lemma writes_nests_if:
  "writes_nests f S \<Longrightarrow> writes_nests g S \<Longrightarrow> writes_nests (\<lambda>s. if c then f s else g s) S"
  by (cases c) simp_all

lemma writes_nests_chain:
  "list_all (\<lambda>p. writes_nests p {}) puts \<Longrightarrow> writes_nests (\<lambda>s. nla_put_chain s puts) {}"
proof (induction puts)
  case Nil
  then show ?case by simp
next
  case (Cons p ps)
  then have p: "writes_nests p {}" and ps: "writes_nests (\<lambda>s. nla_put_chain s ps) {}"
    by simp_all
  show ?case
    unfolding writes_nests_def
  proof
    fix skb
    obtain r skb1 where r: "p skb = (r, skb1)" by (cases "p skb")
    from writes_nestsD [OF p, of skb] r obtain n1 where
      n1: "skb1 = skb\<lparr>items := items skb @ n1\<rparr>" "{t. NestStart t \<in> set n1} \<subseteq> {}"
      by auto
    from writes_nestsD [OF ps, of skb1] obtain n2 where
      n2: "snd (nla_put_chain skb1 ps) = skb1\<lparr>items := items skb1 @ n2\<rparr>"
        "{t. NestStart t \<in> set n2} \<subseteq> {}"
      by auto
    show "\<exists>new. snd (nla_put_chain skb (p # ps)) = skb\<lparr>items := items skb @ new\<rparr>
            \<and> {t. NestStart t \<in> set new} \<subseteq> {}"
    proof (cases "r \<noteq> 0")
      case True
      with r n1 show ?thesis by (intro exI [of _ n1]) simp
    next
      case False
      with r n1 n2 show ?thesis by (intro exI [of _ "n1 @ n2"]) auto
    qed
  qed
qed

text \<open>
  Sequencing as the fill functions do: the second writer runs unless the first failed.
\<close>

lemma writes_nests_seq:
  assumes "writes_nests f S" and "\<And>r. writes_nests (g r) T"
  shows "writes_nests (\<lambda>s. case f s of (r, s1) \<Rightarrow> if c r then (e r, s1) else g r s1) (S \<union> T)"
  unfolding writes_nests_def
proof
  fix skb
  obtain r skb1 where r: "f skb = (r, skb1)" by (cases "f skb")
  from writes_nestsD [OF assms(1), of skb] r obtain n1 where
    n1: "skb1 = skb\<lparr>items := items skb @ n1\<rparr>" "{t. NestStart t \<in> set n1} \<subseteq> S"
    by auto
  from writes_nestsD [OF assms(2), of r skb1] obtain n2 where
    n2: "snd (g r skb1) = skb1\<lparr>items := items skb1 @ n2\<rparr>"
      "{t. NestStart t \<in> set n2} \<subseteq> T"
    by auto
  show "\<exists>new. snd (case f skb of (r, s1) \<Rightarrow> if c r then (e r, s1) else g r s1)
                 = skb\<lparr>items := items skb @ new\<rparr>
          \<and> {t. NestStart t \<in> set new} \<subseteq> S \<union> T"
  proof (cases "c r")
    case True
    with r n1 show ?thesis by (intro exI [of _ n1]) auto
  next
    case False
    with r n1 n2 show ?thesis by (intro exI [of _ "n1 @ n2"]) auto
  qed
qed

lemma writes_nests_appended: "writes_nests f S \<longleftrightarrow> (\<forall>skb. appended S skb (snd (f skb)))"
  by (simp add: writes_nests_def appended_def)

lemma appended_refl: "appended S skb skb"
  unfolding appended_def by (intro exI [of _ "[]"]) simp

lemma appended_trans:
  assumes "appended S a b" and "appended S b c"
  shows "appended S a c"
proof -
  from assms obtain n1 n2 where
    "b = a\<lparr>items := items a @ n1\<rparr>" "{t. NestStart t \<in> set n1} \<subseteq> S"
    "c = b\<lparr>items := items b @ n2\<rparr>" "{t. NestStart t \<in> set n2} \<subseteq> S"
    unfolding appended_def by blast
  then have "c = a\<lparr>items := items a @ (n1 @ n2)\<rparr> \<and> {t. NestStart t \<in> set (n1 @ n2)} \<subseteq> S"
    by auto
  then show ?thesis unfolding appended_def by blast
qed

lemma appended_writes: "writes_nests f S \<Longrightarrow> f skb = (r, skb1) \<Longrightarrow> appended S skb skb1"
  unfolding writes_nests_appended by (metis snd_conv)

lemma nest_start_fails: "nla_nest_start skb t = (None, s1) \<Longrightarrow> s1 = skb"
  by (auto simp: nla_nest_start_def skb_put_item_def EMSGSIZE_def split: if_splits)

lemma nest_body:
  assumes ns: "nla_nest_start skb t = (Some nest, s1)"
    and body: "appended {} s1 s2"
  shows "nla_nest_cancel s2 nest = skb"
    and "appended {t} skb (nla_nest_end s2 nest)"
    and "appended {t} skb s2"
proof -
  from ns have n: "nest = length (items skb)" and s1: "s1 = skb\<lparr>items := items skb @ [NestStart t]\<rparr>"
    by (auto simp: nla_nest_start_def skb_put_item_def EMSGSIZE_def split: if_splits)
  from body obtain new where new: "s2 = s1\<lparr>items := items s1 @ new\<rparr>"
    "{u. NestStart u \<in> set new} \<subseteq> {}"
    unfolding appended_def by blast
  from new(1) s1 have s2: "s2 = skb\<lparr>items := items skb @ (NestStart t # new)\<rparr>" by simp
  show "nla_nest_cancel s2 nest = skb"
    unfolding s2 n nla_nest_cancel_def by (rule skb_trim_appended)
  from new(2) have "{u. NestStart u \<in> set (NestStart t # new)} \<subseteq> {t}" by auto
  with s2 show "appended {t} skb s2" unfolding appended_def by blast
  then show "appended {t} skb (nla_nest_end s2 nest)" by (simp add: nla_nest_end_def)
qed

text \<open>
  The fill functions that are one nest around a chain of plain attributes, cancelled
  when a writer fails (or, in \<open>fill_channels\<close>, left as it is).
\<close>

lemma nest_chain_nests:
  assumes "list_all (\<lambda>p. writes_nests p {}) puts"
  shows "writes_nests
     (\<lambda>skb. case nla_nest_start skb t of
               (None, skb1) \<Rightarrow> (- EMSGSIZE, skb1)
             | (Some nest, skb1) \<Rightarrow>
                 (case nla_put_chain skb1 puts of
                    (True, skb2) \<Rightarrow> (- EMSGSIZE, nla_nest_cancel skb2 nest)
                  | (False, skb2) \<Rightarrow> (0, nla_nest_end skb2 nest))) {t}"
  unfolding writes_nests_appended
proof
  fix skb
  obtain nest s1 where ns: "nla_nest_start skb t = (nest, s1)"
    by (cases "nla_nest_start skb t")
  obtain b s2 where ch: "nla_put_chain s1 puts = (b, s2)" by (cases "nla_put_chain s1 puts")
  have a: "appended {} s1 s2"
    by (rule appended_writes [OF writes_nests_chain [OF assms] ch])
  show "appended {t} skb (snd (case nla_nest_start skb t of
               (None, skb1) \<Rightarrow> (- EMSGSIZE, skb1)
             | (Some nest, skb1) \<Rightarrow>
                 (case nla_put_chain skb1 puts of
                    (True, skb2) \<Rightarrow> (- EMSGSIZE, nla_nest_cancel skb2 nest)
                  | (False, skb2) \<Rightarrow> (0, nla_nest_end skb2 nest))))"
  proof (cases nest)
    case None
    with ns nest_start_fails [of skb t s1] show ?thesis by (simp add: appended_refl)
  next
    case (Some n)
    from nest_body [OF ns [unfolded Some] a] ns Some ch show ?thesis
      by (cases b) (simp_all add: appended_refl)
  qed
qed

lemma nest_chain_nests_kept:
  assumes "list_all (\<lambda>p. writes_nests p {}) puts"
  shows "writes_nests
     (\<lambda>skb. case nla_nest_start skb t of
               (None, skb1) \<Rightarrow> (- EMSGSIZE, skb1)
             | (Some nest, skb1) \<Rightarrow>
                 (case nla_put_chain skb1 puts of
                    (True, skb2) \<Rightarrow> (- EMSGSIZE, skb2)
                  | (False, skb2) \<Rightarrow> (0, nla_nest_end skb2 nest))) {t}"
  unfolding writes_nests_appended
proof
  fix skb
  obtain nest s1 where ns: "nla_nest_start skb t = (nest, s1)"
    by (cases "nla_nest_start skb t")
  obtain b s2 where ch: "nla_put_chain s1 puts = (b, s2)" by (cases "nla_put_chain s1 puts")
  have a: "appended {} s1 s2"
    by (rule appended_writes [OF writes_nests_chain [OF assms] ch])
  show "appended {t} skb (snd (case nla_nest_start skb t of
               (None, skb1) \<Rightarrow> (- EMSGSIZE, skb1)
             | (Some nest, skb1) \<Rightarrow>
                 (case nla_put_chain skb1 puts of
                    (True, skb2) \<Rightarrow> (- EMSGSIZE, skb2)
                  | (False, skb2) \<Rightarrow> (0, nla_nest_end skb2 nest))))"
  proof (cases nest)
    case None
    with ns nest_start_fails [of skb t s1] show ?thesis by (simp add: appended_refl)
  next
    case (Some n)
    from nest_body [OF ns [unfolded Some] a] ns Some ch show ?thesis
      by (cases b) (simp_all add: appended_refl)
  qed
qed

lemma fill_link_info_nests:
  "writes_nests (\<lambda>s. fill_link_info s ls) {A_SETTINGS ETHTOOL_A_SETTINGS_LINK_INFO}"
  unfolding fill_link_info_def by (rule nest_chain_nests) simp

lemma fill_coalesce_nests:
  "writes_nests (\<lambda>s. fill_coalesce s d) {A_PARAMS ETHTOOL_A_PARAMS_COALESCE}"
  unfolding fill_coalesce_def by (rule nest_chain_nests) simp

lemma fill_ring_nests:
  "writes_nests (\<lambda>s. fill_ring s d) {A_PARAMS ETHTOOL_A_PARAMS_RING}"
  unfolding fill_ring_def by (rule nest_chain_nests) simp

lemma fill_pause_nests:
  "writes_nests (\<lambda>s. fill_pause s d) {A_PARAMS ETHTOOL_A_PARAMS_PAUSE}"
  unfolding fill_pause_def by (rule nest_chain_nests) simp

lemma fill_channels_nests:
  "writes_nests (\<lambda>s. fill_channels s d) {A_PARAMS ETHTOOL_A_PARAMS_CHANNELS}"
  unfolding fill_channels_def by (rule nest_chain_nests_kept) simp

lemma writes_nests_snd: "writes_nests f S \<Longrightarrow> appended S skb (snd (f skb))"
  by (simp add: writes_nests_appended)

lemma appended_put:
  "appended {} s (snd (nla_put_u8 s t v8))"
  "appended {} s (snd (nla_put_u32 s t v32))"
  "appended {} s (snd (nla_put_bitfield32 s t v32 m32))"
  "appended {} s (snd (nla_put s t n bs))"
  "appended {} s (snd (ethnl_put_bitset32 bsz s t nbits val msk flags))"
proof -
  show "appended {} s (snd (nla_put_u8 s t v8))"
    by (rule writes_nests_snd [where f = "\<lambda>s. nla_put_u8 s t v8"]) (rule writes_nests_puts)
  show "appended {} s (snd (nla_put_u32 s t v32))"
    by (rule writes_nests_snd [where f = "\<lambda>s. nla_put_u32 s t v32"]) (rule writes_nests_puts)
  show "appended {} s (snd (nla_put_bitfield32 s t v32 m32))"
    by (rule writes_nests_snd [where f = "\<lambda>s. nla_put_bitfield32 s t v32 m32"])
      (rule writes_nests_puts)
  show "appended {} s (snd (nla_put s t n bs))"
    by (rule writes_nests_snd [where f = "\<lambda>s. nla_put s t n bs"]) (rule writes_nests_puts)
  show "appended {} s (snd (ethnl_put_bitset32 bsz s t nbits val msk flags))"
    by (rule writes_nests_snd [where f = "\<lambda>s. ethnl_put_bitset32 bsz s t nbits val msk flags"])
      (rule writes_nests_bitset)
qed

lemma fill_link_state_nests:
  "writes_nests (\<lambda>s. fill_link_state s link) {A_SETTINGS ETHTOOL_A_SETTINGS_LINK_STATE}"
  unfolding writes_nests_appended
proof
  fix skb
  let ?t = "A_SETTINGS ETHTOOL_A_SETTINGS_LINK_STATE"
  obtain nest s1 where ns: "nla_nest_start skb ?t = (nest, s1)"
    by (cases "nla_nest_start skb ?t")
  show "appended {?t} skb (snd (fill_link_state skb link))"
  proof (cases nest)
    case None
    with ns nest_start_fails [of skb ?t s1] show ?thesis
      by (simp add: fill_link_state_def appended_refl)
  next
    case (Some n)
    obtain r s2 where p: "(if 0 \<le> link
                 then nla_put_u8 s1 (A_LINKSTATE ETHTOOL_A_LINKSTATE_LINK)
                        (if link \<noteq> 0 then 1 else 0)
                 else (0, s1)) = (r, s2)"
      by (cases "(if 0 \<le> link
                 then nla_put_u8 s1 (A_LINKSTATE ETHTOOL_A_LINKSTATE_LINK)
                        (if link \<noteq> 0 then 1 else 0)
                 else (0, s1))")
    have a: "appended {} s1 s2"
      using p appended_put(1) [of s1 "A_LINKSTATE ETHTOOL_A_LINKSTATE_LINK" "if link \<noteq> 0 then 1 else 0"]
      by (cases "0 \<le> link") (auto simp: appended_refl)
    from nest_body [OF ns [unfolded Some] a] have
      c: "nla_nest_cancel s2 n = skb" and e: "appended {?t} skb (nla_nest_end s2 n)"
      by simp_all
    have "snd (fill_link_state skb link) = (if r \<noteq> 0 then skb else nla_nest_end s2 n)"
      unfolding fill_link_state_def ns Some using p c by simp
    with e show ?thesis by (simp add: appended_refl)
  qed
qed

lemma fill_wolinfo_nests:
  "writes_nests (\<lambda>s. fill_wolinfo s w priv) {A_SETTINGS ETHTOOL_A_SETTINGS_WOL}"
  unfolding writes_nests_appended
proof
  fix skb
  let ?t = "A_SETTINGS ETHTOOL_A_SETTINGS_WOL"
  obtain nest s1 where ns: "nla_nest_start skb ?t = (nest, s1)"
    by (cases "nla_nest_start skb ?t")
  show "appended {?t} skb (snd (fill_wolinfo skb w priv))"
  proof (cases nest)
    case None
    with ns nest_start_fails [of skb ?t s1] show ?thesis
      by (simp add: fill_wolinfo_def appended_refl)
  next
    case (Some n)
    obtain r1 s2 where p1: "nla_put_bitfield32 s1 (A_WOL ETHTOOL_A_WOL_MODES) (wolopts w)
                  (supported w) = (r1, s2)"
      by (cases "nla_put_bitfield32 s1 (A_WOL ETHTOOL_A_WOL_MODES) (wolopts w) (supported w)")
    obtain r2 s3 where p2: "(if priv
                        then nla_put s2 (A_WOL ETHTOOL_A_WOL_SOPASS) SOPASS_MAX (sopass w)
                        else (0, s2)) = (r2, s3)"
      by (cases "(if priv
                        then nla_put s2 (A_WOL ETHTOOL_A_WOL_SOPASS) SOPASS_MAX (sopass w)
                        else (0, s2))")
    have a2: "appended {} s1 s2"
      using p1 appended_put(3) [of s1 "A_WOL ETHTOOL_A_WOL_MODES" "wolopts w" "supported w"]
      by simp
    have "appended {} s2 s3"
      using p2 appended_put(4) [of s2 "A_WOL ETHTOOL_A_WOL_SOPASS" SOPASS_MAX "sopass w"]
      by (cases priv) (auto simp: appended_refl)
    with a2 have a3: "appended {} s1 s3" by (rule appended_trans)
    from nest_body [OF ns [unfolded Some] a2] have c2: "nla_nest_cancel s2 n = skb" by simp
    from nest_body [OF ns [unfolded Some] a3] have
      c3: "nla_nest_cancel s3 n = skb" and e: "appended {?t} skb (nla_nest_end s3 n)"
      by simp_all
    have "snd (fill_wolinfo skb w priv) =
            (if r1 \<noteq> 0 then skb else if r2 \<noteq> 0 then skb else nla_nest_end s3 n)"
      unfolding fill_wolinfo_def ns Some using p1 p2 c2 c3 by simp
    with e show ?thesis by (simp add: appended_refl)
  qed
qed

lemma fill_link_modes_nests:
  "writes_nests (\<lambda>s. fill_link_modes bsz s ks lpm cmpct)
     {A_SETTINGS ETHTOOL_A_SETTINGS_LINK_MODES}"
  unfolding writes_nests_appended
proof
  fix skb
  let ?t = "A_SETTINGS ETHTOOL_A_SETTINGS_LINK_MODES"
  let ?flags = "if cmpct then ETHNL_BITSET_COMPACT else 0"
  let ?chain = "[\<lambda>s. nla_put_u32 s (A_LINKMODES ETHTOOL_A_LINKMODES_SPEED) (speed (base ks)),
                 \<lambda>s. nla_put_u8 s (A_LINKMODES ETHTOOL_A_LINKMODES_DUPLEX) (duplex (base ks))]"
  obtain nest s1 where ns: "nla_nest_start skb ?t = (nest, s1)"
    by (cases "nla_nest_start skb ?t")
  show "appended {?t} skb (snd (fill_link_modes bsz skb ks lpm cmpct))"
  proof (cases nest)
    case None
    with ns nest_start_fails [of skb ?t s1] show ?thesis
      by (simp add: fill_link_modes_def Let_def appended_refl)
  next
    case (Some n)
    obtain r1 s2 where p1: "nla_put_u8 s1 (A_LINKMODES ETHTOOL_A_LINKMODES_AUTONEG)
                     (autoneg (base ks)) = (r1, s2)"
      by (cases "nla_put_u8 s1 (A_LINKMODES ETHTOOL_A_LINKMODES_AUTONEG) (autoneg (base ks))")
    obtain r2 s3 where p2: "ethnl_put_bitset32 bsz s2 (A_LINKMODES ETHTOOL_A_LINKMODES_OURS)
                            ETHTOOL_LINK_MODE_MASK_NBITS (link_modes_advertising ks)
                            (Some (link_modes_supported ks)) ?flags = (r2, s3)"
      by (cases "ethnl_put_bitset32 bsz s2 (A_LINKMODES ETHTOOL_A_LINKMODES_OURS)
                            ETHTOOL_LINK_MODE_MASK_NBITS (link_modes_advertising ks)
                            (Some (link_modes_supported ks)) ?flags")
    obtain r3 s4 where p3: "(if \<not> lpm
                                  then ethnl_put_bitset32 bsz s3
                                         (A_LINKMODES ETHTOOL_A_LINKMODES_PEER)
                                         ETHTOOL_LINK_MODE_MASK_NBITS
                                         (link_modes_lp_advertising ks) None
                                         (?flags OR ETHNL_BITSET_LIST)
                                  else (0, s3)) = (r3, s4)"
      by (cases "(if \<not> lpm
                                  then ethnl_put_bitset32 bsz s3
                                         (A_LINKMODES ETHTOOL_A_LINKMODES_PEER)
                                         ETHTOOL_LINK_MODE_MASK_NBITS
                                         (link_modes_lp_advertising ks) None
                                         (?flags OR ETHNL_BITSET_LIST)
                                  else (0, s3))")
    obtain r4 s5 where p4: "nla_put_chain s4 ?chain = (r4, s5)"
      by (cases "nla_put_chain s4 ?chain")
    have a2: "appended {} s1 s2"
      using p1 appended_put(1) [of s1 "A_LINKMODES ETHTOOL_A_LINKMODES_AUTONEG" "autoneg (base ks)"]
      by simp
    have "appended {} s2 s3"
      using p2 appended_put(5) [of s2 bsz "A_LINKMODES ETHTOOL_A_LINKMODES_OURS"
          ETHTOOL_LINK_MODE_MASK_NBITS "link_modes_advertising ks"
          "Some (link_modes_supported ks)" ?flags]
      by simp
    with a2 have a3: "appended {} s1 s3" by (rule appended_trans)
    have "appended {} s3 s4"
      using p3 appended_put(5) [of s3 bsz "A_LINKMODES ETHTOOL_A_LINKMODES_PEER"
          ETHTOOL_LINK_MODE_MASK_NBITS "link_modes_lp_advertising ks" None
          "?flags OR ETHNL_BITSET_LIST"]
      by (cases lpm) (auto simp: appended_refl)
    with a3 have a4: "appended {} s1 s4" by (rule appended_trans)
    have "writes_nests (\<lambda>s. nla_put_chain s ?chain) {}"
      by (rule writes_nests_chain) simp
    from appended_writes [OF this p4] a4 have a5: "appended {} s1 s5"
      by (rule appended_trans [rotated])
    note nb = nest_body [OF ns [unfolded Some]]
    have c: "nla_nest_cancel s2 n = skb" "nla_nest_cancel s3 n = skb"
      "nla_nest_cancel s4 n = skb" "nla_nest_cancel s5 n = skb"
      using nb(1) [OF a2] nb(1) [OF a3] nb(1) [OF a4] nb(1) [OF a5] by simp_all
    have e: "appended {?t} skb (nla_nest_end s5 n)" by (rule nb(2) [OF a5])
    have "snd (fill_link_modes bsz skb ks lpm cmpct) =
            (if r1 \<noteq> 0 then skb else if r2 < 0 then skb else if r3 < 0 then skb
             else if r4 then skb else nla_nest_end s5 n)"
      unfolding fill_link_modes_def Let_def ns Some using p1 p2 p3 p4 c by simp
    with e show ?thesis by (simp add: appended_refl)
  qed
qed

lemma gather_step:
  fixes m b :: "'a::len word"
  shows "(case (if m AND b \<noteq> 0
                then (case g of (ret, v) \<Rightarrow> (if ret < 0 then m AND NOT b else m, upd v))
                else (m, d)) of
            (m1, d1) \<Rightarrow> k m1 d1)
         = k (m AND NOT (if fst g < 0 then b else 0)) (if m AND b \<noteq> 0 then upd (snd g) else d)"
  by (cases g) (simp add: and_not_noop)

lemma prepare_params_mask:
  assumes "0 \<le> before_ops st"
  shows "params_info_mask (fst (snd (prepare_params ops before_ops st req_info))) =
      (((req_mask req_info
          AND NOT (if fst (ethnl_get_coalesce ops st zero_coalesce) < 0
                   then ETHTOOL_IM_PARAMS_COALESCE else 0))
          AND NOT (if fst (ethnl_get_ring ops st zero_ringparam) < 0
                   then ETHTOOL_IM_PARAMS_RING else 0))
          AND NOT (if fst (ethnl_get_pause ops st zero_pauseparam) < 0
                   then ETHTOOL_IM_PARAMS_PAUSE else 0))
          AND NOT (if fst (ethnl_get_channels ops st zero_channels) < 0
                   then ETHTOOL_IM_PARAMS_CHANNELS else 0)"
proof -
  have nb: "\<not> before_ops st < 0" using assms by simp
  show ?thesis
    unfolding prepare_params_def Let_def gather_step
    by (simp add: nb)
qed

lemma prepare_params_succeeds:
  assumes "0 \<le> before_ops st"
  shows "fst (prepare_params ops before_ops st req_info) = 0"
proof -
  have nb: "\<not> before_ops st < 0" using assms by simp
  show ?thesis
    unfolding prepare_params_def Let_def gather_step
    by (simp add: nb)
qed

lemma writes_nests_cond:
  "writes_nests f S \<Longrightarrow>
     writes_nests (\<lambda>s. if c then f s else (r0, s)) (if c then S else {})"
  by (cases c) simp_all

lemma fill_settings_nests:
  "writes_nests (\<lambda>s. fill_settings bsz s req data)
     ((if settings_info_mask data AND ETHTOOL_IM_SETTINGS_LINKINFO \<noteq> 0
       then {A_SETTINGS ETHTOOL_A_SETTINGS_LINK_INFO} else {}) \<union>
      ((if settings_info_mask data AND ETHTOOL_IM_SETTINGS_LINKMODES \<noteq> 0
        then {A_SETTINGS ETHTOOL_A_SETTINGS_LINK_MODES} else {}) \<union>
       ((if settings_info_mask data AND ETHTOOL_IM_SETTINGS_LINKSTATE \<noteq> 0
         then {A_SETTINGS ETHTOOL_A_SETTINGS_LINK_STATE} else {}) \<union>
        ((if settings_info_mask data AND ETHTOOL_IM_SETTINGS_WOL \<noteq> 0
          then {A_SETTINGS ETHTOOL_A_SETTINGS_WOL} else {}) \<union> {}))))"
  unfolding fill_settings_def Let_def
  apply (rule writes_nests_seq)
   apply (rule writes_nests_cond [OF fill_link_info_nests])
  apply (rule writes_nests_seq)
   apply (rule writes_nests_cond [OF fill_link_modes_nests])
  apply (rule writes_nests_seq)
   apply (rule writes_nests_cond [OF fill_link_state_nests])
  apply (rule writes_nests_seq)
   apply (rule writes_nests_cond [OF fill_wolinfo_nests])
  apply (rule writes_nests_skip)
  done

lemma fill_params_nests:
  "writes_nests (\<lambda>s. fill_params s req data)
     ((if params_info_mask data AND ETHTOOL_IM_PARAMS_COALESCE \<noteq> 0
       then {A_PARAMS ETHTOOL_A_PARAMS_COALESCE} else {}) \<union>
      ((if params_info_mask data AND ETHTOOL_IM_PARAMS_RING \<noteq> 0
        then {A_PARAMS ETHTOOL_A_PARAMS_RING} else {}) \<union>
       ((if params_info_mask data AND ETHTOOL_IM_PARAMS_PAUSE \<noteq> 0
         then {A_PARAMS ETHTOOL_A_PARAMS_PAUSE} else {}) \<union>
        ((if params_info_mask data AND ETHTOOL_IM_PARAMS_CHANNELS \<noteq> 0
          then {A_PARAMS ETHTOOL_A_PARAMS_CHANNELS} else {}) \<union> {}))))"
  unfolding fill_params_def Let_def
  apply (rule writes_nests_seq)
   apply (rule writes_nests_cond [OF fill_coalesce_nests])
  apply (rule writes_nests_seq)
   apply (rule writes_nests_cond [OF fill_ring_nests])
  apply (rule writes_nests_seq)
   apply (rule writes_nests_cond [OF fill_pause_nests])
  apply (rule writes_nests_seq)
   apply (rule writes_nests_cond [OF fill_channels_nests])
  apply (rule writes_nests_skip)
  done

lemma set_nest_types: "set (List.map_filter nest_type new) = {t. NestStart t \<in> set new}"
proof (induction new)
  case Nil
  then show ?case by (simp add: List.map_filter_simps)
next
  case (Cons it new)
  then show ?case by (cases it) (auto simp: List.map_filter_simps)
qed

lemma sub_containers_writes:
  assumes "writes_nests f S"
  shows "set (sub_containers skb (snd (f skb))) \<subseteq> S"
proof -
  from writes_nestsD [OF assms, of skb] obtain new where
    "snd (f skb) = skb\<lparr>items := items skb @ new\<rparr>" "{t. NestStart t \<in> set new} \<subseteq> S"
    by blast
  then show ?thesis by (simp add: sub_containers_def set_nest_types)
qed

lemma fill_settings_sub_containers:
  "t \<in> set (sub_containers skb (snd (fill_settings bsz skb req data))) \<Longrightarrow>
     settings_info_mask data AND settings_category t \<noteq> 0"
  using sub_containers_writes [OF fill_settings_nests, of skb bsz req data]
  by (auto split: if_splits)

lemma fill_params_sub_containers:
  "t \<in> set (sub_containers skb (snd (fill_params skb req data))) \<Longrightarrow>
     params_info_mask data AND params_category t \<noteq> 0"
  using sub_containers_writes [OF fill_params_nests, of skb req data]
  by (auto split: if_splits)




end
